(* ===== verification/Prelude.thy ===== *)
theory Prelude
  imports Complex_Main
begin

text \<open>
  Shared vocabulary of the rasterisation library.  Python's numbers are modelled
  as HOL numbers: Python \<open>int\<close> as \<^typ>\<open>int\<close> (unbounded, like Python's), Python
  \<open>float\<close> as \<^typ>\<open>real\<close> (exact arithmetic in place of IEEE doubles, see the header
  of \<open>Spec2Isabelle\<close>).  The two built-ins whose rounding rule matters are
  modelled exactly: \<open>round(x)\<close> rounds half to even (\<open>py_round\<close>) and \<open>int(x)\<close>
  truncates towards zero (\<open>py_int\<close>).  A pixel is a pair of integers, and the
  property every rasteriser shares, that consecutive pixels touch (8-connectivity),
  is \<open>connected\<close>.
\<close>

named_theorems pyround "rounding facts on Python's round and int"

type_synonym point = "int \<times> int"

datatype py_error = ZeroDivisionError | ValueError

definition py_round :: "real \<Rightarrow> int" where
  "py_round x = (let f = \<lfloor>x\<rfloor>; d = x - of_int f in
     if d < 1/2 then f else if 1/2 < d then f + 1 else if even f then f else f + 1)"

definition py_int :: "real \<Rightarrow> int" where
  "py_int x = (if 0 \<le> x then \<lfloor>x\<rfloor> else \<lceil>x\<rceil>)"

definition adjacent :: "point \<Rightarrow> point \<Rightarrow> bool" where
  "adjacent p q \<longleftrightarrow> \<bar>fst p - fst q\<bar> \<le> 1 \<and> \<bar>snd p - snd q\<bar> \<le> 1"

fun connected :: "point list \<Rightarrow> bool" where
  "connected (p # q # rest) = (adjacent p q \<and> connected (q # rest))"
| "connected _ = True"

text \<open>Python's \<open>str\<close> of an integer (an f-string's \<open>{x}\<close>), \<open>range(start, stop, step)\<close>
  for a positive step (the only steps the programs pass), and the format specifications
  \<open>{:w.1f}\<close> (one decimal, rounded half to even on the exact value, right-aligned) and
  \<open>{:ws}\<close> (left-aligned) of their console output.\<close>

fun nat_str :: "nat \<Rightarrow> string" where
  "nat_str n = (if n < 10 then [char_of (48 + n)] else nat_str (n div 10) @ [char_of (48 + n mod 10)])"

definition py_str :: "int \<Rightarrow> string" where
  "py_str i = (if i < 0 then ''-'' @ nat_str (nat (- i)) else nat_str (nat i))"

function py_range_step :: "int \<Rightarrow> int \<Rightarrow> int \<Rightarrow> int list" where
  "py_range_step start stop step =
     (if step \<le> 0 \<or> stop \<le> start then [] else start # py_range_step (start + step) stop step)"
  by pat_completeness auto
termination by (relation "measure (\<lambda>(start, stop, step). nat (stop - start))") auto

definition py_rjust :: "nat \<Rightarrow> string \<Rightarrow> string" where
  "py_rjust w str = replicate (w - length str) (CHR '' '') @ str"

definition py_ljust :: "nat \<Rightarrow> string \<Rightarrow> string" where
  "py_ljust w str = str @ replicate (w - length str) (CHR '' '')"

definition py_fmt_f1 :: "nat \<Rightarrow> real \<Rightarrow> string" where
  "py_fmt_f1 w x = (let k = nat \<bar>py_round (x * 10)\<bar> in
     py_rjust w ((if x < 0 then ''-'' else '''') @ nat_str (k div 10) @ ''.'' @ nat_str (k mod 10)))"

text \<open>Python's \<open>repr\<close> of a float, used when a tuple of floats is printed.  It prints the
  shortest decimal that reads back as the same double, in fixed notation when the decimal
  point falls between \<open>-4\<close> and \<open>16\<close> digits from the first significant digit (with
  at least one digit after the point, \<open>1.0\<close>) and in exponent notation otherwise
  (\<open>1e-05\<close>, \<open>1.5e+16\<close>).  Floats being read as the exact reals their literals
  denote, the significant digits of a non-zero real are those of its rounding to 17
  significant digits (the precision of a double) with the trailing zeros removed: for a
  literal with at most 17 significant digits that is the literal itself.
  \<open>float_exponent a\<close> is the decimal exponent of the first significant digit.\<close>

definition pow10 :: "int \<Rightarrow> real" where
  "pow10 e = (if 0 \<le> e then 10 ^ nat e else 1 / 10 ^ nat (- e))"

definition float_exponent :: "real \<Rightarrow> int" where
  "float_exponent a =
     (if 1 \<le> a then int (length (nat_str (nat \<lfloor>a\<rfloor>))) - 1
      else (let e = - int (length (nat_str (nat \<lfloor>1 / a\<rfloor>))) in if 1 \<le> a * pow10 (- (e + 1)) then e + 1 else e))"

definition sig_digits :: "nat \<Rightarrow> int \<Rightarrow> string \<times> int" where
  "sig_digits m p = (let ds = nat_str m; sig = rev (dropWhile (\<lambda>c. c = CHR ''0'') (rev ds))
                     in (sig, p + int (length ds - length sig)))"

definition float_digits :: "real \<Rightarrow> string \<times> int" where
  "float_digits a = sig_digits (nat (py_round (a * pow10 (16 - float_exponent a)))) (float_exponent a - 16)"

definition py_float_repr :: "real \<Rightarrow> string" where
  "py_float_repr x =
     (if x = 0 then ''0.0'' else
      (let (ds, p) = float_digits \<bar>x\<bar>; n = int (length ds); decpt = n + p
       in (if x < 0 then ''-'' else '''') @
          (if - 4 < decpt \<and> decpt \<le> 16 then
             (if decpt \<le> 0 then ''0.'' @ replicate (nat (- decpt)) (CHR ''0'') @ ds
              else if n \<le> decpt then ds @ replicate (nat (decpt - n)) (CHR ''0'') @ ''.0''
              else take (nat decpt) ds @ ''.'' @ drop (nat decpt) ds)
           else
             (let e = decpt - 1; es = nat_str (nat \<bar>e\<bar>)
              in [hd ds] @ (if n = 1 then '''' else ''.'' @ tl ds) @ ''e'' @ (if e < 0 then ''-'' else ''+'')
                 @ replicate (2 - length es) (CHR ''0'') @ es))))"

text \<open>\<open>repr\<close> of a tuple of three floats, as an f-string prints \<open>{color}\<close>.\<close>

definition py_repr_triple :: "real \<times> real \<times> real \<Rightarrow> string" where
  "py_repr_triple c = ''('' @ py_float_repr (fst c) @ '', '' @ py_float_repr (fst (snd c)) @ '', ''
     @ py_float_repr (snd (snd c)) @ '')''"

subsection \<open>Python's round\<close>

lemma py_round_bounds [pyround]:
  "x - 1/2 \<le> of_int (py_round x) \<and> of_int (py_round x) \<le> x + 1/2"
proof -
  have "of_int \<lfloor>x\<rfloor> \<le> x" "x < of_int \<lfloor>x\<rfloor> + 1"
    by (simp_all add: of_int_floor_le real_of_int_floor_add_one_gt)
  then show ?thesis
    unfolding py_round_def Let_def by (simp split: if_splits) linarith
qed

lemma py_round_unique [pyround]:
  assumes "\<bar>x - of_int k\<bar> < 1/2"
  shows "py_round x = k"
proof -
  have lo: "of_int k - 1/2 < x" and hi: "x < of_int k + 1/2"
    using assms unfolding abs_less_iff by linarith+
  have "\<lfloor>x\<rfloor> = k \<or> \<lfloor>x\<rfloor> = k - 1"
    using lo hi by (auto simp: floor_eq_iff)
  then show ?thesis
  proof
    assume "\<lfloor>x\<rfloor> = k"
    with hi show ?thesis by (simp add: py_round_def Let_def)
  next
    assume f: "\<lfloor>x\<rfloor> = k - 1"
    with lo have "1/2 < x - of_int \<lfloor>x\<rfloor>" by simp
    with f show ?thesis by (simp add: py_round_def Let_def)
  qed
qed

lemma py_round_of_int [simp, pyround]: "py_round (of_int k) = k"
  by (rule py_round_unique) simp

text \<open>Away from a tie, \<open>round\<close> is the nearest integer; at a tie it depends on parity.\<close>

lemma py_round_nontie [pyround]:
  assumes "x - of_int \<lfloor>x\<rfloor> \<noteq> 1/2"
  shows "\<bar>x - of_int (py_round x)\<bar> < 1/2"
proof -
  have "of_int \<lfloor>x\<rfloor> \<le> x" "x < of_int \<lfloor>x\<rfloor> + 1"
    by (simp_all add: of_int_floor_le real_of_int_floor_add_one_gt)
  with assms show ?thesis
    unfolding py_round_def Let_def abs_less_iff by (simp split: if_splits) linarith
qed

lemma py_round_add_int [pyround]:
  assumes "x - of_int \<lfloor>x\<rfloor> \<noteq> 1/2"
  shows "py_round (x + of_int k) = py_round x + k"
  using py_round_nontie [OF assms] by (intro py_round_unique) simp

lemma py_round_minus [pyround]:
  assumes "x - of_int \<lfloor>x\<rfloor> \<noteq> 1/2"
  shows "py_round (- x) = - py_round x"
  using py_round_nontie [OF assms] by (intro py_round_unique) (simp add: abs_minus_commute)

lemma py_round_close [pyround]:
  assumes "\<bar>x - y\<bar> < 1"
  shows "\<bar>py_round x - py_round y\<bar> \<le> 1"
proof -
  have "\<bar>of_int (py_round x) - of_int (py_round y)\<bar> < (2::real)"
    using py_round_bounds [of x] py_round_bounds [of y] assms
    unfolding abs_less_iff by linarith
  then have "\<bar>py_round x - py_round y\<bar> < 2" by linarith
  then show ?thesis by simp
qed

subsection \<open>Python's int\<close>

lemma py_int_of_int [simp, pyround]: "py_int (of_int k) = k"
  by (simp add: py_int_def)

lemma py_int_cases: "py_int x = \<lfloor>x\<rfloor> \<and> 0 \<le> x \<or> py_int x = \<lceil>x\<rceil> \<and> x < 0"
  by (simp add: py_int_def)

lemma py_int_between [pyround]:
  assumes "of_int a \<le> x" "x \<le> of_int b"
  shows "a \<le> py_int x \<and> py_int x \<le> b"
proof -
  have "a \<le> \<lfloor>x\<rfloor>" using assms(1) by (simp add: le_floor_iff)
  moreover have "\<lceil>x\<rceil> \<le> b" using assms(2) by (simp add: ceiling_le_iff)
  moreover have "\<lfloor>x\<rfloor> \<le> \<lceil>x\<rceil>" by (rule floor_le_ceiling)
  ultimately show ?thesis
    using py_int_cases [of x] by linarith
qed

lemma py_int_mono [pyround]:
  assumes "x \<le> y"
  shows "py_int x \<le> py_int y"
proof -
  have "\<lfloor>x\<rfloor> \<le> \<lfloor>y\<rfloor>" "\<lceil>x\<rceil> \<le> \<lceil>y\<rceil>" "\<lfloor>y\<rfloor> \<le> \<lceil>y\<rceil>"
    using assms by (auto intro: floor_mono ceiling_mono floor_le_ceiling)
  moreover have "x < 0 \<Longrightarrow> \<lceil>x\<rceil> \<le> 0" "0 \<le> y \<Longrightarrow> 0 \<le> \<lfloor>y\<rfloor>"
    by (simp_all add: ceiling_le_iff)
  ultimately show ?thesis
    using py_int_cases [of x] py_int_cases [of y] assms by linarith
qed

subsection \<open>Integer division by its defining inequalities\<close>

lemma div_charI:
  fixes a b q :: int
  assumes "0 < b" "b * q \<le> a" "a < b * q + b"
  shows "a div b = q"
  using assms by (intro int_div_pos_eq [where r = "a - b * q"]) auto

subsection \<open>Connected pixel sequences\<close>

lemma adjacent_refl [simp]: "adjacent p p"
  by (simp add: adjacent_def)

lemma connected_Cons:
  "connected (p # xs) \<longleftrightarrow> connected xs \<and> (xs \<noteq> [] \<longrightarrow> adjacent p (hd xs))"
  by (cases xs) auto

lemma connected_append:
  "connected (xs @ ys) \<longleftrightarrow>
     connected xs \<and> connected ys \<and> (xs \<noteq> [] \<and> ys \<noteq> [] \<longrightarrow> adjacent (last xs) (hd ys))"
  by (induction xs rule: connected.induct) (auto simp: connected_Cons)

lemma connected_iff_nth:
  "connected xs \<longleftrightarrow> (\<forall>i. Suc i < length xs \<longrightarrow> adjacent (xs ! i) (xs ! Suc i))"
proof (induction xs rule: connected.induct)
  case (1 p q rest)
  then show ?case
    by (auto simp: nth_Cons split: nat.splits)
qed (auto simp: less_Suc_eq)

text \<open>Two maps that agree after a projection agree for every function that factors
  through it.\<close>

lemma map_factor: "map f xs = map f ys \<Longrightarrow> (\<And>s. g s = h (f s)) \<Longrightarrow> map g xs = map g ys"
proof -
  assume e: "map f xs = map f ys" and g: "\<And>s. g s = h (f s)"
  have "map g xs = map h (map f xs)" "map g ys = map h (map f ys)" by (simp_all add: g)
  with e show ?thesis by simp
qed

subsection \<open>Evaluating the printers\<close>

text \<open>\<open>nat_str\<close> and \<open>replicate\<close> evaluate by \<open>simp\<close> once the digit characters and
  numeral counts are unfolded; \<open>py_format\<close> collects the definitions of the printers.\<close>

lemma digit_chars [simp]:
  "char_of (48::nat) = CHR ''0''" "char_of (49::nat) = CHR ''1''" "char_of (50::nat) = CHR ''2''"
  "char_of (51::nat) = CHR ''3''" "char_of (52::nat) = CHR ''4''" "char_of (53::nat) = CHR ''5''"
  "char_of (54::nat) = CHR ''6''" "char_of (55::nat) = CHR ''7''" "char_of (56::nat) = CHR ''8''"
  "char_of (57::nat) = CHR ''9''"
  by code_simp+

lemma replicate_numeral_Cons: "replicate (numeral k) x = x # replicate (pred_numeral k) x"
  by (simp add: numeral_eq_Suc)

lemmas py_format = py_float_repr_def float_digits_def sig_digits_def float_exponent_def pow10_def py_round_def Let_def
  replicate_numeral_Cons py_repr_triple_def py_ljust_def py_rjust_def py_fmt_f1_def py_str_def

end
