(* ===== verification/Bresenham.thy ===== *)
theory Bresenham
  imports Prelude
begin

text \<open>
  Bresenham's line algorithm, \<open>bresenham_line\<close> of \<open>src/bresenham.py\<close> (the copy
  in \<open>src/line_graph.py\<close> is treated in \<open>LineGraph\<close>).  The two \<open>for\<close> loops of
  the source are \<open>bres_x_loop\<close> (\<open>|m| < 1\<close>, x drives) and \<open>bres_y_loop\<close>
  (\<open>|m| \<ge> 1\<close>, y drives); each emits the current pixel and then updates the
  decision parameter \<open>p\<close>.  The abstract specification is \<open>bresenham_ref\<close>:
  the k-th pixel advances k steps along the driving axis and rounds the ideal
  minor-axis offset \<open>k \<cdot> dmin / dmaj\<close> half up (\<open>bres_minor\<close>).  The main
  lemma, \<open>bresenham_line_eq_ref\<close>, is that the integer recurrence computes exactly
  that; endpoints, length, connectivity and the half-pixel error bound follow
  from the closed form.
\<close>

fun bres_x_loop :: "nat \<Rightarrow> int \<Rightarrow> int \<Rightarrow> int \<Rightarrow> int \<Rightarrow> int \<Rightarrow> int \<Rightarrow> int \<Rightarrow> point list" where
  "bres_x_loop 0 dx dy x_step y_step x y p = []"
| "bres_x_loop (Suc n) dx dy x_step y_step x y p =
     (x, y) #
     (if p \<ge> 0
      then bres_x_loop n dx dy x_step y_step (x + x_step) (y + y_step) (p + 2 * (dy - dx))
      else bres_x_loop n dx dy x_step y_step (x + x_step) y (p + 2 * dy))"

fun bres_y_loop :: "nat \<Rightarrow> int \<Rightarrow> int \<Rightarrow> int \<Rightarrow> int \<Rightarrow> int \<Rightarrow> int \<Rightarrow> int \<Rightarrow> point list" where
  "bres_y_loop 0 dx dy x_step y_step x y p = []"
| "bres_y_loop (Suc n) dx dy x_step y_step x y p =
     (x, y) #
     (if p \<ge> 0
      then bres_y_loop n dx dy x_step y_step (x + x_step) (y + y_step) (p + 2 * (dx - dy))
      else bres_y_loop n dx dy x_step y_step x (y + y_step) (p + 2 * dx))"

definition bresenham_line :: "int \<Rightarrow> int \<Rightarrow> int \<Rightarrow> int \<Rightarrow> point list" where
  "bresenham_line x1 y1 x2 y2 =
     (let dx = \<bar>x2 - x1\<bar>; dy = \<bar>y2 - y1\<bar>;
          x_step = (if x2 > x1 then 1 else -1);
          y_step = (if y2 > y1 then 1 else -1)
      in if dx > dy
         then bres_x_loop (nat (dx + 1)) dx dy x_step y_step x1 y1 (2 * dy - dx)
         else bres_y_loop (nat (dy + 1)) dx dy x_step y_step x1 y1 (2 * dx - dy))"

text \<open>The specification: the minor-axis offset of the k-th pixel, rounded half up.\<close>

definition bres_minor :: "int \<Rightarrow> int \<Rightarrow> nat \<Rightarrow> int" where
  "bres_minor dmaj dmin k = (2 * int k * dmin + dmaj) div (2 * dmaj)"

definition bresenham_ref :: "int \<Rightarrow> int \<Rightarrow> int \<Rightarrow> int \<Rightarrow> point list" where
  "bresenham_ref x1 y1 x2 y2 =
     (let dx = \<bar>x2 - x1\<bar>; dy = \<bar>y2 - y1\<bar>; sx = sgn (x2 - x1); sy = sgn (y2 - y1)
      in if dx > dy
         then map (\<lambda>k. (x1 + sx * int k, y1 + sy * bres_minor dx dy k)) [0..<nat dx + 1]
         else map (\<lambda>k. (x1 + sx * bres_minor dy dx k, y1 + sy * int k)) [0..<nat dy + 1])"

subsection \<open>The rounded offset\<close>

lemma bres_minor_bounds:
  assumes "0 < dmaj"
  shows "2 * dmaj * bres_minor dmaj dmin k \<le> 2 * int k * dmin + dmaj
       \<and> 2 * int k * dmin + dmaj < 2 * dmaj * bres_minor dmaj dmin k + 2 * dmaj"
proof -
  let ?a = "2 * int k * dmin + dmaj" and ?b = "2 * dmaj"
  have "?a = ?b * (?a div ?b) + ?a mod ?b" by simp
  moreover have "0 \<le> ?a mod ?b" "?a mod ?b < ?b" using assms by simp_all
  ultimately show ?thesis unfolding bres_minor_def by linarith
qed

lemma bres_minor_0 [simp]: "0 \<le> dmaj \<Longrightarrow> bres_minor dmaj dmin 0 = 0"
  by (cases "dmaj = 0") (simp_all add: bres_minor_def)

lemma bres_minor_dmin0: "0 < dmaj \<Longrightarrow> bres_minor dmaj 0 k = 0"
  by (simp add: bres_minor_def)

lemma bres_minor_last: "0 < dmaj \<Longrightarrow> bres_minor dmaj dmin (nat dmaj) = dmin"
  unfolding bres_minor_def by (rule div_charI) (simp_all add: algebra_simps)

text \<open>One step of the recurrence: the offset grows by one exactly when the decision
  parameter of the source is non-negative, and by nothing otherwise.\<close>

lemma bres_minor_Suc:
  assumes "0 \<le> dmin" "dmin \<le> dmaj" "0 < dmaj"
  shows "bres_minor dmaj dmin (Suc k) =
    (if 0 \<le> 2 * (int k + 1) * dmin - dmaj - 2 * bres_minor dmaj dmin k * dmaj
     then bres_minor dmaj dmin k + 1 else bres_minor dmaj dmin k)"
proof -
  let ?j = "bres_minor dmaj dmin k"
  have b: "2 * dmaj * ?j \<le> 2 * int k * dmin + dmaj"
    "2 * int k * dmin + dmaj < 2 * dmaj * ?j + 2 * dmaj"
    using bres_minor_bounds [OF assms(3)] by blast+
  have eq: "bres_minor dmaj dmin (Suc k) = (2 * int k * dmin + 2 * dmin + dmaj) div (2 * dmaj)"
    by (simp add: bres_minor_def algebra_simps)
  show ?thesis
  proof (cases "0 \<le> 2 * (int k + 1) * dmin - dmaj - 2 * ?j * dmaj")
    case True
    have "(2 * int k * dmin + 2 * dmin + dmaj) div (2 * dmaj) = ?j + 1"
      using True b assms by (intro div_charI) (simp_all add: algebra_simps)
    with True eq show ?thesis by simp
  next
    case False
    have "(2 * int k * dmin + 2 * dmin + dmaj) div (2 * dmaj) = ?j"
      using False b assms by (intro div_charI) (simp_all add: algebra_simps)
    with False eq show ?thesis by simp
  qed
qed

lemma bres_minor_step:
  assumes "0 \<le> dmin" "dmin \<le> dmaj" "0 < dmaj"
  shows "bres_minor dmaj dmin (Suc k) = bres_minor dmaj dmin k
       \<or> bres_minor dmaj dmin (Suc k) = bres_minor dmaj dmin k + 1"
  using bres_minor_Suc [OF assms, of k] by auto


lemma bres_x_loop_ref:
  assumes "0 \<le> dy" "dy \<le> dx" "0 < dx"
    and "p = 2 * (int k + 1) * dy - dx - 2 * bres_minor dx dy k * dx"
  shows "bres_x_loop n dx dy sx sy (x0 + sx * int k) (y0 + sy * bres_minor dx dy k) p
       = map (\<lambda>i. (x0 + sx * int i, y0 + sy * bres_minor dx dy i)) [k..<k + n]"
  using assms(4)
proof (induction n arbitrary: k p)
  case 0
  then show ?case by simp
next
  case (Suc n)
  let ?j = "bres_minor dx dy k"
  let ?f = "\<lambda>i. (x0 + sx * int i, y0 + sy * bres_minor dx dy i)"
  have u: "[k..<k + Suc n] = k # [Suc k..<Suc k + n]"
    using upt_conv_Cons [of k "k + Suc n"] by (simp del: upt_Suc)
  have x: "x0 + sx * int k + sx = x0 + sx * int (Suc k)" by (simp add: algebra_simps)
  show ?case
  proof (cases "0 \<le> p")
    case True
    with Suc.prems have j: "bres_minor dx dy (Suc k) = ?j + 1"
      using bres_minor_Suc [OF assms(1-3), of k] by simp
    have p': "p + 2 * (dy - dx) = 2 * (int (Suc k) + 1) * dy - dx - 2 * bres_minor dx dy (Suc k) * dx"
      using Suc.prems j by (simp add: algebra_simps)
    have y: "y0 + sy * ?j + sy = y0 + sy * bres_minor dx dy (Suc k)"
      by (simp add: j algebra_simps)
    have "bres_x_loop (Suc n) dx dy sx sy (x0 + sx * int k) (y0 + sy * ?j) p
        = ?f k # bres_x_loop n dx dy sx sy (x0 + sx * int k + sx) (y0 + sy * ?j + sy) (p + 2 * (dy - dx))"
      using True by simp
    also have "\<dots> = ?f k # map ?f [Suc k..<Suc k + n]"
      unfolding x y by (simp only: Suc.IH [OF p'])
    finally show ?thesis by (simp only: u list.map)
  next
    case False
    with Suc.prems have j: "bres_minor dx dy (Suc k) = ?j"
      using bres_minor_Suc [OF assms(1-3), of k] by simp
    have p': "p + 2 * dy = 2 * (int (Suc k) + 1) * dy - dx - 2 * bres_minor dx dy (Suc k) * dx"
      using Suc.prems j by (simp add: algebra_simps)
    have y: "y0 + sy * ?j = y0 + sy * bres_minor dx dy (Suc k)"
      by (simp add: j)
    have "bres_x_loop (Suc n) dx dy sx sy (x0 + sx * int k) (y0 + sy * ?j) p
        = ?f k # bres_x_loop n dx dy sx sy (x0 + sx * int k + sx) (y0 + sy * ?j) (p + 2 * dy)"
      using False by simp
    also have "\<dots> = ?f k # map ?f [Suc k..<Suc k + n]"
      unfolding x y by (simp only: Suc.IH [OF p'])
    finally show ?thesis by (simp only: u list.map)
  qed
qed

subsection \<open>The loops against the reference\<close>

lemma bres_y_loop_swap:
  "bres_y_loop n dx dy sx sy x y p = map prod.swap (bres_x_loop n dy dx sy sx y x p)"
  by (induction n arbitrary: x y p) auto

lemma bres_x_loop_start:
  assumes "0 \<le> dy" "dy \<le> dx" "0 < dx"
  shows "bres_x_loop (nat (dx + 1)) dx dy sx sy x1 y1 (2 * dy - dx)
       = map (\<lambda>i. (x1 + sx * int i, y1 + sy * bres_minor dx dy i)) [0..<nat dx + 1]"
  using bres_x_loop_ref [OF assms, of "2 * dy - dx" 0 "nat (dx + 1)" sx sy x1 y1] assms
  by (simp add: nat_add_distrib)

lemma bresenham_line_eq_ref: "bresenham_line x1 y1 x2 y2 = bresenham_ref x1 y1 x2 y2"
proof -
  define dx dy where "dx = \<bar>x2 - x1\<bar>" and "dy = \<bar>y2 - y1\<bar>"
  define sx sy where "sx = (if x2 > x1 then 1 else (-1::int))"
    and "sy = (if y2 > y1 then 1 else (-1::int))"
  have line: "bresenham_line x1 y1 x2 y2 =
    (if dx > dy then bres_x_loop (nat (dx + 1)) dx dy sx sy x1 y1 (2 * dy - dx)
     else bres_y_loop (nat (dy + 1)) dx dy sx sy x1 y1 (2 * dx - dy))"
    by (simp add: bresenham_line_def dx_def dy_def sx_def sy_def Let_def)
  have ref: "bresenham_ref x1 y1 x2 y2 =
    (if dx > dy
     then map (\<lambda>k. (x1 + sgn (x2 - x1) * int k, y1 + sgn (y2 - y1) * bres_minor dx dy k)) [0..<nat dx + 1]
     else map (\<lambda>k. (x1 + sgn (x2 - x1) * bres_minor dy dx k, y1 + sgn (y2 - y1) * int k)) [0..<nat dy + 1])"
    by (simp add: bresenham_ref_def dx_def dy_def Let_def)
  have sgn_x: "x2 \<noteq> x1 \<Longrightarrow> sx = sgn (x2 - x1)" and sgn_y: "y2 \<noteq> y1 \<Longrightarrow> sy = sgn (y2 - y1)"
    by (auto simp: sx_def sy_def sgn_if)
  show ?thesis
  proof (cases "dx > dy")
    case True
    then have d: "0 \<le> dy" "dy \<le> dx" "0 < dx" "x2 \<noteq> x1" by (auto simp: dx_def dy_def)
    have "sy * bres_minor dx dy k = sgn (y2 - y1) * bres_minor dx dy k" for k
      using sgn_y d by (cases "y2 = y1") (auto simp: dy_def bres_minor_dmin0)
    then show ?thesis
      using True line ref bres_x_loop_start [OF d(1-3), of sx sy x1 y1] sgn_x [OF d(4)] by simp
  next
    case False
    show ?thesis
    proof (cases "dy = 0")
      case True
      with False have "dx = 0" by (simp add: dx_def)
      with True False line ref show ?thesis by simp
    next
      case dy0: False
      then have d: "0 \<le> dx" "dx \<le> dy" "0 < dy" "y2 \<noteq> y1" using False by (auto simp: dx_def dy_def)
      have "sx * bres_minor dy dx k = sgn (x2 - x1) * bres_minor dy dx k" for k
        using sgn_x d by (cases "x2 = x1") (auto simp: dx_def bres_minor_dmin0)
      then show ?thesis
        using False line ref bres_x_loop_start [OF d(1-3), of sy sx y1 x1] sgn_y [OF d(4)]
        by (simp add: bres_y_loop_swap)
    qed
  qed
qed

text \<open>C1: The integer decision-parameter recurrence of bresenham_line computes exactly the reference line: the k-th pixel is k unit steps along the driving axis, and the minor-axis offset is k * dmin / dmaj rounded half up.\<close>

theorem bresenham_line_ref: "bresenham_line x1 y1 x2 y2 = bresenham_ref x1 y1 x2 y2"
  by (rule bresenham_line_eq_ref)

lemma cross_sgn:
  fixes a b u v :: int
  shows "(sgn a * u) * b - (sgn b * v) * a = sgn a * sgn b * (u * \<bar>b\<bar> - \<bar>a\<bar> * v)"
proof -
  have "a = sgn a * \<bar>a\<bar>" "b = sgn b * \<bar>b\<bar>" by (simp_all add: sgn_mult_abs)
  then have "(sgn a * u) * b - (sgn b * v) * a
      = (sgn a * u) * (sgn b * \<bar>b\<bar>) - (sgn b * v) * (sgn a * \<bar>a\<bar>)" by simp
  also have "\<dots> = sgn a * sgn b * (u * \<bar>b\<bar> - \<bar>a\<bar> * v)" by (simp add: algebra_simps)
  finally show ?thesis .
qed

lemma abs_sgn_mult_le: "\<bar>sgn (a::int) * sgn (b::int) * t\<bar> \<le> \<bar>t\<bar>"
  by (auto simp: abs_mult sgn_if)

lemma bres_cross_bound:
  assumes "0 < dmaj"
  shows "2 * \<bar>int k * dmin - dmaj * bres_minor dmaj dmin k\<bar> \<le> dmaj"
proof -
  let ?A = "int k * dmin" and ?B = "dmaj * bres_minor dmaj dmin k"
  have "2 * ?B \<le> 2 * ?A + dmaj" "2 * ?A + dmaj < 2 * ?B + 2 * dmaj"
    using bres_minor_bounds [OF assms, of dmin k] by (simp_all add: algebra_simps)
  then show ?thesis by arith
qed

text \<open>\<open>bresenham_line\<close> emits max(|dx|, |dy|) + 1 pixels.\<close>

theorem bresenham_length:
  "length (bresenham_line x1 y1 x2 y2) = nat (max (\<bar>x2 - x1\<bar>) (\<bar>y2 - y1\<bar>)) + 1"
  by (simp add: bresenham_line_eq_ref bresenham_ref_def Let_def max_def)

lemma bresenham_hd_last:
  "hd (bresenham_line x1 y1 x2 y2) = (x1, y1) \<and> last (bresenham_line x1 y1 x2 y2) = (x2, y2)"
proof -
  have "hd (bresenham_ref x1 y1 x2 y2) = (x1, y1)"
    by (simp add: bresenham_ref_def Let_def hd_map upt_conv_Cons del: upt_Suc)
  moreover have "last (bresenham_ref x1 y1 x2 y2) = (x2, y2)"
  proof (cases "\<bar>y2 - y1\<bar> < \<bar>x2 - x1\<bar>")
    case True
    then show ?thesis
      by (simp add: bresenham_ref_def Let_def last_map bres_minor_last sgn_mult_abs)
  next
    case False
    show ?thesis
    proof (cases "y2 = y1")
      case True
      with False show ?thesis by (simp add: bresenham_ref_def)
    next
      case ne: False
      with False show ?thesis
        by (simp add: bresenham_ref_def Let_def last_map bres_minor_last sgn_mult_abs)
    qed
  qed
  ultimately show ?thesis by (simp add: bresenham_line_eq_ref)
qed

text \<open>C2: bresenham_line starts at the first endpoint and ends at the second, for every pair of integer endpoints.\<close>

theorem bresenham_endpoints:
  "hd (bresenham_line x1 y1 x2 y2) = (x1, y1) \<and> last (bresenham_line x1 y1 x2 y2) = (x2, y2)"
  by (rule bresenham_hd_last)

lemma bresenham_ref_step:
  assumes "Suc i < length (bresenham_ref x1 y1 x2 y2)"
  shows "(let p = bresenham_ref x1 y1 x2 y2 ! i; q = bresenham_ref x1 y1 x2 y2 ! Suc i in
     if \<bar>y2 - y1\<bar> < \<bar>x2 - x1\<bar>
     then fst q = fst p + sgn (x2 - x1) \<and> snd q - snd p \<in> {0, sgn (y2 - y1)}
     else snd q = snd p + sgn (y2 - y1) \<and> fst q - fst p \<in> {0, sgn (x2 - x1)})"
proof (cases "\<bar>y2 - y1\<bar> < \<bar>x2 - x1\<bar>")
  case True
  have "bres_minor (\<bar>x2 - x1\<bar>) (\<bar>y2 - y1\<bar>) (Suc i) = bres_minor (\<bar>x2 - x1\<bar>) (\<bar>y2 - y1\<bar>) i
      \<or> bres_minor (\<bar>x2 - x1\<bar>) (\<bar>y2 - y1\<bar>) (Suc i) = bres_minor (\<bar>x2 - x1\<bar>) (\<bar>y2 - y1\<bar>) i + 1"
    using True by (intro bres_minor_step) auto
  with True assms show ?thesis
    by (auto simp: bresenham_ref_def Let_def nth_append algebra_simps simp del: upt_Suc)
next
  case False
  with assms have "0 < \<bar>y2 - y1\<bar>"
    by (auto simp: bresenham_ref_def Let_def)
  then have "bres_minor (\<bar>y2 - y1\<bar>) (\<bar>x2 - x1\<bar>) (Suc i) = bres_minor (\<bar>y2 - y1\<bar>) (\<bar>x2 - x1\<bar>) i
      \<or> bres_minor (\<bar>y2 - y1\<bar>) (\<bar>x2 - x1\<bar>) (Suc i) = bres_minor (\<bar>y2 - y1\<bar>) (\<bar>x2 - x1\<bar>) i + 1"
    using False by (intro bres_minor_step) auto
  with False assms show ?thesis
    by (auto simp: bresenham_ref_def Let_def nth_append algebra_simps simp del: upt_Suc)
qed

text \<open>C3: Between consecutive pixels of bresenham_line the driving-axis coordinate moves by exactly one unit towards the end point, and the other coordinate moves by zero or one unit towards it.\<close>

theorem bresenham_steps:
  assumes "Suc i < length (bresenham_line x1 y1 x2 y2)"
  shows "(let p = bresenham_line x1 y1 x2 y2 ! i; q = bresenham_line x1 y1 x2 y2 ! Suc i in
     if \<bar>y2 - y1\<bar> < \<bar>x2 - x1\<bar>
     then fst q = fst p + sgn (x2 - x1) \<and> snd q - snd p \<in> {0, sgn (y2 - y1)}
     else snd q = snd p + sgn (y2 - y1) \<and> fst q - fst p \<in> {0, sgn (x2 - x1)})"
  using bresenham_ref_step [of i x1 y1 x2 y2] assms by (simp add: bresenham_line_eq_ref)

lemma bresenham_line_connected: "connected (bresenham_line x1 y1 x2 y2)"
  unfolding connected_iff_nth
proof (intro allI impI)
  fix i
  assume i: "Suc i < length (bresenham_line x1 y1 x2 y2)"
  have "\<bar>sgn (x2 - x1)\<bar> \<le> 1" "\<bar>sgn (y2 - y1)\<bar> \<le> 1" by (simp_all add: sgn_if)
  with bresenham_ref_step [of i x1 y1 x2 y2] i
  show "adjacent (bresenham_line x1 y1 x2 y2 ! i) (bresenham_line x1 y1 x2 y2 ! Suc i)"
    by (auto simp: bresenham_line_eq_ref adjacent_def Let_def sgn_if split: if_splits)
qed

text \<open>The pixels of \<open>bresenham_line\<close> form an 8-connected sequence.\<close>

theorem bresenham_connected: "connected (bresenham_line x1 y1 x2 y2)"
  by (rule bresenham_line_connected)

text \<open>C4: Every pixel of bresenham_line lies within half a pixel of the ideal segment along the minor axis: twice the cross product of (pixel - start) and (end - start) is at most the driving-axis length.\<close>

theorem bresenham_error_bound:
  "\<forall>(x, y) \<in> set (bresenham_line x1 y1 x2 y2).
     2 * \<bar>(x - x1) * (y2 - y1) - (y - y1) * (x2 - x1)\<bar> \<le> max (\<bar>x2 - x1\<bar>) (\<bar>y2 - y1\<bar>)"
proof (cases "\<bar>y2 - y1\<bar> < \<bar>x2 - x1\<bar>")
  case True
  have "2 * \<bar>(sgn (x2 - x1) * int k) * (y2 - y1)
      - (sgn (y2 - y1) * bres_minor (\<bar>x2 - x1\<bar>) (\<bar>y2 - y1\<bar>) k) * (x2 - x1)\<bar> \<le> \<bar>x2 - x1\<bar>" for k
  proof -
    let ?j = "bres_minor (\<bar>x2 - x1\<bar>) (\<bar>y2 - y1\<bar>) k"
    have "\<bar>(sgn (x2 - x1) * int k) * (y2 - y1) - (sgn (y2 - y1) * ?j) * (x2 - x1)\<bar>
        \<le> \<bar>int k * \<bar>y2 - y1\<bar> - \<bar>x2 - x1\<bar> * ?j\<bar>"
      unfolding cross_sgn by (rule abs_sgn_mult_le)
    moreover have "2 * \<bar>int k * \<bar>y2 - y1\<bar> - \<bar>x2 - x1\<bar> * ?j\<bar> \<le> \<bar>x2 - x1\<bar>"
      using True by (intro bres_cross_bound) auto
    ultimately show ?thesis by linarith
  qed
  with True show ?thesis
    by (auto simp: bresenham_line_eq_ref bresenham_ref_def Let_def simp del: upt_Suc)
next
  case False
  have "2 * \<bar>(sgn (x2 - x1) * bres_minor (\<bar>y2 - y1\<bar>) (\<bar>x2 - x1\<bar>) k) * (y2 - y1)
      - (sgn (y2 - y1) * int k) * (x2 - x1)\<bar> \<le> \<bar>y2 - y1\<bar>" if "0 < \<bar>y2 - y1\<bar>" for k
  proof -
    let ?j = "bres_minor (\<bar>y2 - y1\<bar>) (\<bar>x2 - x1\<bar>) k"
    have "\<bar>(sgn (x2 - x1) * ?j) * (y2 - y1) - (sgn (y2 - y1) * int k) * (x2 - x1)\<bar>
        \<le> \<bar>?j * \<bar>y2 - y1\<bar> - \<bar>x2 - x1\<bar> * int k\<bar>"
      unfolding cross_sgn by (rule abs_sgn_mult_le)
    also have "\<dots> = \<bar>int k * \<bar>x2 - x1\<bar> - \<bar>y2 - y1\<bar> * ?j\<bar>"
      by (simp add: abs_minus_commute mult.commute)
    finally show ?thesis
      using bres_cross_bound [OF that, of k "\<bar>x2 - x1\<bar>"] by linarith
  qed
  with False show ?thesis
    by (cases "y2 = y1") (auto simp: bresenham_line_eq_ref bresenham_ref_def Let_def simp del: upt_Suc)
qed

text \<open>Witnesses at the segment from (0,0) to (4,2).\<close>

theorem bresenham_steps_witness:
  "Suc 1 < length (bresenham_line 0 0 4 2) \<and>
   (let p = bresenham_line 0 0 4 2 ! 1; q = bresenham_line 0 0 4 2 ! Suc 1 in
     if \<bar>2 - 0\<bar> < \<bar>4 - 0::int\<bar>
     then fst q = fst p + sgn (4 - 0) \<and> snd q - snd p \<in> {0, sgn (2 - 0)}
     else snd q = snd p + sgn (2 - 0) \<and> fst q - fst p \<in> {0, sgn (4 - 0)})"
proof -
  have h: "Suc 1 < length (bresenham_line 0 0 4 2)"
    by (simp add: bresenham_line_def numeral_eq_Suc)
  show ?thesis using h bresenham_steps [OF h] by simp
qed

theorem bresenham_error_bound_witness:
  "(2, 1) \<in> set (bresenham_line 0 0 4 2) \<and>
   2 * \<bar>(2 - 0) * (2 - 0) - (1 - 0) * (4 - 0)\<bar> \<le> max (\<bar>4 - 0\<bar>) (\<bar>2 - 0::int\<bar>)"
proof -
  have h: "(2, 1) \<in> set (bresenham_line 0 0 4 2)"
    by (simp add: bresenham_line_def numeral_eq_Suc)
  show ?thesis using h bresenham_error_bound [of 0 0 4 2] by fastforce
qed

end
