(* ===== verification/DDA.thy ===== *)
theory DDA
  imports Prelude
begin

text \<open>
  The digital differential analyser, \<open>dda_line\<close> of \<open>src/DDA.py\<close> (the copy in
  \<open>src/line_graph.py\<close> is treated in \<open>LineGraph\<close>).  The source walks a
  float position from the first endpoint, adding \<open>x_inc = dx / steps\<close> and
  \<open>y_inc = dy / steps\<close> per step and emitting \<open>(round(x), round(y))\<close>; the
  loop is \<open>dda_loop\<close>.  With exact arithmetic the running sum is
  \<open>x1 + k \<cdot> dx / steps\<close>, which is \<open>dda_ref\<close>: the closed form the lemmas are
  proved on.  Python's \<open>round\<close> rounds half to even, so a pixel on a tie depends
  on the parity of the rounded value: the DDA is not translation invariant.
\<close>

fun dda_loop :: "nat \<Rightarrow> real \<Rightarrow> real \<Rightarrow> real \<Rightarrow> real \<Rightarrow> point list" where
  "dda_loop 0 x y x_inc y_inc = []"
| "dda_loop (Suc n) x y x_inc y_inc =
     (py_round x, py_round y) # dda_loop n (x + x_inc) (y + y_inc) x_inc y_inc"

definition dda_line :: "int \<Rightarrow> int \<Rightarrow> int \<Rightarrow> int \<Rightarrow> point list" where
  "dda_line x1 y1 x2 y2 =
     (let dx = x2 - x1; dy = y2 - y1; steps = max (\<bar>dx\<bar>) (\<bar>dy\<bar>)
      in if steps = 0 then [(x1, y1)]
         else (let x_inc = real_of_int dx / real_of_int steps;
                   y_inc = real_of_int dy / real_of_int steps
               in dda_loop (nat steps + 1) (real_of_int x1) (real_of_int y1) x_inc y_inc))"

text \<open>The specification: the k-th pixel rounds the exact point \<open>k / steps\<close> of the way along.\<close>

definition dda_ref :: "int \<Rightarrow> int \<Rightarrow> int \<Rightarrow> int \<Rightarrow> point list" where
  "dda_ref x1 y1 x2 y2 =
     (let steps = max (\<bar>x2 - x1\<bar>) (\<bar>y2 - y1\<bar>)
      in map (\<lambda>k. (py_round (of_int x1 + of_nat k * of_int (x2 - x1) / of_int steps),
                   py_round (of_int y1 + of_nat k * of_int (y2 - y1) / of_int steps)))
             [0..<nat steps + 1])"

lemma dda_loop_closed:
  "dda_loop n x y xi yi = map (\<lambda>k. (py_round (x + of_nat k * xi), py_round (y + of_nat k * yi))) [0..<n]"
proof (induction n arbitrary: x y)
  case 0
  then show ?case by simp
next
  case (Suc n)
  show ?case
    by (simp add: Suc.IH map_upt_Suc algebra_simps del: upt_Suc)
qed

lemma dda_line_eq_ref: "dda_line x1 y1 x2 y2 = dda_ref x1 y1 x2 y2"
  by (auto simp: dda_line_def dda_ref_def Let_def dda_loop_closed max_def)


lemma dda_int_point:
  assumes "\<bar>d\<bar> = s" "0 < s"
  shows "of_int c + of_nat k * of_int d / of_int s = (of_int (c + int k * sgn d) :: real)"
proof -
  have "of_int d / of_int s = (of_int (sgn d) :: real)"
    using assms by (auto simp: sgn_if abs_if split: if_splits)
  then have "of_int c + of_nat k * (of_int d / of_int s) = (of_int (c + int k * sgn d) :: real)"
    by simp
  then show ?thesis by simp
qed

lemma dda_coord_step:
  fixes c d s :: int
  assumes "\<bar>d\<bar> \<le> s" "0 < s"
  shows "\<bar>py_round (of_int c + of_nat k * of_int d / of_int s)
          - py_round (of_int c + of_nat (Suc k) * of_int d / of_int s)\<bar> \<le> 1"
proof (cases "\<bar>d\<bar> = s")
  case True
  have "py_round (of_int c + of_nat (Suc k) * of_int d / of_int s) = c + int (Suc k) * sgn d"
    unfolding dda_int_point [OF True assms(2)] by (rule py_round_of_int)
  moreover have "py_round (of_int c + of_nat k * of_int d / of_int s) = c + int k * sgn d"
    unfolding dda_int_point [OF True assms(2)] by (rule py_round_of_int)
  moreover have "c + int k * sgn d - (c + int (Suc k) * sgn d) = - sgn d"
    by (simp add: algebra_simps)
  moreover have "\<bar>sgn d\<bar> \<le> 1" by (simp add: sgn_if)
  ultimately show ?thesis by simp
next
  case False
  have s: "(0::real) < of_int s" using assms by simp
  have diff: "(of_int c + of_nat k * of_int d / of_int s)
      - (of_int c + of_nat (Suc k) * of_int d / of_int s) = - (of_int d / of_int s :: real)"
    using s by (simp add: field_simps)
  have "\<bar>real_of_int d\<bar> < of_int s" using False assms by linarith
  then have "\<bar>of_int d / of_int s\<bar> < (1::real)"
    using s by (simp add: abs_divide pos_divide_less_eq)
  then show ?thesis
    by (intro py_round_close) (simp only: diff)
qed

lemma dda_steps_pos: "max (\<bar>x2 - x1\<bar>) (\<bar>y2 - y1\<bar>) = (0::int) \<Longrightarrow> x2 = x1 \<and> y2 = y1"
  by (auto simp: max_def split: if_splits)

lemma dda_hd_last:
  "hd (dda_line x1 y1 x2 y2) = (x1, y1) \<and> last (dda_line x1 y1 x2 y2) = (x2, y2)"
proof (cases "max (\<bar>x2 - x1\<bar>) (\<bar>y2 - y1\<bar>) = 0")
  case True
  then show ?thesis using dda_steps_pos [OF True] by (simp add: dda_line_def)
next
  case False
  let ?s = "max (\<bar>x2 - x1\<bar>) (\<bar>y2 - y1\<bar>)"
  have s: "(0::real) < of_int ?s" using False by simp
  have n: "(of_nat (nat ?s) :: real) = of_int ?s" by simp
  have "of_int x1 + of_nat (nat ?s) * of_int (x2 - x1) / of_int ?s = (of_int x2 :: real)"
    "of_int y1 + of_nat (nat ?s) * of_int (y2 - y1) / of_int ?s = (of_int y2 :: real)"
    unfolding n using s by simp_all
  then have "last (dda_ref x1 y1 x2 y2) = (x2, y2)"
    by (simp add: dda_ref_def Let_def last_map del: upt_Suc)
  moreover have "hd (dda_ref x1 y1 x2 y2) = (x1, y1)"
    by (simp add: dda_ref_def Let_def hd_map upt_conv_Cons del: upt_Suc)
  ultimately show ?thesis by (simp add: dda_line_eq_ref)
qed

text \<open>\<open>dda_line\<close> starts at the first endpoint and ends at the second, including the zero-length segment.\<close>

theorem dda_endpoints:
  "hd (dda_line x1 y1 x2 y2) = (x1, y1) \<and> last (dda_line x1 y1 x2 y2) = (x2, y2)"
  by (rule dda_hd_last)

lemma dda_line_nth:
  assumes "j < length (dda_line x1 y1 x2 y2)"
  shows "dda_line x1 y1 x2 y2 ! j =
    (py_round (of_int x1 + of_nat j * of_int (x2 - x1) / of_int (max (\<bar>x2 - x1\<bar>) (\<bar>y2 - y1\<bar>))),
     py_round (of_int y1 + of_nat j * of_int (y2 - y1) / of_int (max (\<bar>x2 - x1\<bar>) (\<bar>y2 - y1\<bar>))))"
proof -
  have j: "j < length [0..<nat (max (\<bar>x2 - x1\<bar>) (\<bar>y2 - y1\<bar>)) + 1]"
    using assms by (simp add: dda_line_eq_ref dda_ref_def Let_def)
  then have "[0..<nat (max (\<bar>x2 - x1\<bar>) (\<bar>y2 - y1\<bar>)) + 1] ! j = j"
    by (simp del: upt_Suc)
  with j show ?thesis
    unfolding dda_line_eq_ref dda_ref_def Let_def by (simp only: nth_map)
qed

text \<open>\<open>dda_line\<close> emits max(|dx|, |dy|) + 1 pixels, and exactly one for a zero-length segment.\<close>

theorem dda_length: "length (dda_line x1 y1 x2 y2) = nat (max (\<bar>x2 - x1\<bar>) (\<bar>y2 - y1\<bar>)) + 1"
  by (simp add: dda_line_eq_ref dda_ref_def Let_def)

lemma dda_line_connected: "connected (dda_line x1 y1 x2 y2)"
  unfolding connected_iff_nth
proof (intro allI impI)
  fix i
  assume i: "Suc i < length (dda_line x1 y1 x2 y2)"
  let ?s = "max (\<bar>x2 - x1\<bar>) (\<bar>y2 - y1\<bar>)"
  from i have s: "0 < ?s" by (simp add: dda_line_eq_ref dda_ref_def Let_def)
  have "\<bar>x2 - x1\<bar> \<le> ?s" "\<bar>y2 - y1\<bar> \<le> ?s" by simp_all
  with s have c: "\<bar>py_round (of_int x1 + of_nat i * of_int (x2 - x1) / of_int ?s)
          - py_round (of_int x1 + of_nat (Suc i) * of_int (x2 - x1) / of_int ?s)\<bar> \<le> 1
    \<and> \<bar>py_round (of_int y1 + of_nat i * of_int (y2 - y1) / of_int ?s)
          - py_round (of_int y1 + of_nat (Suc i) * of_int (y2 - y1) / of_int ?s)\<bar> \<le> 1"
    by (simp only: dda_coord_step simp_thms)
  have "i < length (dda_line x1 y1 x2 y2)" using i by simp
  then have n1: "dda_line x1 y1 x2 y2 ! i =
    (py_round (of_int x1 + of_nat i * of_int (x2 - x1) / of_int ?s),
     py_round (of_int y1 + of_nat i * of_int (y2 - y1) / of_int ?s))"
    by (rule dda_line_nth)
  have n2: "dda_line x1 y1 x2 y2 ! Suc i =
    (py_round (of_int x1 + of_nat (Suc i) * of_int (x2 - x1) / of_int ?s),
     py_round (of_int y1 + of_nat (Suc i) * of_int (y2 - y1) / of_int ?s))"
    using i by (rule dda_line_nth)
  show "adjacent (dda_line x1 y1 x2 y2 ! i) (dda_line x1 y1 x2 y2 ! Suc i)"
    unfolding n1 n2 adjacent_def fst_conv snd_conv by (rule c)
qed

text \<open>C10: The pixels of dda_line form an 8-connected sequence.\<close>

theorem dda_connected: "connected (dda_line x1 y1 x2 y2)"
  by (rule dda_line_connected)

lemma dda_cross_real:
  fixes s d1 d2 e t :: real
  assumes "0 < s" "\<bar>d1\<bar> = s" "\<bar>e\<bar> \<le> 1/2"
  shows "2 * \<bar>(t * d1 / s) * d2 - (t * d2 / s + e) * d1\<bar> \<le> s"
proof -
  have "(t * d1 / s) * d2 - (t * d2 / s + e) * d1 = - (e * d1)"
    using assms(1) by (simp add: field_simps)
  moreover have "\<bar>e\<bar> * s \<le> 1/2 * s"
    using assms by (intro mult_right_mono) auto
  ultimately show ?thesis using assms(2) by (simp add: abs_mult)
qed

lemma dda_point_cross:
  fixes c1 c2 d1 d2 s :: int
  assumes "0 < s" "\<bar>d1\<bar> = s"
  shows "2 * \<bar>(py_round (of_int c1 + of_nat k * of_int d1 / of_int s) - c1) * d2
             - (py_round (of_int c2 + of_nat k * of_int d2 / of_int s) - c2) * d1\<bar> \<le> s"
proof -
  let ?X = "of_int c1 + of_nat k * of_int d1 / of_int s :: real"
  let ?Y = "of_int c2 + of_nat k * of_int d2 / of_int s :: real"
  have "py_round ?X = c1 + int k * sgn d1"
    unfolding dda_int_point [OF assms(2,1)] by (rule py_round_of_int)
  then have px: "real_of_int (py_round ?X - c1) = of_nat k * of_int d1 / of_int s"
    using dda_int_point [OF assms(2,1), of c1 k] by simp
  define e where "e = real_of_int (py_round ?Y) - ?Y"
  have py: "real_of_int (py_round ?Y - c2) = of_nat k * of_int d2 / of_int s + e"
    by (simp add: e_def)
  have e: "\<bar>e\<bar> \<le> 1/2"
    using py_round_bounds [of ?Y] unfolding e_def abs_le_iff by linarith
  have "2 * \<bar>real_of_int (py_round ?X - c1) * of_int d2 - real_of_int (py_round ?Y - c2) * of_int d1\<bar>
      \<le> real_of_int s"
    unfolding px py using dda_cross_real [of "of_int s" "of_int d1" e "of_nat k" "of_int d2"] assms e
    by simp
  then have "real_of_int (2 * \<bar>(py_round ?X - c1) * d2 - (py_round ?Y - c2) * d1\<bar>) \<le> real_of_int s"
    by simp
  then show ?thesis by (simp only: of_int_le_iff)
qed

text \<open>C9: Every DDA pixel lies within half a pixel of the ideal segment along the minor axis (the same bound as Bresenham).\<close>

theorem dda_error_bound:
  "\<forall>(x, y) \<in> set (dda_line x1 y1 x2 y2).
     2 * \<bar>(x - x1) * (y2 - y1) - (y - y1) * (x2 - x1)\<bar> \<le> max (\<bar>x2 - x1\<bar>) (\<bar>y2 - y1\<bar>)"
proof
  fix p
  assume "p \<in> set (dda_line x1 y1 x2 y2)"
  then obtain j where j: "j < length (dda_line x1 y1 x2 y2)" "p = dda_line x1 y1 x2 y2 ! j"
    by (auto simp: in_set_conv_nth)
  let ?s = "max (\<bar>x2 - x1\<bar>) (\<bar>y2 - y1\<bar>)"
  have p: "p = (py_round (of_int x1 + of_nat j * of_int (x2 - x1) / of_int ?s),
                py_round (of_int y1 + of_nat j * of_int (y2 - y1) / of_int ?s))"
    by (simp only: j(2) dda_line_nth [OF j(1)])
  show "case p of (x, y) \<Rightarrow> 2 * \<bar>(x - x1) * (y2 - y1) - (y - y1) * (x2 - x1)\<bar> \<le> ?s"
    unfolding p prod.case
  proof (cases "?s = 0")
    case True
    then show "2 * \<bar>(py_round (of_int x1 + of_nat j * of_int (x2 - x1) / of_int ?s) - x1) * (y2 - y1)
        - (py_round (of_int y1 + of_nat j * of_int (y2 - y1) / of_int ?s) - y1) * (x2 - x1)\<bar> \<le> ?s"
      using dda_steps_pos [OF True] by simp
  next
    case False
    then have s: "0 < ?s" by simp
    show "2 * \<bar>(py_round (of_int x1 + of_nat j * of_int (x2 - x1) / of_int ?s) - x1) * (y2 - y1)
        - (py_round (of_int y1 + of_nat j * of_int (y2 - y1) / of_int ?s) - y1) * (x2 - x1)\<bar> \<le> ?s"
    proof (cases "\<bar>x2 - x1\<bar> = ?s")
      case True
      show ?thesis by (rule dda_point_cross [OF s True])
    next
      case ne: False
      then have dy: "\<bar>y2 - y1\<bar> = ?s" by (simp add: max_def split: if_splits)
      show ?thesis by (subst abs_minus_commute) (rule dda_point_cross [OF s dy])
    qed
  qed
qed


text \<open>Witness at the segment from (0,0) to (4,2).\<close>

theorem dda_error_bound_witness:
  "(1, 0) \<in> set (dda_line 0 0 4 2) \<and>
   2 * \<bar>(1 - 0) * (2 - 0) - (0 - 0) * (4 - 0)\<bar> \<le> max (\<bar>4 - 0\<bar>) (\<bar>2 - 0::int\<bar>)"
proof -
  have h: "(1, 0) \<in> set (dda_line 0 0 4 2)"
    by (simp add: dda_line_def numeral_eq_Suc py_round_def)
  show ?thesis using h dda_error_bound [of 0 0 4 2] by fastforce
qed

end
