(* ===== verification/MidpointCircle.thy ===== *)
theory MidpointCircle
  imports Prelude
begin

text \<open>
  The midpoint circle algorithm of \<open>src/mid_point_circle.py\<close>.
  \<open>plot_circle_points\<close> is the 8-way reflection of one octant point about the
  centre; \<open>circle_loop\<close> is the \<open>while x < y\<close> loop of \<open>midpoint_circle\<close>, which
  advances x, keeps or lowers y by the sign of the decision parameter \<open>p\<close> and
  plots the eight images of the new point.  It terminates because \<open>y - x\<close>
  shrinks by at least one per iteration (the measure of its \<open>termination\<close>
  proof).  The specification \<open>circle_octant\<close> chooses y by evaluating the
  implicit circle function at the midpoint, \<open>circle_mid\<close>; the refinement lemma
  says the incremental \<open>p\<close> is always that value.  \<open>draw_filled_circle\<close> models
  the vertex stream of the fill routine of the same file.
\<close>

definition plot_circle_points :: "int \<Rightarrow> int \<Rightarrow> int \<Rightarrow> int \<Rightarrow> point list" where
  "plot_circle_points xc yc x y =
     [(xc + x, yc + y), (xc - x, yc + y), (xc + x, yc - y), (xc - x, yc - y),
      (xc + y, yc + x), (xc - y, yc + x), (xc + y, yc - x), (xc - y, yc - x)]"

function circle_loop :: "int \<Rightarrow> int \<Rightarrow> int \<Rightarrow> int \<Rightarrow> int \<Rightarrow> point list" where
  "circle_loop xc yc x y p =
     (if x < y then
        (let x' = x + 1 in
         if p < 0
         then plot_circle_points xc yc x' y @ circle_loop xc yc x' y (p + 2 * x' + 1)
         else plot_circle_points xc yc x' (y - 1) @
              circle_loop xc yc x' (y - 1) (p + 2 * (x' - (y - 1)) + 1))
      else [])"
  by pat_completeness auto
termination
  by (relation "measure (\<lambda>(xc, yc, x, y, p). nat (y - x))") auto

definition midpoint_circle :: "int \<Rightarrow> int \<Rightarrow> int \<Rightarrow> point list" where
  "midpoint_circle xc yc r = plot_circle_points xc yc 0 r @ circle_loop xc yc 0 r (1 - r)"

text \<open>
  \<open>draw_filled_circle\<close> issues one \<open>GL_LINES\<close> segment per row \<open>yc + i\<close>,
  \<open>-r \<le> i \<le> r\<close>, from \<open>xc - r\<close> to \<open>xc + r\<close>; the model is the list of
  vertices it sends, in order.  Its locals \<open>x, y, p\<close> are never read.
\<close>

definition draw_filled_circle :: "int \<Rightarrow> int \<Rightarrow> int \<Rightarrow> point list" where
  "draw_filled_circle xc yc r = concat (map (\<lambda>i. [(xc - r, yc + i), (xc + r, yc + i)]) [-r..r])"

text \<open>The specification: the midpoint test on the implicit function, scaled to integers.\<close>

definition circle_mid :: "int \<Rightarrow> int \<Rightarrow> int \<Rightarrow> int" where
  "circle_mid r x y = (x + 1)\<^sup>2 + y\<^sup>2 - y - r\<^sup>2"

function circle_octant :: "int \<Rightarrow> int \<Rightarrow> int \<Rightarrow> point list" where
  "circle_octant r x y =
     (if x < y then
        (let y' = (if circle_mid r x y < 0 then y else y - 1)
         in (x + 1, y') # circle_octant r (x + 1) y')
      else [])"
  by pat_completeness auto
termination
  by (relation "measure (\<lambda>(r, x, y). nat (y - x))") auto

declare circle_loop.simps [simp del] circle_octant.simps [simp del]

lemma circle_loop_ref:
  "circle_loop xc yc x y (circle_mid r x y) =
     concat (map (\<lambda>(a, b). plot_circle_points xc yc a b) (circle_octant r x y))"
proof (induction r x y rule: circle_octant.induct)
  case (1 r x y)
  show ?case
  proof (cases "x < y")
    case False
    then show ?thesis by (simp add: circle_loop.simps circle_octant.simps)
  next
    case True
    show ?thesis
    proof (cases "circle_mid r x y < 0")
      case neg: True
      have "circle_mid r x y + 2 * (x + 1) + 1 = circle_mid r (x + 1) y"
        by (simp add: circle_mid_def power2_eq_square algebra_simps)
      with True neg "1.IH" show ?thesis
        by (simp add: circle_loop.simps [of xc yc x] circle_octant.simps [of r x] Let_def)
    next
      case nonneg: False
      have "circle_mid r x y + 2 * (x + 1 - (y - 1)) + 1 = circle_mid r (x + 1) (y - 1)"
        by (simp add: circle_mid_def power2_eq_square algebra_simps)
      with True nonneg "1.IH" show ?thesis
        by (simp add: circle_loop.simps [of xc yc x] circle_octant.simps [of r x] Let_def)
    qed
  qed
qed

lemma midpoint_circle_eq_ref:
  "midpoint_circle xc yc r =
     concat (map (\<lambda>(a, b). plot_circle_points xc yc a b) ((0, r) # circle_octant r 0 r))"
proof -
  have "circle_mid r 0 r = 1 - r" by (simp add: circle_mid_def power2_eq_square)
  then show ?thesis by (simp add: midpoint_circle_def flip: circle_loop_ref)
qed

text \<open>C13: The incremental decision parameter of midpoint_circle always equals the integer midpoint test (x+1)^2 + y^2 - y - r^2, so the output is the 8-way reflection of the octant sequence the direct midpoint test chooses, starting from (0, r).\<close>

theorem midpoint_circle_ref:
  "midpoint_circle xc yc r =
     concat (map (\<lambda>(a, b). plot_circle_points xc yc a b) ((0, r) # circle_octant r 0 r))"
  by (rule midpoint_circle_eq_ref)

lemma circle_octant_inv:
  assumes "0 \<le> x" "x\<^sup>2 + y\<^sup>2 - y \<le> r\<^sup>2" "r\<^sup>2 \<le> x\<^sup>2 + y\<^sup>2 + y" "x < y \<longrightarrow> x\<^sup>2 + y\<^sup>2 - y < r\<^sup>2"
  shows "\<forall>(a, b) \<in> set (circle_octant r x y).
    0 \<le> a \<and> a\<^sup>2 + b\<^sup>2 - b \<le> r\<^sup>2 \<and> r\<^sup>2 \<le> a\<^sup>2 + b\<^sup>2 + b \<and> (a < b \<longrightarrow> a\<^sup>2 + b\<^sup>2 - b < r\<^sup>2)"
  using assms
proof (induction r x y rule: circle_octant.induct)
  case (1 r x y)
  show ?case
  proof (cases "x < y")
    case False
    then show ?thesis by (simp add: circle_octant.simps)
  next
    case True
    let ?y' = "if circle_mid r x y < 0 then y else y - 1"
    have sq: "(x + 1)\<^sup>2 = x\<^sup>2 + 2 * x + 1" "(y - 1)\<^sup>2 = y\<^sup>2 - 2 * y + 1"
      by (simp_all add: power2_eq_square algebra_simps)
    have m: "circle_mid r x y = x\<^sup>2 + 2 * x + 1 + y\<^sup>2 - y - r\<^sup>2"
      by (simp add: circle_mid_def sq)
    have new: "0 \<le> x + 1 \<and> (x + 1)\<^sup>2 + ?y'\<^sup>2 - ?y' \<le> r\<^sup>2 \<and> r\<^sup>2 \<le> (x + 1)\<^sup>2 + ?y'\<^sup>2 + ?y'
       \<and> (x + 1 < ?y' \<longrightarrow> (x + 1)\<^sup>2 + ?y'\<^sup>2 - ?y' < r\<^sup>2)"
      using "1.prems" True m by (auto simp: sq)
    have "\<forall>(a, b) \<in> set (circle_octant r (x + 1) ?y').
      0 \<le> a \<and> a\<^sup>2 + b\<^sup>2 - b \<le> r\<^sup>2 \<and> r\<^sup>2 \<le> a\<^sup>2 + b\<^sup>2 + b \<and> (a < b \<longrightarrow> a\<^sup>2 + b\<^sup>2 - b < r\<^sup>2)"
      using new by (intro "1.IH" [OF True refl]) auto
    with new True show ?thesis
      by (subst circle_octant.simps) (simp add: Let_def)
  qed
qed


lemma plot_circle_near:
  assumes "a\<^sup>2 + b\<^sup>2 - b \<le> r\<^sup>2" "r\<^sup>2 \<le> a\<^sup>2 + b\<^sup>2 + b"
  shows "\<forall>(u, v) \<in> set (plot_circle_points xc yc a b).
    \<bar>(u - xc)\<^sup>2 + (v - yc)\<^sup>2 - r\<^sup>2\<bar> \<le> max (\<bar>u - xc\<bar>) (\<bar>v - yc\<bar>)"
proof -
  have "\<bar>a\<^sup>2 + b\<^sup>2 - r\<^sup>2\<bar> \<le> b" using assms by (simp add: abs_le_iff)
  moreover have "b \<le> max (\<bar>a\<bar>) (\<bar>b\<bar>)" using abs_ge_self [of b] by (simp add: le_max_iff_disj)
  ultimately have "\<bar>a\<^sup>2 + b\<^sup>2 - r\<^sup>2\<bar> \<le> max (\<bar>a\<bar>) (\<bar>b\<bar>)" by linarith
  then show ?thesis
    by (auto simp: plot_circle_points_def max.commute add.commute)
qed

lemma circle_points_near:
  assumes "0 \<le> r"
  shows "\<forall>(u, v) \<in> set (midpoint_circle xc yc r).
    \<bar>(u - xc)\<^sup>2 + (v - yc)\<^sup>2 - r\<^sup>2\<bar> \<le> max (\<bar>u - xc\<bar>) (\<bar>v - yc\<bar>)"
  unfolding midpoint_circle_eq_ref
proof
  fix q
  assume "q \<in> set (concat (map (\<lambda>(a, b). plot_circle_points xc yc a b) ((0, r) # circle_octant r 0 r)))"
  then obtain a b where ab: "(a, b) \<in> set ((0, r) # circle_octant r 0 r)"
    "q \<in> set (plot_circle_points xc yc a b)" by auto
  have h0: "(0::int)\<^sup>2 + r\<^sup>2 - r \<le> r\<^sup>2" "r\<^sup>2 \<le> 0\<^sup>2 + r\<^sup>2 + r" "0 < r \<longrightarrow> 0\<^sup>2 + r\<^sup>2 - r < r\<^sup>2"
    using assms by simp_all
  have "\<forall>(a, b) \<in> set (circle_octant r 0 r).
      0 \<le> a \<and> a\<^sup>2 + b\<^sup>2 - b \<le> r\<^sup>2 \<and> r\<^sup>2 \<le> a\<^sup>2 + b\<^sup>2 + b \<and> (a < b \<longrightarrow> a\<^sup>2 + b\<^sup>2 - b < r\<^sup>2)"
    using h0 by (intro circle_octant_inv) simp_all
  with ab(1) h0 have "a\<^sup>2 + b\<^sup>2 - b \<le> r\<^sup>2" "r\<^sup>2 \<le> a\<^sup>2 + b\<^sup>2 + b" by auto
  then have "\<forall>(u, v) \<in> set (plot_circle_points xc yc a b).
      \<bar>(u - xc)\<^sup>2 + (v - yc)\<^sup>2 - r\<^sup>2\<bar> \<le> max (\<bar>u - xc\<bar>) (\<bar>v - yc\<bar>)"
    by (rule plot_circle_near)
  with ab(2) show "case q of (u, v) \<Rightarrow> \<bar>(u - xc)\<^sup>2 + (v - yc)\<^sup>2 - r\<^sup>2\<bar> \<le> max (\<bar>u - xc\<bar>) (\<bar>v - yc\<bar>)"
    by blast
qed

lemma circle_dist_from_near:
  fixes d2 m r :: int
  assumes "0 < r" "0 \<le> m" "m\<^sup>2 \<le> d2" "\<bar>d2 - r\<^sup>2\<bar> \<le> m"
  shows "(r - 1)\<^sup>2 < d2 \<and> d2 < (r + 1)\<^sup>2"
proof
  show "(r - 1)\<^sup>2 < d2"
  proof (rule ccontr)
    assume "\<not> (r - 1)\<^sup>2 < d2"
    then have "m\<^sup>2 \<le> (r - 1)\<^sup>2" using assms(3) by simp
    then have "m \<le> r - 1" by (rule power2_le_imp_le) (use assms(1) in linarith)
    moreover have "(r - 1)\<^sup>2 = r\<^sup>2 - 2 * r + 1" by (simp add: power2_eq_square algebra_simps)
    moreover have "r\<^sup>2 \<le> d2 + m" using assms(4) unfolding abs_le_iff by linarith
    ultimately show False using \<open>\<not> (r - 1)\<^sup>2 < d2\<close> assms(1) by linarith
  qed
  show "d2 < (r + 1)\<^sup>2"
  proof (rule ccontr)
    assume "\<not> d2 < (r + 1)\<^sup>2"
    moreover have "(r + 1)\<^sup>2 = r\<^sup>2 + 2 * r + 1" by (simp add: power2_eq_square algebra_simps)
    moreover have "d2 - r\<^sup>2 \<le> m" using assms(4) unfolding abs_le_iff by linarith
    ultimately have m: "2 * r + 1 \<le> m" by linarith
    then have "(2 * r + 1) * (2 * r) \<le> m * (m - 1)"
      using assms(1) by (intro mult_mono) simp_all
    moreover have "(2 * r + 1) * (2 * r) = 4 * (r * r) + 2 * r" "m * (m - 1) = m * m - m"
      by (simp_all add: algebra_simps)
    moreover have "m * m \<le> r * r + m"
      using assms(3,4) unfolding power2_eq_square abs_le_iff by linarith
    moreover have "0 \<le> r * r" by simp
    ultimately show False using assms(1) by linarith
  qed
qed

text \<open>C14: For a positive radius every pixel of midpoint_circle lies at distance strictly between r - 1 and r + 1 from the centre.\<close>

theorem midpoint_circle_distance:
  assumes "0 < r"
  shows "\<forall>(u, v) \<in> set (midpoint_circle xc yc r).
    (r - 1)\<^sup>2 < (u - xc)\<^sup>2 + (v - yc)\<^sup>2 \<and> (u - xc)\<^sup>2 + (v - yc)\<^sup>2 < (r + 1)\<^sup>2"
proof (intro ballI, clarify)
  fix u v
  assume "(u, v) \<in> set (midpoint_circle xc yc r)"
  then have near: "\<bar>(u - xc)\<^sup>2 + (v - yc)\<^sup>2 - r\<^sup>2\<bar> \<le> max (\<bar>u - xc\<bar>) (\<bar>v - yc\<bar>)"
    using circle_points_near [of r xc yc] assms by fastforce
  have "(max (\<bar>u - xc\<bar>) (\<bar>v - yc\<bar>))\<^sup>2 \<le> (u - xc)\<^sup>2 + (v - yc)\<^sup>2"
    by (simp add: max_def)
  moreover have "0 \<le> max (\<bar>u - xc\<bar>) (\<bar>v - yc\<bar>)" by (simp add: le_max_iff_disj)
  ultimately show "(r - 1)\<^sup>2 < (u - xc)\<^sup>2 + (v - yc)\<^sup>2 \<and> (u - xc)\<^sup>2 + (v - yc)\<^sup>2 < (r + 1)\<^sup>2"
    using circle_dist_from_near [OF assms _ _ near] by blast
qed


lemma plot_circle_sym:
  assumes "(u, v) \<in> set (plot_circle_points xc yc a b)"
  shows "(2 * xc - u, v) \<in> set (plot_circle_points xc yc a b) \<and>
         (u, 2 * yc - v) \<in> set (plot_circle_points xc yc a b) \<and>
         (xc + (v - yc), yc + (u - xc)) \<in> set (plot_circle_points xc yc a b)"
  using assms unfolding plot_circle_points_def
  by (simp only: set_simps insert_iff empty_iff prod.inject simp_thms)
     (elim disjE conjE; simp add: algebra_simps)

lemma in_plot_concat:
  "(a, b) \<in> set ps \<Longrightarrow> q \<in> set (plot_circle_points xc yc a b) \<Longrightarrow>
   q \<in> set (concat (map (\<lambda>(a, b). plot_circle_points xc yc a b) ps))"
  by force

lemma length_plot_concat:
  "length (concat (map (\<lambda>(a, b). plot_circle_points xc yc a b) ps)) = 8 * length ps"
  by (induction ps) (auto simp: plot_circle_points_def)

lemma circle_octant_length: "length (circle_octant r x y) \<le> nat (y - x)"
proof (induction r x y rule: circle_octant.induct)
  case (1 r x y)
  then show ?case
    by (subst circle_octant.simps) (auto simp: Let_def)
qed

text \<open>C15: The pixel set of midpoint_circle is closed under reflection in the vertical and horizontal axes through the centre and in the diagonal.\<close>

theorem midpoint_circle_symmetric:
  assumes "(u, v) \<in> set (midpoint_circle xc yc r)"
  shows "(2 * xc - u, v) \<in> set (midpoint_circle xc yc r) \<and>
         (u, 2 * yc - v) \<in> set (midpoint_circle xc yc r) \<and>
         (xc + (v - yc), yc + (u - xc)) \<in> set (midpoint_circle xc yc r)"
proof -
  from assms obtain a b where ab: "(a, b) \<in> set ((0, r) # circle_octant r 0 r)"
    "(u, v) \<in> set (plot_circle_points xc yc a b)"
    unfolding midpoint_circle_eq_ref by auto
  from plot_circle_sym [OF ab(2)] show ?thesis
    unfolding midpoint_circle_eq_ref using in_plot_concat [OF ab(1)] by blast
qed

text \<open>C16: midpoint_circle emits a multiple of eight pixels, at least 8 and at most 8 * (r + 1): its loop runs at most r times.\<close>

theorem midpoint_circle_length:
  "length (midpoint_circle xc yc r) mod 8 = 0 \<and> 8 \<le> length (midpoint_circle xc yc r)
   \<and> length (midpoint_circle xc yc r) \<le> 8 * (nat r + 1)"
  using circle_octant_length [of r 0 r]
  unfolding midpoint_circle_eq_ref length_plot_concat by simp

text \<open>For radius 0 midpoint_circle returns the centre eight times.\<close>

theorem midpoint_circle_zero: "midpoint_circle xc yc 0 = replicate 8 (xc, yc)"
  by (simp add: midpoint_circle_def circle_loop.simps plot_circle_points_def numeral_eq_Suc)


text \<open>C19: draw_filled_circle draws full-width rows from xc - r to xc + r for every row, so it emits the corner (xc - r, yc - r), which lies outside the circle.\<close>

theorem draw_filled_circle_square:
  assumes "0 < r"
  shows "(xc - r, yc - r) \<in> set (draw_filled_circle xc yc r) \<and>
         r\<^sup>2 < (xc - r - xc)\<^sup>2 + (yc - r - yc)\<^sup>2"
proof
  show "(xc - r, yc - r) \<in> set (draw_filled_circle xc yc r)"
    using assms by (force simp: draw_filled_circle_def)
  show "r\<^sup>2 < (xc - r - xc)\<^sup>2 + (yc - r - yc)\<^sup>2"
    using assms by (simp add: power2_eq_square)
qed

text \<open>Witnesses at the unit circle around the origin.\<close>

theorem midpoint_circle_distance_witness:
  "(1, 0) \<in> set (midpoint_circle 0 0 1) \<and>
   (1 - 1::int)\<^sup>2 < (1 - 0::int)\<^sup>2 + (0 - 0::int)\<^sup>2 \<and>
   (1 - 0::int)\<^sup>2 + (0 - 0::int)\<^sup>2 < (1 + 1::int)\<^sup>2"
proof -
  have h: "(1, 0) \<in> set (midpoint_circle 0 0 1)" by code_simp
  have "(0::int) < 1" by simp
  from bspec [OF midpoint_circle_distance [OF this, of 0 0] h] h show ?thesis by simp
qed

theorem midpoint_circle_symmetric_witness:
  "(1, 0) \<in> set (midpoint_circle 0 0 1) \<and>
   (2 * 0 - 1, 0) \<in> set (midpoint_circle 0 0 1) \<and>
   (1, 2 * 0 - 0) \<in> set (midpoint_circle 0 0 1) \<and>
   (0 + (0 - 0), 0 + (1 - 0)) \<in> set (midpoint_circle 0 0 (1::int))"
proof -
  have h: "(1, 0) \<in> set (midpoint_circle 0 0 1)" by code_simp
  show ?thesis using midpoint_circle_symmetric [OF h] h by simp
qed

theorem draw_filled_circle_square_witness:
  "(0 - 1, 0 - 1) \<in> set (draw_filled_circle 0 0 1) \<and>
   1\<^sup>2 < (0 - 1 - 0)\<^sup>2 + (0 - 1 - (0::int))\<^sup>2"
  using draw_filled_circle_square [of 1 0 0] by simp

end
