(* ===== verification/MidpointEllipse.thy ===== *)
theory MidpointEllipse
  imports Prelude
begin

text \<open>
  The two-region midpoint ellipse algorithm, \<open>midpoint_ellipse\<close> of
  \<open>src/mid_point_ellipse.py\<close>.  The locals of the Python function are the record
  \<open>ellipse_state\<close>: the current point (\<open>ell_x\<close>, \<open>ell_y\<close>), the slope terms
  \<open>dx = 2 ry\<^sup>2 x\<close> and \<open>dy = 2 rx\<^sup>2 y\<close> (Python ints), the decision parameter
  (\<open>p1\<close> in region 1, \<open>p2\<close> in region 2; a Python float, here a real) and the
  \<open>points\<close> list the loops extend.  \<open>ellipse_init\<close> is the set-up before the first
  loop, \<open>ellipse_region1\<close> the \<open>while dx < dy\<close> loop and \<open>ellipse_region2\<close> the
  \<open>while y >= 0\<close> loop; between them \<open>p2\<close> is recomputed from the boundary point.
  Region 1 has no syntactic termination argument (it stops because \<open>dx\<close> grows
  and \<open>dy\<close> shrinks, which needs the invariant \<open>dx = 2 ry\<^sup>2 x\<close>, \<open>dy = 2 rx\<^sup>2 y\<close>),
  so it is a \<^theory_text>\<open>partial_function (option)\<close>, \<open>None\<close> standing for divergence;
  region 2 lowers y every iteration and is total.  The specification is
  \<open>ell_ref1\<close>/\<open>ell_ref2\<close>: the same walks with each choice made by evaluating the
  implicit function \<open>ell_F\<close> at the midpoint directly.
\<close>

record ellipse_state =
  ell_x :: int
  ell_y :: int
  ell_dx :: int
  ell_dy :: int
  ell_p :: real
  ell_pts :: "point list"

definition plot_ellipse_points :: "int \<Rightarrow> int \<Rightarrow> int \<Rightarrow> int \<Rightarrow> point list" where
  "plot_ellipse_points xc yc x y = [(xc + x, yc + y), (xc - x, yc + y), (xc - x, yc - y), (xc + x, yc - y)]"

definition ellipse_init :: "int \<Rightarrow> int \<Rightarrow> ellipse_state" where
  "ellipse_init rx ry =
     (let rx_sq = rx * rx; ry_sq = ry * ry; x = 0; y = ry
      in \<lparr>ell_x = x, ell_y = y, ell_dx = 2 * ry_sq * x, ell_dy = 2 * rx_sq * y,
          ell_p = of_int ry_sq - of_int (rx_sq * ry) + 0.25 * of_int rx_sq, ell_pts = []\<rparr>)"

definition ellipse_step1 :: "int \<Rightarrow> int \<Rightarrow> int \<Rightarrow> int \<Rightarrow> ellipse_state \<Rightarrow> ellipse_state" where
  "ellipse_step1 xc yc rx_sq ry_sq s =
     (let s1 = s\<lparr>ell_pts := ell_pts s @ plot_ellipse_points xc yc (ell_x s) (ell_y s),
                 ell_x := ell_x s + 1, ell_dx := ell_dx s + 2 * ry_sq\<rparr>
      in if ell_p s < 0
         then s1\<lparr>ell_p := ell_p s + of_int (ell_dx s1) + of_int ry_sq\<rparr>
         else (let s2 = s1\<lparr>ell_y := ell_y s - 1, ell_dy := ell_dy s - 2 * rx_sq\<rparr>
               in s2\<lparr>ell_p := ell_p s + of_int (ell_dx s2) - of_int (ell_dy s2) + of_int ry_sq\<rparr>))"

partial_function (option) ellipse_region1 ::
  "int \<Rightarrow> int \<Rightarrow> int \<Rightarrow> int \<Rightarrow> ellipse_state \<Rightarrow> ellipse_state option" where
  "ellipse_region1 xc yc rx_sq ry_sq s =
     (if ell_dx s < ell_dy s
      then ellipse_region1 xc yc rx_sq ry_sq (ellipse_step1 xc yc rx_sq ry_sq s)
      else Some s)"

definition ellipse_step2 :: "int \<Rightarrow> int \<Rightarrow> int \<Rightarrow> int \<Rightarrow> ellipse_state \<Rightarrow> ellipse_state" where
  "ellipse_step2 xc yc rx_sq ry_sq s =
     (let s1 = s\<lparr>ell_pts := ell_pts s @ plot_ellipse_points xc yc (ell_x s) (ell_y s),
                 ell_y := ell_y s - 1, ell_dy := ell_dy s - 2 * rx_sq\<rparr>
      in if ell_p s > 0
         then s1\<lparr>ell_p := ell_p s + of_int rx_sq - of_int (ell_dy s1)\<rparr>
         else (let s2 = s1\<lparr>ell_x := ell_x s + 1, ell_dx := ell_dx s + 2 * ry_sq\<rparr>
               in s2\<lparr>ell_p := ell_p s + of_int (ell_dx s2) - of_int (ell_dy s2) + of_int rx_sq\<rparr>))"

function ellipse_region2 :: "int \<Rightarrow> int \<Rightarrow> int \<Rightarrow> int \<Rightarrow> ellipse_state \<Rightarrow> ellipse_state" where
  "ellipse_region2 xc yc rx_sq ry_sq s =
     (if ell_y s \<ge> 0
      then ellipse_region2 xc yc rx_sq ry_sq (ellipse_step2 xc yc rx_sq ry_sq s)
      else s)"
  by pat_completeness auto
termination
  by (relation "measure (\<lambda>(xc, yc, rx_sq, ry_sq, s). nat (ell_y s + 1))")
     (auto simp: ellipse_step2_def Let_def)

definition midpoint_ellipse :: "int \<Rightarrow> int \<Rightarrow> int \<Rightarrow> int \<Rightarrow> point list option" where
  "midpoint_ellipse xc yc rx ry =
     (let rx_sq = rx * rx; ry_sq = ry * ry
      in case ellipse_region1 xc yc rx_sq ry_sq (ellipse_init rx ry) of
           None \<Rightarrow> None
         | Some s \<Rightarrow>
             (let x = ell_x s; y = ell_y s;
                  p2 = of_int ry_sq * (of_int x + 0.5) * (of_int x + 0.5)
                       + of_int rx_sq * (of_int y - 1) * (of_int y - 1) - of_int rx_sq * of_int ry_sq
              in Some (ell_pts (ellipse_region2 xc yc rx_sq ry_sq (s\<lparr>ell_p := p2\<rparr>)))))"

text \<open>The specification: the implicit function of the ellipse and the two midpoint walks.\<close>

definition ell_F :: "int \<Rightarrow> int \<Rightarrow> real \<Rightarrow> real \<Rightarrow> real" where
  "ell_F rx ry u v = of_int (ry * ry) * u\<^sup>2 + of_int (rx * rx) * v\<^sup>2 - of_int (rx * rx) * of_int (ry * ry)"

function ell_ref1 :: "int \<Rightarrow> int \<Rightarrow> int \<Rightarrow> int \<Rightarrow> point list \<times> point" where
  "ell_ref1 rx ry x y =
     (if 2 * (ry * ry) * x < 2 * (rx * rx) * y then
        (let y' = (if ell_F rx ry (of_int x + 1) (of_int y - 1/2) < 0 then y else y - 1);
             r = ell_ref1 rx ry (x + 1) y'
         in ((x, y) # fst r, snd r))
      else ([], (x, y)))"
  by pat_completeness auto
termination
proof (relation "measure (\<lambda>(rx, ry, x, y). nat (2 * (rx * rx) * y - 2 * (ry * ry) * x))")
  fix rx ry x y y' :: int
  assume c: "2 * (ry * ry) * x < 2 * (rx * rx) * y"
    and y': "y' = (if ell_F rx ry (of_int x + 1) (of_int y - 1/2) < 0 then y else y - 1)"
  show "((rx, ry, x + 1, y'), rx, ry, x, y)
          \<in> measure (\<lambda>(rx, ry, x, y). nat (2 * (rx * rx) * y - 2 * (ry * ry) * x))"
  proof (cases "ell_F rx ry (of_int x + 1) (of_int y - 1/2) < 0")
    case True
    have "ry \<noteq> 0"
    proof
      assume "ry = 0"
      then have "0 \<le> ell_F rx ry (of_int x + 1) (of_int y - 1/2)"
        by (simp add: ell_F_def mult_nonneg_nonneg)
      with True show False by simp
    qed
    then have "0 < ry * ry" by (auto simp: zero_less_mult_iff linorder_neq_iff)
    moreover have "2 * (rx * rx) * y' - 2 * (ry * ry) * (x + 1)
                     = 2 * (rx * rx) * y - 2 * (ry * ry) * x - 2 * (ry * ry)"
      using True y' by (simp add: algebra_simps)
    ultimately show ?thesis using c by simp
  next
    case False
    have "0 < rx * rx + ry * ry"
    proof (rule ccontr)
      assume "\<not> 0 < rx * rx + ry * ry"
      then have "rx = 0" "ry = 0" by (simp_all add: not_less sum_squares_le_zero_iff)
      with c show False by simp
    qed
    moreover have "2 * (rx * rx) * y' - 2 * (ry * ry) * (x + 1)
                     = 2 * (rx * rx) * y - 2 * (ry * ry) * x - 2 * (rx * rx + ry * ry)"
      using False y' by (simp add: right_diff_distrib distrib_left)
    ultimately show ?thesis using c by simp
  qed
qed simp

function ell_ref2 :: "int \<Rightarrow> int \<Rightarrow> int \<Rightarrow> int \<Rightarrow> point list" where
  "ell_ref2 rx ry x y =
     (if y \<ge> 0
      then (x, y) # ell_ref2 rx ry (if ell_F rx ry (of_int x + 1/2) (of_int y - 1) \<le> 0 then x + 1 else x) (y - 1)
      else [])"
  by pat_completeness auto
termination
  by (relation "measure (\<lambda>(rx, ry, x, y). nat (y + 1))") auto

text \<open>
  Loop invariants: the integer slope terms track the point, and the decision parameter is
  the implicit function at the midpoint the next choice tests.
\<close>

definition ellipse_inv1 :: "int \<Rightarrow> int \<Rightarrow> ellipse_state \<Rightarrow> bool" where
  "ellipse_inv1 rx ry s \<longleftrightarrow>
     ell_dx s = 2 * (ry * ry) * ell_x s \<and> ell_dy s = 2 * (rx * rx) * ell_y s
     \<and> ell_p s = ell_F rx ry (of_int (ell_x s) + 1) (of_int (ell_y s) - 1/2)"

definition ellipse_inv2 :: "int \<Rightarrow> int \<Rightarrow> ellipse_state \<Rightarrow> bool" where
  "ellipse_inv2 rx ry s \<longleftrightarrow>
     ell_dx s = 2 * (ry * ry) * ell_x s \<and> ell_dy s = 2 * (rx * rx) * ell_y s
     \<and> ell_p s = ell_F rx ry (of_int (ell_x s) + 1/2) (of_int (ell_y s) - 1)"

definition ell_best :: "int \<Rightarrow> int \<Rightarrow> int \<Rightarrow> int \<Rightarrow> bool" where
  "ell_best rx ry a b \<longleftrightarrow> ell_F rx ry (of_int a) (of_int b - 1/2) \<le> 0 \<and> 0 \<le> ell_F rx ry (of_int a) (of_int b + 1/2)"

definition ell_plot_all :: "int \<Rightarrow> int \<Rightarrow> point list \<Rightarrow> point list" where
  "ell_plot_all xc yc ps = concat (map (\<lambda>(a, b). plot_ellipse_points xc yc a b) ps)"

definition ell_walk :: "int \<Rightarrow> int \<Rightarrow> int \<Rightarrow> int \<Rightarrow> point list" where
  "ell_walk rx ry x y = (let r = ell_ref1 rx ry x y in fst r @ ell_ref2 rx ry (fst (snd r)) (snd (snd r)))"

declare ellipse_region1.simps [code]
declare ell_ref1.simps [simp del] ell_ref2.simps [simp del] ellipse_region2.simps [simp del]

subsection \<open>Loop steps, invariants and refinement of the loops\<close>

lemma ell_plot_all_simps [simp]:
  "ell_plot_all xc yc [] = []"
  "ell_plot_all xc yc ((a, b) # ps) = plot_ellipse_points xc yc a b @ ell_plot_all xc yc ps"
  "ell_plot_all xc yc (ps @ qs) = ell_plot_all xc yc ps @ ell_plot_all xc yc qs"
  by (simp_all add: ell_plot_all_def)

lemma in_ell_plot_all:
  "p \<in> set (ell_plot_all xc yc ps) \<longleftrightarrow> (\<exists>(a, b) \<in> set ps. p \<in> set (plot_ellipse_points xc yc a b))"
  by (auto simp: ell_plot_all_def)

lemma ellipse_step1_fields:
  "ell_x (ellipse_step1 xc yc rx_sq ry_sq s) = ell_x s + 1"
  "ell_y (ellipse_step1 xc yc rx_sq ry_sq s) = (if ell_p s < 0 then ell_y s else ell_y s - 1)"
  "ell_dx (ellipse_step1 xc yc rx_sq ry_sq s) = ell_dx s + 2 * ry_sq"
  "ell_dy (ellipse_step1 xc yc rx_sq ry_sq s) = (if ell_p s < 0 then ell_dy s else ell_dy s - 2 * rx_sq)"
  "ell_pts (ellipse_step1 xc yc rx_sq ry_sq s) = ell_pts s @ plot_ellipse_points xc yc (ell_x s) (ell_y s)"
  "ell_p (ellipse_step1 xc yc rx_sq ry_sq s) =
     (if ell_p s < 0 then ell_p s + of_int (ell_dx s + 2 * ry_sq) + of_int ry_sq
      else ell_p s + of_int (ell_dx s + 2 * ry_sq) - of_int (ell_dy s - 2 * rx_sq) + of_int ry_sq)"
  by (simp_all add: ellipse_step1_def Let_def)

lemma ellipse_step2_fields:
  "ell_x (ellipse_step2 xc yc rx_sq ry_sq s) = (if 0 < ell_p s then ell_x s else ell_x s + 1)"
  "ell_y (ellipse_step2 xc yc rx_sq ry_sq s) = ell_y s - 1"
  "ell_dx (ellipse_step2 xc yc rx_sq ry_sq s) = (if 0 < ell_p s then ell_dx s else ell_dx s + 2 * ry_sq)"
  "ell_dy (ellipse_step2 xc yc rx_sq ry_sq s) = ell_dy s - 2 * rx_sq"
  "ell_pts (ellipse_step2 xc yc rx_sq ry_sq s) = ell_pts s @ plot_ellipse_points xc yc (ell_x s) (ell_y s)"
  "ell_p (ellipse_step2 xc yc rx_sq ry_sq s) =
     (if 0 < ell_p s then ell_p s + of_int rx_sq - of_int (ell_dy s - 2 * rx_sq)
      else ell_p s + of_int (ell_dx s + 2 * ry_sq) - of_int (ell_dy s - 2 * rx_sq) + of_int rx_sq)"
  by (simp_all add: ellipse_step2_def Let_def)

lemma ell_F_shift:
  "ell_F rx ry (u + a) (v + b) =
     ell_F rx ry u v + of_int (ry * ry) * (2 * u * a + a * a) + of_int (rx * rx) * (2 * v * b + b * b)"
  by (simp add: ell_F_def power2_eq_square algebra_simps)

lemma ellipse_step1_inv:
  assumes "ellipse_inv1 rx ry s"
  shows "ellipse_inv1 rx ry (ellipse_step1 xc yc (rx * rx) (ry * ry) s)"
proof (cases "ell_p s < 0")
  case True
  have "ell_F rx ry ((of_int (ell_x s) + 1) + 1) ((of_int (ell_y s) - 1/2) + 0)
        = ell_p s + of_int (ell_dx s + 2 * (ry * ry)) + of_int (ry * ry)"
    using assms unfolding ellipse_inv1_def ell_F_shift by (simp add: algebra_simps)
  with True assms show ?thesis
    by (simp add: ellipse_inv1_def ellipse_step1_fields algebra_simps)
next
  case False
  have "ell_F rx ry ((of_int (ell_x s) + 1) + 1) ((of_int (ell_y s) - 1/2) + (- 1))
        = ell_p s + of_int (ell_dx s + 2 * (ry * ry)) - of_int (ell_dy s - 2 * (rx * rx)) + of_int (ry * ry)"
    using assms unfolding ellipse_inv1_def ell_F_shift by (simp add: algebra_simps)
  with False assms show ?thesis
    by (simp add: ellipse_inv1_def ellipse_step1_fields algebra_simps)
qed

lemma ellipse_step2_inv:
  assumes "ellipse_inv2 rx ry s"
  shows "ellipse_inv2 rx ry (ellipse_step2 xc yc (rx * rx) (ry * ry) s)"
proof (cases "0 < ell_p s")
  case True
  have "ell_F rx ry ((of_int (ell_x s) + 1/2) + 0) ((of_int (ell_y s) - 1) + (- 1))
        = ell_p s + of_int (rx * rx) - of_int (ell_dy s - 2 * (rx * rx))"
    using assms unfolding ellipse_inv2_def ell_F_shift by (simp add: algebra_simps)
  with True assms show ?thesis
    by (simp add: ellipse_inv2_def ellipse_step2_fields algebra_simps)
next
  case False
  have "ell_F rx ry ((of_int (ell_x s) + 1/2) + 1) ((of_int (ell_y s) - 1) + (- 1))
        = ell_p s + of_int (ell_dx s + 2 * (ry * ry)) - of_int (ell_dy s - 2 * (rx * rx)) + of_int (rx * rx)"
    using assms unfolding ellipse_inv2_def ell_F_shift by (simp add: algebra_simps)
  with False assms show ?thesis
    by (simp add: ellipse_inv2_def ellipse_step2_fields algebra_simps)
qed

lemma ellipse_region1_ref:
  "ellipse_inv1 rx ry s \<Longrightarrow> ell_x s = x \<Longrightarrow> ell_y s = y \<Longrightarrow>
   \<exists>s'. ellipse_region1 xc yc (rx * rx) (ry * ry) s = Some s'
      \<and> ell_pts s' = ell_pts s @ ell_plot_all xc yc (fst (ell_ref1 rx ry x y))
      \<and> (ell_x s', ell_y s') = snd (ell_ref1 rx ry x y) \<and> ellipse_inv1 rx ry s'"
proof (induction rx ry x y arbitrary: s rule: ell_ref1.induct)
  case (1 rx ry x y)
  show ?case
  proof (cases "2 * (ry * ry) * x < 2 * (rx * rx) * y")
    case False
    have "ell_ref1 rx ry x y = ([], (x, y))"
      using False by (subst ell_ref1.simps) simp
    with False show ?thesis using "1.prems"
      by (subst ellipse_region1.simps) (simp add: ellipse_inv1_def)
  next
    case True
    define y' where "y' = (if ell_F rx ry (of_int x + 1) (of_int y - 1/2) < 0 then y else y - 1)"
    define s1 where "s1 = ellipse_step1 xc yc (rx * rx) (ry * ry) s"
    have s1: "ellipse_inv1 rx ry s1" "ell_x s1 = x + 1" "ell_y s1 = y'"
      "ell_pts s1 = ell_pts s @ plot_ellipse_points xc yc x y"
      using "1.prems" ellipse_step1_inv [OF "1.prems"(1)]
      by (simp_all add: s1_def y'_def ellipse_step1_fields ellipse_inv1_def)
    have step: "ellipse_region1 xc yc (rx * rx) (ry * ry) s = ellipse_region1 xc yc (rx * rx) (ry * ry) s1"
      using True "1.prems" by (subst ellipse_region1.simps) (simp add: s1_def ellipse_inv1_def)
    have ref: "ell_ref1 rx ry x y = ((x, y) # fst (ell_ref1 rx ry (x + 1) y'), snd (ell_ref1 rx ry (x + 1) y'))"
      using True by (subst ell_ref1.simps) (simp add: y'_def Let_def)
    show ?thesis
      using "1.IH" [OF True y'_def s1(1-3)] step ref s1(4) by auto
  qed
qed

lemma ellipse_region2_ref:
  "ellipse_inv2 rx ry s \<Longrightarrow> ell_x s = x \<Longrightarrow> ell_y s = y \<Longrightarrow>
   ell_pts (ellipse_region2 xc yc (rx * rx) (ry * ry) s) = ell_pts s @ ell_plot_all xc yc (ell_ref2 rx ry x y)"
proof (induction rx ry x y arbitrary: s rule: ell_ref2.induct)
  case (1 rx ry x y)
  show ?case
  proof (cases "0 \<le> y")
    case False
    with "1.prems" show ?thesis
      by (subst ellipse_region2.simps, subst ell_ref2.simps) simp
  next
    case True
    define x' where "x' = (if ell_F rx ry (of_int x + 1/2) (of_int y - 1) \<le> 0 then x + 1 else x)"
    define s1 where "s1 = ellipse_step2 xc yc (rx * rx) (ry * ry) s"
    have s1: "ellipse_inv2 rx ry s1" "ell_x s1 = x'" "ell_y s1 = y - 1"
      "ell_pts s1 = ell_pts s @ plot_ellipse_points xc yc x y"
      using "1.prems" ellipse_step2_inv [OF "1.prems"(1)]
      by (auto simp: s1_def x'_def ellipse_step2_fields ellipse_inv2_def)
    have "ell_ref2 rx ry x y = (x, y) # ell_ref2 rx ry x' (y - 1)"
      using True by (subst ell_ref2.simps) (simp add: x'_def)
    moreover have "ellipse_region2 xc yc (rx * rx) (ry * ry) s = ellipse_region2 xc yc (rx * rx) (ry * ry) s1"
      using True "1.prems" by (subst ellipse_region2.simps) (simp add: s1_def)
    ultimately show ?thesis
      using "1.IH" [OF True, folded x'_def, OF s1(1-3)] s1(4) by simp
  qed
qed

lemma ell_F_mono_u:
  assumes "0 \<le> u" "u \<le> u'"
  shows "ell_F rx ry u v \<le> ell_F rx ry u' v"
proof -
  have "u\<^sup>2 \<le> u'\<^sup>2" using assms by (simp add: power_mono)
  then show ?thesis unfolding ell_F_def by (simp add: mult_left_mono)
qed

lemma ell_ref1_best:
  "0 \<le> x \<Longrightarrow> (2 * (ry * ry) * x < 2 * (rx * rx) * y \<Longrightarrow> ell_best rx ry x y) \<Longrightarrow>
   \<forall>(a, b) \<in> set (fst (ell_ref1 rx ry x y)). ell_best rx ry a b \<and> 0 \<le> a \<and> 0 < b"
proof (induction rx ry x y rule: ell_ref1.induct)
  case (1 rx ry x y)
  show ?case
  proof (cases "2 * (ry * ry) * x < 2 * (rx * rx) * y")
    case False
    then show ?thesis by (subst ell_ref1.simps) simp
  next
    case True
    define y' where "y' = (if ell_F rx ry (of_int x + 1) (of_int y - 1/2) < 0 then y else y - 1)"
    have best: "ell_best rx ry x y" using "1.prems"(2) True .
    have ypos: "0 < y"
    proof (rule ccontr)
      assume "\<not> 0 < y"
      then have "2 * (rx * rx) * y \<le> 0" by (simp add: mult_nonneg_nonpos)
      moreover have "0 \<le> 2 * (ry * ry) * x" using "1.prems"(1) by simp
      ultimately show False using True by linarith
    qed
    have next_best: "ell_best rx ry (x + 1) y'" if c': "2 * (ry * ry) * (x + 1) < 2 * (rx * rx) * y'"
    proof (cases "ell_F rx ry (of_int x + 1) (of_int y - 1/2) < 0")
      case True
      have "ell_F rx ry (of_int x) (of_int y + 1/2) \<le> ell_F rx ry (of_int x + 1) (of_int y + 1/2)"
        using "1.prems"(1) by (intro ell_F_mono_u) simp_all
      with True best show ?thesis by (simp add: y'_def ell_best_def)
    next
      case False
      have "(ry * ry) * (x + 1) < (rx * rx) * (y - 1)"
        using c' False by (simp add: y'_def)
      then have "real_of_int ((ry * ry) * (x + 1)) < real_of_int ((rx * rx) * (y - 1))"
        by (simp only: of_int_less_iff)
      then have c: "real_of_int (ry * ry) * (of_int x + 1) < of_int (rx * rx) * (of_int y - 1)"
        by simp
      have sq: "0 \<le> real_of_int ry * real_of_int ry" by simp
      have "ell_F rx ry ((of_int x) + 1) ((of_int y - 1/2) + (- 1))
            = ell_F rx ry (of_int x) (of_int y - 1/2) + of_int (ry * ry) * (2 * of_int x + 1)
              - of_int (rx * rx) * (2 * of_int y - 2)"
        unfolding ell_F_shift by (simp add: algebra_simps)
      moreover have "of_int (ry * ry) * (2 * of_int x + 1) - of_int (rx * rx) * (2 * of_int y - 2) \<le> (0::real)"
        using c by (simp add: algebra_simps) (insert sq, linarith)
      ultimately have "ell_F rx ry (of_int x + 1) (of_int y - 3/2) \<le> 0"
        using best by (simp add: ell_best_def algebra_simps)
      with False show ?thesis by (simp add: y'_def ell_best_def algebra_simps)
    qed
    have IH: "\<forall>(a, b) \<in> set (fst (ell_ref1 rx ry (x + 1) y')). ell_best rx ry a b \<and> 0 \<le> a \<and> 0 < b"
      using "1.IH" [OF True y'_def] "1.prems"(1) next_best by simp
    have "ell_ref1 rx ry x y = ((x, y) # fst (ell_ref1 rx ry (x + 1) y'), snd (ell_ref1 rx ry (x + 1) y'))"
      using True by (subst ell_ref1.simps) (simp add: y'_def Let_def)
    then show ?thesis using IH best ypos "1.prems"(1) by simp
  qed
qed


subsection \<open>The whole rasteriser against the specification walk\<close>

lemma ellipse_init_inv1: "ellipse_inv1 rx ry (ellipse_init rx ry)"
proof -
  have "of_int (ry * ry) - of_int (rx * rx * ry) + 0.25 * of_int (rx * rx) = ell_F rx ry (of_int 0 + 1) (of_int ry - 1/2)"
    by (simp add: ell_F_def power2_eq_square algebra_simps)
  then show ?thesis by (simp add: ellipse_inv1_def ellipse_init_def)
qed

lemma ellipse_init_fields [simp]:
  "ell_x (ellipse_init rx ry) = 0" "ell_y (ellipse_init rx ry) = ry" "ell_pts (ellipse_init rx ry) = []"
  by (simp_all add: ellipse_init_def)

lemma ellipse_p2_inv2:
  assumes "ellipse_inv1 rx ry s"
  shows "ellipse_inv2 rx ry (s\<lparr>ell_p := of_int (ry * ry) * (of_int (ell_x s) + 0.5) * (of_int (ell_x s) + 0.5)
           + of_int (rx * rx) * (of_int (ell_y s) - 1) * (of_int (ell_y s) - 1) - of_int (rx * rx) * of_int (ry * ry)\<rparr>)"
proof -
  have e: "of_int (ry * ry) * (of_int (ell_x s) + 0.5) * (of_int (ell_x s) + 0.5)
          + of_int (rx * rx) * (of_int (ell_y s) - 1) * (of_int (ell_y s) - 1) - of_int (rx * rx) * of_int (ry * ry)
        = ell_F rx ry (of_int (ell_x s) + 1/2) (of_int (ell_y s) - 1)"
    by (simp add: ell_F_def power2_eq_square)
  show ?thesis using assms by (simp only: e) (simp add: ellipse_inv1_def ellipse_inv2_def)
qed

text \<open>The body of \<open>midpoint_ellipse\<close> from any state satisfying the region-1 invariant.\<close>

lemma ellipse_regions_run:
  assumes "ellipse_inv1 rx ry s"
  obtains s' where "ellipse_region1 xc yc (rx * rx) (ry * ry) s = Some s'"
    "ell_pts (ellipse_region2 xc yc (rx * rx) (ry * ry)
       (s'\<lparr>ell_p := of_int (ry * ry) * (of_int (ell_x s') + 0.5) * (of_int (ell_x s') + 0.5)
          + of_int (rx * rx) * (of_int (ell_y s') - 1) * (of_int (ell_y s') - 1) - of_int (rx * rx) * of_int (ry * ry)\<rparr>))
     = ell_pts s @ ell_plot_all xc yc (ell_walk rx ry (ell_x s) (ell_y s))"
proof -
  obtain s' where s': "ellipse_region1 xc yc (rx * rx) (ry * ry) s = Some s'"
    "ell_pts s' = ell_pts s @ ell_plot_all xc yc (fst (ell_ref1 rx ry (ell_x s) (ell_y s)))"
    "(ell_x s', ell_y s') = snd (ell_ref1 rx ry (ell_x s) (ell_y s))" "ellipse_inv1 rx ry s'"
    using ellipse_region1_ref [OF assms refl refl, of xc yc] by blast
  have r2: "ell_pts (ellipse_region2 xc yc (rx * rx) (ry * ry)
       (s'\<lparr>ell_p := of_int (ry * ry) * (of_int (ell_x s') + 0.5) * (of_int (ell_x s') + 0.5)
          + of_int (rx * rx) * (of_int (ell_y s') - 1) * (of_int (ell_y s') - 1) - of_int (rx * rx) * of_int (ry * ry)\<rparr>))
     = ell_pts s' @ ell_plot_all xc yc (ell_ref2 rx ry (ell_x s') (ell_y s'))"
    using ellipse_region2_ref [OF ellipse_p2_inv2 [OF s'(4)] refl refl, of xc yc] by simp
  show ?thesis
    by (rule that [OF s'(1)]) (simp only: r2, simp add: s'(2) ell_walk_def Let_def s'(3) [symmetric])
qed

lemma midpoint_ellipse_walk_eq:
  "midpoint_ellipse xc yc rx ry = Some (ell_plot_all xc yc (ell_walk rx ry 0 ry))"
proof -
  obtain s' where a: "ellipse_region1 xc yc (rx * rx) (ry * ry) (ellipse_init rx ry) = Some s'"
    and b: "ell_pts (ellipse_region2 xc yc (rx * rx) (ry * ry)
       (s'\<lparr>ell_p := of_int (ry * ry) * (of_int (ell_x s') + 0.5) * (of_int (ell_x s') + 0.5)
          + of_int (rx * rx) * (of_int (ell_y s') - 1) * (of_int (ell_y s') - 1) - of_int (rx * rx) * of_int (ry * ry)\<rparr>))
     = ell_pts (ellipse_init rx ry) @ ell_plot_all xc yc (ell_walk rx ry (ell_x (ellipse_init rx ry)) (ell_y (ellipse_init rx ry)))"
    by (rule ellipse_regions_run [OF ellipse_init_inv1])
  show ?thesis
    unfolding midpoint_ellipse_def Let_def by (simp only: a b option.case ellipse_init_fields append_Nil)
qed

lemma ell_ref2_last:
  "0 \<le> y \<Longrightarrow> ell_ref2 rx ry x y \<noteq> [] \<and> hd (ell_ref2 rx ry x y) = (x, y) \<and> snd (last (ell_ref2 rx ry x y)) = 0"
proof (induction rx ry x y rule: ell_ref2.induct)
  case (1 rx ry x y)
  define x' where "x' = (if ell_F rx ry (of_int x + 1/2) (of_int y - 1) \<le> 0 then x + 1 else x)"
  have eq: "ell_ref2 rx ry x y = (x, y) # ell_ref2 rx ry x' (y - 1)"
    using "1.prems" by (subst ell_ref2.simps) (simp add: x'_def)
  show ?case
  proof (cases "y = 0")
    case True
    have "ell_ref2 rx ry x' (y - 1) = []" using True by (subst ell_ref2.simps) simp
    with eq True show ?thesis by simp
  next
    case False
    then have "0 \<le> y - 1" using "1.prems" by simp
    with "1.IH" [OF "1.prems", folded x'_def] eq show ?thesis by simp
  qed
qed

lemma ell_ref1_end:
  "0 \<le> x \<Longrightarrow> 0 \<le> y \<Longrightarrow>
   0 \<le> snd (snd (ell_ref1 rx ry x y)) \<and> (fst (ell_ref1 rx ry x y) = [] \<longrightarrow> snd (ell_ref1 rx ry x y) = (x, y))
   \<and> (fst (ell_ref1 rx ry x y) \<noteq> [] \<longrightarrow> hd (fst (ell_ref1 rx ry x y)) = (x, y))"
proof (induction rx ry x y rule: ell_ref1.induct)
  case (1 rx ry x y)
  show ?case
  proof (cases "2 * (ry * ry) * x < 2 * (rx * rx) * y")
    case False
    then have "ell_ref1 rx ry x y = ([], (x, y))" by (subst ell_ref1.simps) simp
    with "1.prems" show ?thesis by simp
  next
    case True
    define y' where "y' = (if ell_F rx ry (of_int x + 1) (of_int y - 1/2) < 0 then y else y - 1)"
    have "0 < y"
    proof (rule ccontr)
      assume "\<not> 0 < y"
      then have "2 * (rx * rx) * y \<le> 0" by (simp add: mult_nonneg_nonpos)
      moreover have "0 \<le> 2 * (ry * ry) * x" using "1.prems"(1) by simp
      ultimately show False using True by linarith
    qed
    then have "0 \<le> y'" by (simp add: y'_def)
    then have "0 \<le> snd (snd (ell_ref1 rx ry (x + 1) y'))"
      using "1.IH" [OF True y'_def] "1.prems"(1) by simp
    moreover have "ell_ref1 rx ry x y = ((x, y) # fst (ell_ref1 rx ry (x + 1) y'), snd (ell_ref1 rx ry (x + 1) y'))"
      using True by (subst ell_ref1.simps) (simp add: y'_def Let_def)
    ultimately show ?thesis by simp
  qed
qed

lemma ell_walk_ends:
  assumes "0 \<le> x" "0 \<le> y"
  shows "ell_walk rx ry x y \<noteq> [] \<and> hd (ell_walk rx ry x y) = (x, y) \<and> snd (last (ell_walk rx ry x y)) = 0"
proof -
  obtain ps e where r: "ell_ref1 rx ry x y = (ps, e)" by (cases "ell_ref1 rx ry x y") simp
  have "0 \<le> snd e" "ps = [] \<longrightarrow> e = (x, y)" "ps \<noteq> [] \<longrightarrow> hd ps = (x, y)"
    using ell_ref1_end [OF assms, of rx ry] r by simp_all
  moreover have "ell_ref2 rx ry (fst e) (snd e) \<noteq> [] \<and> hd (ell_ref2 rx ry (fst e) (snd e)) = e
                 \<and> snd (last (ell_ref2 rx ry (fst e) (snd e))) = 0"
    using ell_ref2_last [OF \<open>0 \<le> snd e\<close>, of rx ry "fst e"] by simp
  ultimately show ?thesis by (cases "ps = []") (auto simp: ell_walk_def r)
qed

lemma ell_plot_all_ends:
  assumes "ws \<noteq> []"
  shows "hd (ell_plot_all xc yc ws) = (xc + fst (hd ws), yc + snd (hd ws))
         \<and> last (ell_plot_all xc yc ws) = (xc + fst (last ws), yc - snd (last ws))"
proof -
  have "hd (ell_plot_all xc yc ws) = (xc + fst (hd ws), yc + snd (hd ws))"
    using assms by (cases ws) (auto simp: plot_ellipse_points_def)
  moreover have "last (ell_plot_all xc yc ws) = (xc + fst (last ws), yc - snd (last ws))"
    using assms by (cases ws rule: rev_cases) (auto simp: plot_ellipse_points_def)
  ultimately show ?thesis ..
qed

lemma plot_ellipse_reflect:
  "(u, v) \<in> set (plot_ellipse_points xc yc a b) \<Longrightarrow>
   (2 * xc - u, v) \<in> set (plot_ellipse_points xc yc a b) \<and> (u, 2 * yc - v) \<in> set (plot_ellipse_points xc yc a b)"
  by (auto simp: plot_ellipse_points_def)

lemma plot_ellipse_abs:
  "0 \<le> a \<Longrightarrow> 0 \<le> b \<Longrightarrow> (u, v) \<in> set (plot_ellipse_points xc yc a b) \<Longrightarrow> \<bar>u - xc\<bar> = a \<and> \<bar>v - yc\<bar> = b"
  by (auto simp: plot_ellipse_points_def)

lemma ell_best_start:
  assumes "2 * (ry * ry) * 0 < 2 * (rx * rx) * ry"
  shows "ell_best rx ry 0 ry"
proof -
  have ry: "1 \<le> ry"
  proof (rule ccontr)
    assume "\<not> 1 \<le> ry"
    then have "2 * (rx * rx) * ry \<le> 0" by (simp add: mult_nonneg_nonpos)
    with assms show False by simp
  qed
  have "ell_F rx ry (of_int 0) (of_int ry - 1/2) = of_int (rx * rx) * (1/4 - of_int ry)"
    "ell_F rx ry (of_int 0) (of_int ry + 1/2) = of_int (rx * rx) * (1/4 + of_int ry)"
    by (simp_all add: ell_F_def power2_eq_square algebra_simps)
  moreover have "of_int (rx * rx) * (1/4 - of_int ry) \<le> (0::real)"
    using ry by (intro mult_nonneg_nonpos) simp_all
  moreover have "0 \<le> of_int (rx * rx) * (1/4 + of_int ry :: real)"
    using ry by (intro mult_nonneg_nonneg) simp_all
  ultimately show ?thesis by (simp add: ell_best_def)
qed

subsection \<open>Properties of the ellipse rasteriser\<close>

text \<open>C20: refinement.  The incremental decision parameters of both regions, with
  \<open>p2\<close> recomputed at the region switch, make exactly the choices of the direct midpoint
  tests: the output is the 4-way reflection of the specification walk
  \<open>ell_walk rx ry 0 ry\<close> (region 1 by \<open>ell_ref1\<close>, then region 2 by \<open>ell_ref2\<close>).\<close>

theorem midpoint_ellipse_ref:
  "midpoint_ellipse xc yc rx ry = Some (concat (map (\<lambda>(a, b). plot_ellipse_points xc yc a b) (ell_walk rx ry 0 ry)))"
  using midpoint_ellipse_walk_eq [of xc yc rx ry] by (simp add: ell_plot_all_def)

text \<open>C21: termination.  The region-1 loop \<open>while dx < dy\<close>, which has no syntactic
  measure, returns for every pair of integer radii.\<close>

theorem ellipse_region1_terminates:
  "\<exists>s. ellipse_region1 xc yc (rx * rx) (ry * ry) (ellipse_init rx ry) = Some s"
  using ellipse_region1_ref [OF ellipse_init_inv1 refl refl, where xc = xc and yc = yc] by blast

text \<open>C22: every pixel emitted by region 1 is the best pixel of its column: the
  ellipse boundary crosses the column between the midpoints below and above it
  (\<open>F(|u - xc|, |v - yc| - 1/2) \<le> 0 \<le> F(|u - xc|, |v - yc| + 1/2)\<close>).\<close>

theorem ellipse_region1_best_pixel:
  assumes "ellipse_region1 xc yc (rx * rx) (ry * ry) (ellipse_init rx ry) = Some s"
  shows "\<forall>(u, v) \<in> set (ell_pts s). ell_best rx ry \<bar>u - xc\<bar> \<bar>v - yc\<bar>"
proof -
  obtain s' where "ellipse_region1 xc yc (rx * rx) (ry * ry) (ellipse_init rx ry) = Some s'"
    and pts: "ell_pts s' = ell_plot_all xc yc (fst (ell_ref1 rx ry 0 ry))"
    using ellipse_region1_ref [OF ellipse_init_inv1 refl refl, where xc = xc and yc = yc] by auto
  with assms have "s = s'" by simp
  have walk: "\<forall>(a, b) \<in> set (fst (ell_ref1 rx ry 0 ry)). ell_best rx ry a b \<and> 0 \<le> a \<and> 0 < b"
    by (rule ell_ref1_best) (simp_all add: ell_best_start)
  have "ell_best rx ry \<bar>u - xc\<bar> \<bar>v - yc\<bar>" if uv: "(u, v) \<in> set (ell_pts s)" for u v
  proof -
    obtain a b where ab: "(a, b) \<in> set (fst (ell_ref1 rx ry 0 ry))"
      and p: "(u, v) \<in> set (plot_ellipse_points xc yc a b)"
      using uv unfolding \<open>s = s'\<close> pts in_ell_plot_all by blast
    with walk have "ell_best rx ry a b" "0 \<le> a" "0 < b" by auto
    with p show ?thesis using plot_ellipse_abs [of a b u v xc yc] by simp
  qed
  then show ?thesis by blast
qed

text \<open>C23: a flat ellipse (\<open>ry = 0\<close>) of any width is drawn as the centre pixel,
  four times: region 1 never runs (\<open>dx = dy = 0\<close>) and region 2 runs once at \<open>y = 0\<close>.\<close>

theorem midpoint_ellipse_flat:
  "midpoint_ellipse xc yc rx 0 = Some (replicate 4 (xc, yc))"
proof -
  have "ell_ref1 rx 0 0 0 = ([], (0, 0))" by (subst ell_ref1.simps) simp
  moreover have "ell_ref2 rx 0 0 0 = [(0, 0)]"
    by (subst ell_ref2.simps) (simp add: ell_ref2.simps [of _ _ _ "- 1"])
  ultimately have "ell_walk rx 0 0 0 = [(0, 0)]" by (simp add: ell_walk_def)
  then show ?thesis
    using midpoint_ellipse_walk_eq [of xc yc rx 0] by (simp add: plot_ellipse_points_def numeral_eq_Suc)
qed


text \<open>The output is symmetric under reflection across both axes through the centre.\<close>

theorem midpoint_ellipse_symmetric:
  assumes "midpoint_ellipse xc yc rx ry = Some pts" "(u, v) \<in> set pts"
  shows "(2 * xc - u, v) \<in> set pts \<and> (u, 2 * yc - v) \<in> set pts"
proof -
  have pe: "pts = ell_plot_all xc yc (ell_walk rx ry 0 ry)"
    using assms(1) midpoint_ellipse_walk_eq [of xc yc rx ry] by simp
  with assms(2) have "(u, v) \<in> set (ell_plot_all xc yc (ell_walk rx ry 0 ry))" by simp
  then obtain a b where ab: "(a, b) \<in> set (ell_walk rx ry 0 ry)"
    and p: "(u, v) \<in> set (plot_ellipse_points xc yc a b)"
    unfolding in_ell_plot_all by blast
  from plot_ellipse_reflect [OF p] ab show ?thesis
    unfolding pe in_ell_plot_all by blast
qed

text \<open>The traversal starts at the top vertex \<open>(xc, yc + ry)\<close> and ends on the
  horizontal axis through the centre (region 2 runs down to \<open>y = 0\<close>).\<close>

theorem midpoint_ellipse_ends:
  assumes "0 \<le> ry" "midpoint_ellipse xc yc rx ry = Some pts"
  shows "pts \<noteq> [] \<and> hd pts = (xc, yc + ry) \<and> snd (last pts) = yc"
proof -
  have w: "ell_walk rx ry 0 ry \<noteq> [] \<and> hd (ell_walk rx ry 0 ry) = (0, ry) \<and> snd (last (ell_walk rx ry 0 ry)) = 0"
    using ell_walk_ends [of 0 ry rx ry] assms(1) by simp
  have "pts = ell_plot_all xc yc (ell_walk rx ry 0 ry)"
    using assms(2) midpoint_ellipse_walk_eq [of xc yc rx ry] by simp
  moreover have "ell_plot_all xc yc (ell_walk rx ry 0 ry) \<noteq> []"
    using w by (cases "ell_walk rx ry 0 ry") (auto simp: plot_ellipse_points_def)
  ultimately show ?thesis using w ell_plot_all_ends [of "ell_walk rx ry 0 ry" xc yc] by simp
qed

theorem ellipse_region1_best_pixel_witness:
  "ellipse_region1 0 0 (2 * 2) (1 * 1) (ellipse_init 2 1) =
     Some \<lparr>ell_x = 2, ell_y = 0, ell_dx = 4, ell_dy = 0, ell_p = 6,
           ell_pts = [(0, 1), (0, 1), (0, - 1), (0, - 1), (1, 1), (- 1, 1), (- 1, - 1), (1, - 1)]\<rparr>
   \<and> ell_best 2 1 0 1 \<and> ell_best 2 1 1 1"
proof -
  have r: "ellipse_region1 0 0 (2 * 2) (1 * 1) (ellipse_init 2 1) =
     Some \<lparr>ell_x = 2, ell_y = 0, ell_dx = 4, ell_dy = 0, ell_p = 6,
           ell_pts = [(0, 1), (0, 1), (0, - 1), (0, - 1), (1, 1), (- 1, 1), (- 1, - 1), (1, - 1)]\<rparr>"
    by code_simp
  show ?thesis using ellipse_region1_best_pixel [OF r] r by simp
qed

theorem midpoint_ellipse_symmetric_witness:
  "midpoint_ellipse 1 2 3 2 = Some [(1::int, 4::int), (1, 4), (1, 0), (1, 0), (2, 4), (0, 4), (0, 0), (2, 0), (3, 3),
     (- 1, 3), (- 1, 1), (3, 1), (4, 2), (- 2, 2), (- 2, 2), (4, 2)]
   \<and> (3, 3) \<in> set [(1::int, 4::int), (1, 4), (1, 0), (1, 0), (2, 4), (0, 4), (0, 0), (2, 0), (3, 3),
     (- 1, 3), (- 1, 1), (3, 1), (4, 2), (- 2, 2), (- 2, 2), (4, 2)] \<and> (2 * 1 - 3, 3) \<in> set [(1::int, 4::int), (1, 4), (1, 0), (1, 0), (2, 4), (0, 4), (0, 0), (2, 0), (3, 3),
     (- 1, 3), (- 1, 1), (3, 1), (4, 2), (- 2, 2), (- 2, 2), (4, 2)] \<and> (3, 2 * 2 - 3) \<in> set ([(1::int, 4::int), (1, 4), (1, 0), (1, 0), (2, 4), (0, 4), (0, 0), (2, 0), (3, 3),
     (- 1, 3), (- 1, 1), (3, 1), (4, 2), (- 2, 2), (- 2, 2), (4, 2)] :: point list)"
proof -
  have r: "midpoint_ellipse 1 2 3 2 = Some [(1::int, 4::int), (1, 4), (1, 0), (1, 0), (2, 4), (0, 4), (0, 0), (2, 0), (3, 3),
     (- 1, 3), (- 1, 1), (3, 1), (4, 2), (- 2, 2), (- 2, 2), (4, 2)]"
    by code_simp
  show ?thesis using midpoint_ellipse_symmetric [OF r, of 3 3] r by simp
qed

theorem midpoint_ellipse_ends_witness:
  "0 \<le> (2::int) \<and> midpoint_ellipse 1 2 3 2 = Some [(1::int, 4::int), (1, 4), (1, 0), (1, 0), (2, 4), (0, 4), (0, 0), (2, 0), (3, 3),
     (- 1, 3), (- 1, 1), (3, 1), (4, 2), (- 2, 2), (- 2, 2), (4, 2)]
   \<and> [(1::int, 4::int), (1, 4), (1, 0), (1, 0), (2, 4), (0, 4), (0, 0), (2, 0), (3, 3),
     (- 1, 3), (- 1, 1), (3, 1), (4, 2), (- 2, 2), (- 2, 2), (4, 2)] \<noteq> [] \<and> hd [(1::int, 4::int), (1, 4), (1, 0), (1, 0), (2, 4), (0, 4), (0, 0), (2, 0), (3, 3),
     (- 1, 3), (- 1, 1), (3, 1), (4, 2), (- 2, 2), (- 2, 2), (4, 2)] = (1, 2 + 2) \<and> snd (last ([(1::int, 4::int), (1, 4), (1, 0), (1, 0), (2, 4), (0, 4), (0, 0), (2, 0), (3, 3),
     (- 1, 3), (- 1, 1), (3, 1), (4, 2), (- 2, 2), (- 2, 2), (4, 2)] :: point list)) = 2"
proof -
  have r: "midpoint_ellipse 1 2 3 2 = Some [(1::int, 4::int), (1, 4), (1, 0), (1, 0), (2, 4), (0, 4), (0, 0), (2, 0), (3, 3),
     (- 1, 3), (- 1, 1), (3, 1), (4, 2), (- 2, 2), (- 2, 2), (4, 2)]"
    by code_simp
  show ?thesis using midpoint_ellipse_ends [OF _ r] r by simp
qed

end
