(* ===== verification/GL.thy ===== *)
theory GL
  imports Prelude
begin

text \<open>
  The part of legacy (immediate-mode) OpenGL that the demo programs call through
  \<open>from OpenGL.GL import *\<close>.  OpenGL is a library the sources only call, so this theory
  models it from the OpenGL 1.x specification and is not mapped to code: every call the
  programs make is a constructor of \<open>gl_cmd\<close>, the GL context is the record
  \<open>gl_state\<close>, and \<open>gl_exec\<close> is the effect of one call, \<open>gl_run\<close> of a call sequence
  (as \<open>exec1\<close>/\<open>exec\<close> of a stack machine).  The rules that matter for the programs:
  \<^item> between \<open>glBegin\<close> and \<open>glEnd\<close> only \<open>glVertex\<close> and \<open>glColor\<close> may be called;
    any other call there, a nested \<open>glBegin\<close> or an unmatched \<open>glEnd\<close> is ignored and
    records \<open>GL_INVALID_OPERATION\<close>; a non-positive point size or line width, a negative
    viewport and a degenerate \<open>glOrtho\<close> record \<open>GL_INVALID_VALUE\<close>;
  \<^item> a vertex takes the current colour, and its window position is the current
    model-view and projection matrices (kept as the 2-D affine maps they are here)
    followed by the viewport map; point size and line width are those current at
    \<open>glEnd\<close> (they cannot change inside the pair);
  \<^item> \<open>glClear\<close> fills the buffer with the clear colour current at the call and discards
    what was drawn; the primitives drawn since are \<open>gl_prims\<close>.
  \<open>gl_wf\<close> is the static discipline (begin/end properly paired, nothing but colour and
  vertex inside, positive sizes), and \<open>gl_wf_run\<close> shows that a well-formed sequence
  raises no GL error.  \<open>gl_drawn_in P\<close> is the invariant that every recorded vertex
  satisfies \<open>P\<close>; \<open>gl_drawn_in_run\<close> shows that a sequence which leaves the matrices
  alone and whose \<open>glVertex2f\<close> arguments (\<open>gl_vertex_args\<close>) land where \<open>P\<close> holds
  preserves it.
\<close>

datatype gl_mode = GL_POINTS | GL_LINES | GL_LINE_STRIP | GL_LINE_LOOP | GL_TRIANGLE_FAN | GL_QUADS
datatype gl_matrix = GL_PROJECTION | GL_MODELVIEW
datatype gl_cap = GL_BLEND | GL_LINE_SMOOTH | GL_POINT_SMOOTH
datatype gl_hint_target = GL_LINE_SMOOTH_HINT | GL_POINT_SMOOTH_HINT
datatype gl_hint_mode = GL_NICEST
datatype gl_blend_factor = GL_SRC_ALPHA | GL_ONE_MINUS_SRC_ALPHA
datatype gl_buffer = GL_COLOR_BUFFER_BIT
datatype gl_error = GL_INVALID_OPERATION | GL_INVALID_VALUE

type_synonym rgb = "real \<times> real \<times> real"
type_synonym rgba = "real \<times> real \<times> real \<times> real"
type_synonym vec2 = "real \<times> real"

text \<open>A 2-D affine map \<open>(sx, tx, sy, ty)\<close>: \<open>(x, y) \<mapsto> (sx x + tx, sy y + ty)\<close>.  The
  matrices the programs build (identity and \<open>glOrtho\<close>) are all of this form.\<close>

type_synonym affine = "real \<times> real \<times> real \<times> real"

datatype gl_cmd =
    glViewport int int int int
  | glMatrixMode gl_matrix
  | glLoadIdentity
  | glOrtho real real real real real real
  | glEnable gl_cap
  | glBlendFunc gl_blend_factor gl_blend_factor
  | glHint gl_hint_target gl_hint_mode
  | glPointSize real
  | glLineWidth real
  | glClearColor real real real real
  | glClear gl_buffer
  | glColor3f real real real
  | glBegin gl_mode
  | glVertex2f real real
  | glEnd

record gl_vertex =
  vx_color :: rgb
  vx_pos :: vec2
  vx_window :: vec2

record gl_prim =
  prim_mode :: gl_mode
  prim_point_size :: real
  prim_line_width :: real
  prim_vertices :: "gl_vertex list"

record gl_state =
  gl_viewport :: "int \<times> int \<times> int \<times> int"
  gl_mode_sel :: gl_matrix
  gl_projection :: affine
  gl_modelview :: affine
  gl_enabled :: "gl_cap set"
  gl_blend :: "gl_blend_factor \<times> gl_blend_factor"
  gl_point_size :: real
  gl_line_width :: real
  gl_clear_color :: rgba
  gl_background :: rgba
  gl_color :: rgb
  gl_open :: "(gl_mode \<times> gl_vertex list) option"
  gl_prims :: "gl_prim list"
  gl_errors :: "gl_error list"

definition aff_id :: affine where
  "aff_id = (1, 0, 1, 0)"

definition aff_apply :: "affine \<Rightarrow> vec2 \<Rightarrow> vec2" where
  "aff_apply a p = (case a of (sx, tx, sy, ty) \<Rightarrow> (sx * fst p + tx, sy * snd p + ty))"

definition aff_comp :: "affine \<Rightarrow> affine \<Rightarrow> affine" where
  "aff_comp a b = (case a of (sx, tx, sy, ty) \<Rightarrow> case b of (sx', tx', sy', ty') \<Rightarrow>
     (sx * sx', sx * tx' + tx, sy * sy', sy * ty' + ty))"

definition ortho_aff :: "real \<Rightarrow> real \<Rightarrow> real \<Rightarrow> real \<Rightarrow> affine" where
  "ortho_aff l r b t = (2 / (r - l), - (r + l) / (r - l), 2 / (t - b), - (t + b) / (t - b))"

definition viewport_apply :: "int \<times> int \<times> int \<times> int \<Rightarrow> vec2 \<Rightarrow> vec2" where
  "viewport_apply v p = (case v of (x, y, w, h) \<Rightarrow>
     ((fst p + 1) * of_int w / 2 + of_int x, (snd p + 1) * of_int h / 2 + of_int y))"

definition gl_clamp :: "real \<Rightarrow> real" where
  "gl_clamp c = max 0 (min 1 c)"

definition gl_initial :: "int \<Rightarrow> int \<Rightarrow> gl_state" where
  "gl_initial width height =
     \<lparr>gl_viewport = (0, 0, width, height), gl_mode_sel = GL_MODELVIEW,
      gl_projection = aff_id, gl_modelview = aff_id, gl_enabled = {},
      gl_blend = (GL_SRC_ALPHA, GL_SRC_ALPHA), gl_point_size = 1, gl_line_width = 1,
      gl_clear_color = (0, 0, 0, 0), gl_background = (0, 0, 0, 0), gl_color = (1, 1, 1),
      gl_open = None, gl_prims = [], gl_errors = []\<rparr>"

definition gl_err :: "gl_state \<Rightarrow> gl_error \<Rightarrow> gl_state" where
  "gl_err s e = s\<lparr>gl_errors := gl_errors s @ [e]\<rparr>"

definition gl_cur_matrix :: "gl_state \<Rightarrow> affine" where
  "gl_cur_matrix s = (case gl_mode_sel s of GL_PROJECTION \<Rightarrow> gl_projection s | GL_MODELVIEW \<Rightarrow> gl_modelview s)"

definition gl_set_matrix :: "gl_state \<Rightarrow> affine \<Rightarrow> gl_state" where
  "gl_set_matrix s a = (case gl_mode_sel s of
       GL_PROJECTION \<Rightarrow> s\<lparr>gl_projection := a\<rparr>
     | GL_MODELVIEW \<Rightarrow> s\<lparr>gl_modelview := a\<rparr>)"

definition gl_window :: "gl_state \<Rightarrow> vec2 \<Rightarrow> vec2" where
  "gl_window s p = viewport_apply (gl_viewport s) (aff_apply (gl_projection s) (aff_apply (gl_modelview s) p))"

definition gl_mk_vertex :: "gl_state \<Rightarrow> vec2 \<Rightarrow> gl_vertex" where
  "gl_mk_vertex s p = \<lparr>vx_color = gl_color s, vx_pos = p, vx_window = gl_window s p\<rparr>"

text \<open>The primitive that a \<open>glBegin\<close>, a vertex loop and a \<open>glEnd\<close> append: the vertices
  with the current colour and window positions, at the current point size and width.\<close>

definition gl_prim_of :: "gl_state \<Rightarrow> gl_mode \<Rightarrow> vec2 list \<Rightarrow> gl_prim" where
  "gl_prim_of s m ps = \<lparr>prim_mode = m, prim_point_size = gl_point_size s,
     prim_line_width = gl_line_width s, prim_vertices = map (gl_mk_vertex s) ps\<rparr>"

text \<open>\<open>glColor3f(*color)\<close>.\<close>

definition gl_color3 :: "rgb \<Rightarrow> gl_cmd" where
  "gl_color3 c = glColor3f (fst c) (fst (snd c)) (snd (snd c))"

text \<open>Calls that leave the clear colour and the cleared buffer alone, and the point sizes
  of the \<open>GL_POINTS\<close> primitives of a buffer.\<close>

definition gl_clear_free :: "gl_cmd list \<Rightarrow> bool" where
  "gl_clear_free cs = list_all (\<lambda>c. case c of glClear b \<Rightarrow> False | glClearColor r g b a \<Rightarrow> False | _ \<Rightarrow> True) cs"

definition gl_points_sizes :: "gl_prim list \<Rightarrow> real list" where
  "gl_points_sizes prims = map prim_point_size (filter (\<lambda>p. prim_mode p = GL_POINTS) prims)"

definition gl_no_transform :: "gl_cmd list \<Rightarrow> bool" where
  "gl_no_transform cs = list_all (\<lambda>c. case c of glViewport x y w h \<Rightarrow> False | glMatrixMode m \<Rightarrow> False
     | glLoadIdentity \<Rightarrow> False | glOrtho l r b t n f \<Rightarrow> False | _ \<Rightarrow> True) cs"

named_theorems gl_sem "execution of GL call sequences"

text \<open>The calls that are legal only outside \<open>glBegin\<close>/\<open>glEnd\<close>.\<close>

fun gl_state_cmd :: "gl_state \<Rightarrow> gl_cmd \<Rightarrow> gl_state" where
  "gl_state_cmd s (glViewport x y w h) =
     (if w < 0 \<or> h < 0 then gl_err s GL_INVALID_VALUE else s\<lparr>gl_viewport := (x, y, w, h)\<rparr>)"
| "gl_state_cmd s (glMatrixMode m) = s\<lparr>gl_mode_sel := m\<rparr>"
| "gl_state_cmd s glLoadIdentity = gl_set_matrix s aff_id"
| "gl_state_cmd s (glOrtho l r b t n f) =
     (if l = r \<or> b = t \<or> n = f then gl_err s GL_INVALID_VALUE
      else gl_set_matrix s (aff_comp (gl_cur_matrix s) (ortho_aff l r b t)))"
| "gl_state_cmd s (glEnable c) = s\<lparr>gl_enabled := insert c (gl_enabled s)\<rparr>"
| "gl_state_cmd s (glBlendFunc sf df) = s\<lparr>gl_blend := (sf, df)\<rparr>"
| "gl_state_cmd s (glHint tg md) = s"
| "gl_state_cmd s (glPointSize v) = (if v \<le> 0 then gl_err s GL_INVALID_VALUE else s\<lparr>gl_point_size := v\<rparr>)"
| "gl_state_cmd s (glLineWidth v) = (if v \<le> 0 then gl_err s GL_INVALID_VALUE else s\<lparr>gl_line_width := v\<rparr>)"
| "gl_state_cmd s (glClearColor r g b a) =
     s\<lparr>gl_clear_color := (gl_clamp r, gl_clamp g, gl_clamp b, gl_clamp a)\<rparr>"
| "gl_state_cmd s (glClear buf) = s\<lparr>gl_background := gl_clear_color s, gl_prims := []\<rparr>"
| "gl_state_cmd s (glColor3f r g b) = s"
| "gl_state_cmd s (glBegin m) = s"
| "gl_state_cmd s (glVertex2f x y) = s"
| "gl_state_cmd s glEnd = s"

fun gl_exec :: "gl_state \<Rightarrow> gl_cmd \<Rightarrow> gl_state" where
  "gl_exec s (glBegin m) =
     (if gl_open s = None then s\<lparr>gl_open := Some (m, [])\<rparr> else gl_err s GL_INVALID_OPERATION)"
| "gl_exec s glEnd =
     (case gl_open s of
        None \<Rightarrow> gl_err s GL_INVALID_OPERATION
      | Some (m, vs) \<Rightarrow> s\<lparr>gl_open := None,
          gl_prims := gl_prims s @ [\<lparr>prim_mode = m, prim_point_size = gl_point_size s,
                                    prim_line_width = gl_line_width s, prim_vertices = vs\<rparr>]\<rparr>)"
| "gl_exec s (glVertex2f x y) =
     (case gl_open s of
        None \<Rightarrow> s
      | Some (m, vs) \<Rightarrow> s\<lparr>gl_open := Some (m, vs @ [gl_mk_vertex s (x, y)])\<rparr>)"
| "gl_exec s (glColor3f r g b) = s\<lparr>gl_color := (r, g, b)\<rparr>"
| "gl_exec s c = (if gl_open s = None then gl_state_cmd s c else gl_err s GL_INVALID_OPERATION)"

fun gl_run :: "gl_state \<Rightarrow> gl_cmd list \<Rightarrow> gl_state" where
  "gl_run s [] = s"
| "gl_run s (c # cs) = gl_run (gl_exec s c) cs"

text \<open>The \<open>for x, y in points: glVertex2f(x, y)\<close> loop every drawing routine contains.\<close>

definition gl_vertices :: "vec2 list \<Rightarrow> gl_cmd list" where
  "gl_vertices ps = map (\<lambda>(x, y). glVertex2f x y) ps"

definition gl_pixel :: "point \<Rightarrow> vec2" where
  "gl_pixel p = (of_int (fst p), of_int (snd p))"

text \<open>The block every point-drawing routine of the programs issues:
  \<open>glColor3f(*color); glBegin(GL_POINTS); for x, y in points: glVertex2f(x, y); glEnd()\<close>.\<close>

definition gl_points_block :: "rgb \<Rightarrow> vec2 list \<Rightarrow> gl_cmd list" where
  "gl_points_block c ps = [gl_color3 c, glBegin GL_POINTS] @ gl_vertices ps @ [glEnd]"

subsection \<open>Well-formed call sequences\<close>

fun gl_cmd_ok :: "bool \<Rightarrow> gl_cmd \<Rightarrow> bool" where
  "gl_cmd_ok inside (glBegin m) = (\<not> inside)"
| "gl_cmd_ok inside glEnd = inside"
| "gl_cmd_ok inside (glVertex2f x y) = inside"
| "gl_cmd_ok inside (glColor3f r g b) = True"
| "gl_cmd_ok inside (glViewport x y w h) = (\<not> inside \<and> 0 \<le> w \<and> 0 \<le> h)"
| "gl_cmd_ok inside (glOrtho l r b t n f) = (\<not> inside \<and> l \<noteq> r \<and> b \<noteq> t \<and> n \<noteq> f)"
| "gl_cmd_ok inside (glPointSize v) = (\<not> inside \<and> 0 < v)"
| "gl_cmd_ok inside (glLineWidth v) = (\<not> inside \<and> 0 < v)"
| "gl_cmd_ok inside c = (\<not> inside)"

fun gl_after :: "bool \<Rightarrow> gl_cmd \<Rightarrow> bool" where
  "gl_after inside (glBegin m) = True"
| "gl_after inside glEnd = False"
| "gl_after inside c = inside"

fun gl_wf :: "bool \<Rightarrow> gl_cmd list \<Rightarrow> bool" where
  "gl_wf inside [] = (\<not> inside)"
| "gl_wf inside (c # cs) = (gl_cmd_ok inside c \<and> gl_wf (gl_after inside c) cs)"

text \<open>The positions a call sequence passes to \<open>glVertex2f\<close>, and the property that every
  vertex drawn so far, and every vertex of the open primitive, has its window position in
  a region \<open>P\<close>.\<close>

fun gl_vertex_args :: "gl_cmd list \<Rightarrow> vec2 list" where
  "gl_vertex_args [] = []"
| "gl_vertex_args (glVertex2f x y # cs) = (x, y) # gl_vertex_args cs"
| "gl_vertex_args (c # cs) = gl_vertex_args cs"

definition gl_drawn_in :: "(vec2 \<Rightarrow> bool) \<Rightarrow> gl_state \<Rightarrow> bool" where
  "gl_drawn_in P s \<longleftrightarrow> list_all (\<lambda>pr. list_all (\<lambda>v. P (vx_window v)) (prim_vertices pr)) (gl_prims s)
     \<and> (case gl_open s of None \<Rightarrow> True | Some (m, vs) \<Rightarrow> list_all (\<lambda>v. P (vx_window v)) vs)"

subsection \<open>Executing call sequences\<close>

lemma gl_run_append [simp, gl_sem]: "gl_run s (xs @ ys) = gl_run (gl_run s xs) ys"
  by (induction xs arbitrary: s) simp_all

lemma gl_mk_vertex_open [simp]: "gl_mk_vertex (s\<lparr>gl_open := x\<rparr>) = gl_mk_vertex s"
  by (simp add: gl_mk_vertex_def gl_window_def fun_eq_iff)

lemma gl_open_same [simp]: "gl_open s = x \<Longrightarrow> s\<lparr>gl_open := x\<rparr> = s"
  by (cases s) auto

lemma gl_run_vertices [simp, gl_sem]:
  "gl_open s = Some (m, ws) \<Longrightarrow>
   gl_run s (gl_vertices ps) = s\<lparr>gl_open := Some (m, ws @ map (gl_mk_vertex s) ps)\<rparr>"
proof (induction ps arbitrary: s ws)
  case Nil
  then show ?case by (simp add: gl_vertices_def)
next
  case (Cons p ps)
  obtain x y where p: "p = (x, y)" by (cases p)
  let ?s' = "s\<lparr>gl_open := Some (m, ws @ [gl_mk_vertex s (x, y)])\<rparr>"
  have "gl_run ?s' (gl_vertices ps) =
        ?s'\<lparr>gl_open := Some (m, (ws @ [gl_mk_vertex s (x, y)]) @ map (gl_mk_vertex ?s') ps)\<rparr>"
    by (rule Cons.IH) simp
  with Cons.prems show ?case by (simp add: gl_vertices_def p)
qed

lemma gl_mk_vertex_simps [simp]:
  "vx_pos (gl_mk_vertex s p) = p" "vx_color (gl_mk_vertex s p) = gl_color s"
  "vx_window (gl_mk_vertex s p) = gl_window s p"
  by (simp_all add: gl_mk_vertex_def)

lemma gl_run_block [simp, gl_sem]:
  "gl_open s = None \<Longrightarrow>
   gl_run s (glBegin m # gl_vertices ps @ [glEnd]) = s\<lparr>gl_prims := gl_prims s @ [gl_prim_of s m ps]\<rparr>"
  by (simp add: gl_prim_of_def)

lemma gl_exec_ok:
  assumes "gl_cmd_ok (gl_open s \<noteq> None) c"
  shows "gl_errors (gl_exec s c) = gl_errors s
         \<and> (gl_open (gl_exec s c) \<noteq> None) = gl_after (gl_open s \<noteq> None) c"
  using assms
  by (cases c; cases "gl_open s") (auto simp: gl_set_matrix_def gl_err_def split: gl_matrix.splits)

lemma gl_wf_run:
  "gl_wf (gl_open s \<noteq> None) cs \<Longrightarrow> gl_errors (gl_run s cs) = gl_errors s \<and> gl_open (gl_run s cs) = None"
proof (induction cs arbitrary: s)
  case Nil
  then show ?case by (cases "gl_open s") auto
next
  case (Cons c cs)
  then have ok: "gl_cmd_ok (gl_open s \<noteq> None) c" and rest: "gl_wf (gl_after (gl_open s \<noteq> None) c) cs"
    by simp_all
  from gl_exec_ok [OF ok] rest have "gl_wf (gl_open (gl_exec s c) \<noteq> None) cs" by simp
  from Cons.IH [OF this] gl_exec_ok [OF ok] show ?case by simp
qed

subsection \<open>Composing well-formed sequences\<close>

lemma gl_wf_append [intro, gl_sem]: "gl_wf b xs \<Longrightarrow> gl_wf False ys \<Longrightarrow> gl_wf b (xs @ ys)"
  by (induction b xs rule: gl_wf.induct) auto

lemma gl_wf_concat [intro, gl_sem]: "(\<And>xs. xs \<in> set xss \<Longrightarrow> gl_wf False xs) \<Longrightarrow> gl_wf False (concat xss)"
  by (induction xss) (simp_all add: gl_wf_append)

lemma gl_wf_vertices [simp, gl_sem]: "gl_wf True (gl_vertices ps @ cs) = gl_wf True cs"
  by (induction ps) (auto simp: gl_vertices_def)

lemma gl_wf_replicate [intro, gl_sem]: "gl_wf False xs \<Longrightarrow> gl_wf False (concat (replicate n xs))"
  by (induction n) (simp_all add: gl_wf_append)

lemma gl_exec_clear_fields:
  "(case c of glClear b \<Rightarrow> False | glClearColor r g b a \<Rightarrow> False | _ \<Rightarrow> True) \<Longrightarrow>
   gl_background (gl_exec s c) = gl_background s \<and> gl_clear_color (gl_exec s c) = gl_clear_color s"
  by (cases c; cases "gl_open s") (auto simp: gl_err_def gl_set_matrix_def split: gl_matrix.splits)

lemma gl_run_clear_free [gl_sem]:
  "gl_clear_free cs \<Longrightarrow>
   gl_background (gl_run s cs) = gl_background s \<and> gl_clear_color (gl_run s cs) = gl_clear_color s"
proof (induction cs arbitrary: s)
  case Nil
  then show ?case by simp
next
  case (Cons c cs)
  then have "gl_clear_free cs" "case c of glClear b \<Rightarrow> False | glClearColor r g b a \<Rightarrow> False | _ \<Rightarrow> True"
    by (simp_all add: gl_clear_free_def)
  with Cons.IH [of "gl_exec s c"] gl_exec_clear_fields [of c s] show ?case by simp
qed

lemma gl_clear_free_simps [simp]:
  "gl_clear_free [] = True"
  "gl_clear_free (xs @ ys) = (gl_clear_free xs \<and> gl_clear_free ys)"
  "gl_clear_free (concat xss) = list_all gl_clear_free xss"
  "gl_clear_free (gl_vertices ps)"
  "gl_clear_free (glColor3f r g b # cs) = gl_clear_free cs"
  "gl_clear_free (glBegin m # cs) = gl_clear_free cs"
  "gl_clear_free (glEnd # cs) = gl_clear_free cs"
  "gl_clear_free (glVertex2f x y # cs) = gl_clear_free cs"
  "gl_clear_free (glPointSize v # cs) = gl_clear_free cs"
  "gl_clear_free (glLineWidth v # cs) = gl_clear_free cs"
  by (auto simp: gl_clear_free_def gl_vertices_def list_all_iff)

lemma gl_points_sizes_simps [simp]:
  "gl_points_sizes [] = []"
  "gl_points_sizes (xs @ ys) = gl_points_sizes xs @ gl_points_sizes ys"
  "gl_points_sizes (p # ps) = (if prim_mode p = GL_POINTS then prim_point_size p # gl_points_sizes ps else gl_points_sizes ps)"
  by (simp_all add: gl_points_sizes_def)

lemma gl_prim_of_fields [simp]:
  "prim_mode (gl_prim_of s m ps) = m" "prim_point_size (gl_prim_of s m ps) = gl_point_size s"
  "prim_line_width (gl_prim_of s m ps) = gl_line_width s"
  by (simp_all add: gl_prim_of_def)

lemma gl_exec_transform_fields:
  "(case c of glViewport x y w h \<Rightarrow> False | glMatrixMode m \<Rightarrow> False
     | glLoadIdentity \<Rightarrow> False | glOrtho l r b t n f \<Rightarrow> False | _ \<Rightarrow> True) \<Longrightarrow>
   gl_viewport (gl_exec s c) = gl_viewport s \<and> gl_projection (gl_exec s c) = gl_projection s
   \<and> gl_modelview (gl_exec s c) = gl_modelview s"
  by (cases c; cases "gl_open s") (auto simp: gl_err_def)

lemma gl_run_no_transform [gl_sem]:
  "gl_no_transform cs \<Longrightarrow>
   gl_viewport (gl_run s cs) = gl_viewport s \<and> gl_projection (gl_run s cs) = gl_projection s
   \<and> gl_modelview (gl_run s cs) = gl_modelview s"
proof (induction cs arbitrary: s)
  case Nil
  then show ?case by simp
next
  case (Cons c cs)
  then have "gl_no_transform cs" "case c of glViewport x y w h \<Rightarrow> False | glMatrixMode m \<Rightarrow> False
     | glLoadIdentity \<Rightarrow> False | glOrtho l r b t n f \<Rightarrow> False | _ \<Rightarrow> True"
    by (simp_all add: gl_no_transform_def)
  with Cons.IH [of "gl_exec s c"] gl_exec_transform_fields [of c s] show ?case by simp
qed

lemma gl_no_transform_simps [simp]:
  "gl_no_transform [] = True"
  "gl_no_transform (xs @ ys) = (gl_no_transform xs \<and> gl_no_transform ys)"
  "gl_no_transform (concat xss) = list_all gl_no_transform xss"
  "gl_no_transform (gl_vertices ps)"
  "gl_no_transform (glColor3f r g b # cs) = gl_no_transform cs"
  "gl_no_transform (glBegin m # cs) = gl_no_transform cs"
  "gl_no_transform (glEnd # cs) = gl_no_transform cs"
  "gl_no_transform (glVertex2f x y # cs) = gl_no_transform cs"
  "gl_no_transform (glPointSize v # cs) = gl_no_transform cs"
  "gl_no_transform (glLineWidth v # cs) = gl_no_transform cs"
  "gl_no_transform (glClear bf # cs) = gl_no_transform cs"
  "gl_no_transform (glClearColor r g b a # cs) = gl_no_transform cs"
  by (auto simp: gl_no_transform_def gl_vertices_def list_all_iff)

lemma gl_window_fields:
  "gl_viewport t = gl_viewport s \<Longrightarrow> gl_projection t = gl_projection s \<Longrightarrow> gl_modelview t = gl_modelview s \<Longrightarrow>
   gl_window t = gl_window s"
  by (simp add: gl_window_def fun_eq_iff)

lemma gl_prim_of_upd [simp]:
  "gl_prim_of (s\<lparr>gl_prims := x\<rparr>) = gl_prim_of s"
  "gl_prim_of (s\<lparr>gl_open := y\<rparr>) = gl_prim_of s"
  "gl_prim_of (s\<lparr>gl_prims := x, gl_color := c\<rparr>) = gl_prim_of (s\<lparr>gl_color := c\<rparr>)"
  by (simp_all add: fun_eq_iff gl_prim_of_def gl_mk_vertex_def gl_window_def)

lemma gl_run_points_block [simp, gl_sem]:
  "gl_open t = None \<Longrightarrow>
   gl_run t (gl_points_block c ps) = t\<lparr>gl_color := c, gl_prims := gl_prims t @ [gl_prim_of (t\<lparr>gl_color := c\<rparr>) GL_POINTS ps]\<rparr>"
  by (simp add: gl_points_block_def gl_color3_def gl_prim_of_def)

lemma gl_points_block_calls [simp]:
  "gl_wf False (gl_points_block c ps)" "gl_no_transform (gl_points_block c ps)" "gl_clear_free (gl_points_block c ps)"
  by (simp_all add: gl_points_block_def gl_color3_def)

lemma gl_run_points_blocks:
  assumes "gl_open t = None"
  shows "gl_run t (concat (map (\<lambda>(ps, c). gl_points_block c ps) data)) =
    t\<lparr>gl_color := (if data = [] then gl_color t else snd (last data)),
      gl_prims := gl_prims t @ map (\<lambda>(ps, c). gl_prim_of (t\<lparr>gl_color := c\<rparr>) GL_POINTS ps) data\<rparr>"
  using assms
proof (induction data arbitrary: t)
  case Nil
  then show ?case by simp
next
  case (Cons d data)
  obtain ps c where d: "d = (ps, c)" by (cases d)
  let ?t = "t\<lparr>gl_color := c, gl_prims := gl_prims t @ [gl_prim_of (t\<lparr>gl_color := c\<rparr>) GL_POINTS ps]\<rparr>"
  have "gl_open ?t = None" using Cons.prems by simp
  from Cons.IH [OF this] Cons.prems show ?case
    by (simp add: d)
qed

text \<open>Loops that send two vertices per iteration (grid and axis lines).\<close>

lemma gl_wf_vertex_pairs [simp]:
  "gl_wf True (concat (map (\<lambda>x. [glVertex2f (a x) (b x), glVertex2f (c x) (d x)]) xs) @ cs) = gl_wf True cs"
  by (induction xs) simp_all

lemma gl_run_vertex_pairs [simp]:
  "gl_open s = Some (m, ws) \<Longrightarrow>
   gl_run s (concat (map (\<lambda>x. [glVertex2f (a x) (b x), glVertex2f (c x) (d x)]) xs)) =
   s\<lparr>gl_open := Some (m, ws @ concat (map (\<lambda>x. [gl_mk_vertex s (a x, b x), gl_mk_vertex s (c x, d x)]) xs))\<rparr>"
proof (induction xs arbitrary: s ws)
  case (Cons x xs)
  let ?s = "s\<lparr>gl_open := Some (m, ws @ [gl_mk_vertex s (a x, b x), gl_mk_vertex s (c x, d x)])\<rparr>"
  have "gl_run ?s (concat (map (\<lambda>x. [glVertex2f (a x) (b x), glVertex2f (c x) (d x)]) xs)) =
    ?s\<lparr>gl_open := Some (m, (ws @ [gl_mk_vertex s (a x, b x), gl_mk_vertex s (c x, d x)])
       @ concat (map (\<lambda>x. [gl_mk_vertex ?s (a x, b x), gl_mk_vertex ?s (c x, d x)]) xs))\<rparr>"
    by (rule Cons.IH) simp
  with Cons.prems show ?case by simp
qed simp

lemma points_blocks_calls:
  "gl_wf False (concat (map (\<lambda>(ps, c). gl_points_block c ps) xs))"
  "gl_no_transform (concat (map (\<lambda>(ps, c). gl_points_block c ps) xs))"
  "gl_clear_free (concat (map (\<lambda>(ps, c). gl_points_block c ps) xs))"
  by (auto simp: list_all_iff intro!: gl_wf_concat)


subsection \<open>Where the vertices land\<close>

lemma gl_vertex_args_append [simp]: "gl_vertex_args (xs @ ys) = gl_vertex_args xs @ gl_vertex_args ys"
  by (induction xs rule: gl_vertex_args.induct) simp_all

lemma gl_vertex_args_vertices [simp]: "gl_vertex_args (gl_vertices ps) = ps"
  by (induction ps) (auto simp: gl_vertices_def)

lemma gl_vertex_args_simps [simp]:
  "gl_vertex_args (concat xss) = concat (map gl_vertex_args xss)"
  "gl_vertex_args (gl_points_block c ps) = ps"
  by (induction xss) (simp_all add: gl_points_block_def gl_color3_def)

lemma gl_drawn_in_exec:
  assumes "gl_drawn_in P s"
    "case c of glViewport x y w h \<Rightarrow> False | glMatrixMode m \<Rightarrow> False | glLoadIdentity \<Rightarrow> False
       | glOrtho l r b t n f \<Rightarrow> False | _ \<Rightarrow> True"
    "list_all (\<lambda>p. P (gl_window s p)) (gl_vertex_args [c])"
  shows "gl_drawn_in P (gl_exec s c)"
  using assms by (cases c; cases "gl_open s") (auto simp: gl_drawn_in_def gl_err_def gl_mk_vertex_def)

lemma gl_drawn_in_run:
  "gl_drawn_in P s \<Longrightarrow> gl_no_transform cs \<Longrightarrow> list_all (\<lambda>p. P (gl_window s p)) (gl_vertex_args cs)
   \<Longrightarrow> gl_drawn_in P (gl_run s cs)"
proof (induction cs arbitrary: s)
  case (Cons c cs)
  have nt: "case c of glViewport x y w h \<Rightarrow> False | glMatrixMode m \<Rightarrow> False | glLoadIdentity \<Rightarrow> False
       | glOrtho l r b t n f \<Rightarrow> False | _ \<Rightarrow> True" and ntr: "gl_no_transform cs"
    using Cons.prems(2) by (simp_all add: gl_no_transform_def)
  have w: "gl_window (gl_exec s c) = gl_window s"
    using gl_exec_transform_fields [OF nt, of s] by (intro gl_window_fields) simp_all
  have args: "gl_vertex_args (c # cs) = gl_vertex_args [c] @ gl_vertex_args cs"
    by (cases c) simp_all
  have "gl_drawn_in P (gl_exec s c)"
    using gl_drawn_in_exec [OF Cons.prems(1) nt] Cons.prems(3) by (simp add: args)
  moreover have "list_all (\<lambda>p. P (gl_window (gl_exec s c) p)) (gl_vertex_args cs)"
    using Cons.prems(3) by (simp add: args w)
  ultimately show ?case using Cons.IH ntr by simp
qed simp

lemma gl_pixels_box:
  "list_all (\<lambda>p. 0 \<le> fst p \<and> fst p \<le> w \<and> 0 \<le> snd p \<and> snd p \<le> h) ps \<Longrightarrow>
   list_all (\<lambda>p. 0 \<le> fst p \<and> fst p \<le> of_int w \<and> 0 \<le> snd p \<and> snd p \<le> of_int h) (map gl_pixel ps)"
  by (simp add: list_all_iff gl_pixel_def)

end
