(* ===== verification/Glfw.thy ===== *)
theory Glfw
  imports GL
begin

text \<open>
  The skeleton every program's \<open>main()\<close> shares.  GLFW is a library the sources only call,
  so its behaviour is an environment: \<open>glfw_env\<close> says whether \<open>glfw.init()\<close> and
  \<open>glfw.create_window\<close> succeed and what \<open>glfw.window_should_close\<close> answers at its
  \<open>n\<close>-th test (the user closing the window).  A run of a program is the list of library
  calls it makes (\<open>app_event\<close>: GLFW calls, OpenGL calls, console output), or \<open>None\<close>
  when it never returns.  \<open>event_loop\<close> is the \<open>while not glfw.window_should_close(window)\<close>
  loop (a \<open>partial_function (option)\<close>, since it runs until the user closes the window),
  and \<open>glfw_app\<close> is the common shape of \<open>main()\<close>: the two early returns, the context,
  the program's own set-up, the loop and \<open>glfw.terminate()\<close>.  \<open>app_display\<close> gives what
  the window shows at each \<open>glfw.swap_buffers\<close>: the clear colour and the primitives
  drawn since the last \<open>glClear\<close>, executed by the GL model from the context's initial
  state, and \<open>app_prints\<close> the lines the run prints.  \<open>drawn_in_window\<close> says that
  every vertex of every screen lies inside the window; \<open>glfw_app_visible\<close> reduces it
  to box bounds on the vertex arguments of one frame.
\<close>

datatype app_event =
    GlfwInit
  | GlfwCreateWindow int int string
  | GlfwMakeContextCurrent
  | GL gl_cmd
  | GlfwSwapBuffers
  | GlfwPollEvents
  | GlfwTerminate
  | Print string

record glfw_env =
  init_ok :: bool
  window_ok :: bool
  should_close :: "nat \<Rightarrow> bool"

type_synonym screen = "rgba \<times> gl_prim list"

partial_function (option) event_loop :: "(nat \<Rightarrow> bool) \<Rightarrow> gl_cmd list \<Rightarrow> nat \<Rightarrow> app_event list option" where
  "event_loop close frame n =
     (if close n then Some []
      else Option.bind (event_loop close frame (Suc n))
             (\<lambda>rest. Some (map GL frame @ [GlfwSwapBuffers, GlfwPollEvents] @ rest)))"

declare event_loop.simps [code]

text \<open>How \<open>main()\<close> ended: it returned, or an exception escaped it after the listed calls.\<close>

datatype app_result = Exited "app_event list" | Crashed py_error "app_event list"

fun app_events :: "app_result \<Rightarrow> app_event list" where
  "app_events (Exited es) = es"
| "app_events (Crashed e es) = es"

text \<open>The program's own part of \<open>main()\<close> between \<open>glfw.make_context_current\<close> and the
  loop: its set-up calls and console output and the calls of one loop iteration before
  \<open>glfw.swap_buffers\<close>, or the exception it raises with the calls made before it;
  \<open>None\<close> when computing them does not return.\<close>

type_synonym app_body = "((py_error \<times> app_event list) + (app_event list \<times> gl_cmd list)) option"

definition glfw_app :: "glfw_env \<Rightarrow> int \<Rightarrow> int \<Rightarrow> string \<Rightarrow> app_body \<Rightarrow> app_result option" where
  "glfw_app env width height title body =
     (if \<not> init_ok env then Some (Exited [GlfwInit])
      else if \<not> window_ok env then Some (Exited [GlfwInit, GlfwCreateWindow width height title, GlfwTerminate])
      else Option.bind body (\<lambda>b. case b of
          Inl (e, before) \<Rightarrow>
            Some (Crashed e ([GlfwInit, GlfwCreateWindow width height title, GlfwMakeContextCurrent] @ before))
        | Inr (setup, frame) \<Rightarrow>
            Option.bind (event_loop (should_close env) frame 0)
              (\<lambda>loop. Some (Exited ([GlfwInit, GlfwCreateWindow width height title, GlfwMakeContextCurrent]
                                   @ setup @ loop @ [GlfwTerminate])))))"

text \<open>The projection set-up every program makes: a viewport of the whole window and an
  orthographic projection with the origin at the top left and y growing downwards.\<close>

definition ortho_setup :: "int \<Rightarrow> int \<Rightarrow> gl_cmd list" where
  "ortho_setup width height =
     [glViewport 0 0 width height, glMatrixMode GL_PROJECTION, glLoadIdentity,
      glOrtho 0 (of_int width) (of_int height) 0 (- 1) 1, glMatrixMode GL_MODELVIEW, glLoadIdentity]"

fun app_gl :: "app_event list \<Rightarrow> gl_cmd list" where
  "app_gl [] = []"
| "app_gl (GL c # es) = c # app_gl es"
| "app_gl (e # es) = app_gl es"

fun app_prints :: "app_event list \<Rightarrow> string list" where
  "app_prints [] = []"
| "app_prints (Print str # es) = str # app_prints es"
| "app_prints (e # es) = app_prints es"

definition screen_of :: "gl_state \<Rightarrow> screen" where
  "screen_of s = (gl_background s, gl_prims s)"

fun app_display :: "gl_state \<Rightarrow> app_event list \<Rightarrow> screen list" where
  "app_display s [] = []"
| "app_display s (GL c # es) = app_display (gl_exec s c) es"
| "app_display s (GlfwSwapBuffers # es) = screen_of s # app_display s es"
| "app_display s (e # es) = app_display s es"

text \<open>The first test of the close flag that answers yes, from test \<open>n\<close> on.\<close>

definition first_close :: "(nat \<Rightarrow> bool) \<Rightarrow> nat \<Rightarrow> nat \<Rightarrow> bool" where
  "first_close close n k \<longleftrightarrow> n \<le> k \<and> close k \<and> (\<forall>j. n \<le> j \<and> j < k \<longrightarrow> \<not> close j)"

definition loop_events :: "gl_cmd list \<Rightarrow> nat \<Rightarrow> app_event list" where
  "loop_events frame k = concat (replicate k (map GL frame @ [GlfwSwapBuffers, GlfwPollEvents]))"

text \<open>The transformation state \<open>ortho_setup\<close> leaves: vertex \<open>(x, y)\<close> lands on window
  position \<open>(x, height - y)\<close> (OpenGL's window y grows upwards).\<close>

definition ortho_ready :: "gl_state \<Rightarrow> int \<Rightarrow> int \<Rightarrow> bool" where
  "ortho_ready s width height \<longleftrightarrow> gl_viewport s = (0, 0, width, height)
     \<and> gl_projection s = (2 / of_int width, - 1, - (2 / of_int height), 1) \<and> gl_modelview s = aff_id"

definition in_window :: "int \<Rightarrow> int \<Rightarrow> vec2 \<Rightarrow> bool" where
  "in_window width height p \<longleftrightarrow> 0 \<le> fst p \<and> fst p \<le> of_int width \<and> 0 \<le> snd p \<and> snd p \<le> of_int height"

definition window_of_pixel :: "int \<Rightarrow> point \<Rightarrow> vec2" where
  "window_of_pixel height p = (of_int (fst p), of_int height - of_int (snd p))"

text \<open>Reading a pixel back from a window position under that projection.\<close>

definition pixel_of_window :: "int \<Rightarrow> vec2 \<Rightarrow> vec2" where
  "pixel_of_window height w = (fst w, of_int height - snd w)"

text \<open>Every vertex of every screen lies in the window.\<close>

definition drawn_in_window :: "int \<Rightarrow> int \<Rightarrow> screen list \<Rightarrow> bool" where
  "drawn_in_window width height scrs \<longleftrightarrow>
     list_all (\<lambda>scr. list_all (\<lambda>pr. list_all (\<lambda>v. in_window width height (vx_window v)) (prim_vertices pr)) (snd scr)) scrs"

subsection \<open>The event loop\<close>

lemma event_loop_first_close:
  "first_close close n k \<Longrightarrow> event_loop close frame n = Some (loop_events frame (k - n))"
proof (induction "k - n" arbitrary: n)
  case 0
  then have "k = n" and "close n" by (auto simp: first_close_def)
  then show ?case by (simp add: event_loop.simps loop_events_def)
next
  case (Suc d)
  then have nk: "n < k" and nc: "\<not> close n" by (auto simp: first_close_def)
  have "first_close close (Suc n) k"
    using Suc.prems nk by (auto simp: first_close_def)
  moreover have d: "d = k - Suc n" using Suc.hyps(2) by arith
  ultimately have "event_loop close frame (Suc n) = Some (loop_events frame d)"
    using Suc.hyps(1) by simp
  moreover have "k - n = Suc d" using Suc.hyps(2) by simp
  ultimately show ?case
    using nc by (simp add: event_loop.simps [of close frame n] loop_events_def)
qed

lemma event_loop_returns_closed:
  assumes "event_loop close frame n = Some es"
  shows "\<exists>k. first_close close n k \<and> es = loop_events frame (k - n)"
proof (rule event_loop.raw_induct
    [where P = "\<lambda>close frame n es. \<exists>k. first_close close n k \<and> es = loop_events frame (k - n)",
     OF _ assms], goal_cases)
  case (1 loop close frame n es)
  note IH = "1"(1) and body = "1"(2)
  show ?case
  proof (cases "close n")
    case True
    then have "first_close close n n" by (auto simp: first_close_def)
    with True body show ?thesis by (auto simp: loop_events_def)
  next
    case False
    with body obtain rest where r: "loop close frame (Suc n) = Some rest"
      and es: "es = map GL frame @ [GlfwSwapBuffers, GlfwPollEvents] @ rest"
      by (auto split: Option.bind_splits)
    from IH [OF r] obtain k where k: "first_close close (Suc n) k"
      and rest: "rest = loop_events frame (k - Suc n)" by blast
    have "\<not> close j" if "n \<le> j" "j < k" for j
    proof (cases "j = n")
      case True
      with False show ?thesis by simp
    next
      case False
      with that k show ?thesis by (simp add: first_close_def)
    qed
    with k have "first_close close n k" by (simp add: first_close_def)
    moreover from k have "Suc n \<le> k" by (simp add: first_close_def)
    then have "k - n = Suc (k - Suc n)" by arith
    ultimately show ?thesis using es rest by (auto simp: loop_events_def)
  qed
qed

lemma first_close_exists:
  assumes "close k" "n \<le> k"
  shows "\<exists>k'. first_close close n k'"
proof -
  let ?k' = "LEAST j. n \<le> j \<and> close j"
  have "n \<le> k \<and> close k" using assms by simp
  then have "n \<le> ?k' \<and> close ?k'" by (rule LeastI)
  moreover have "\<forall>j. n \<le> j \<and> j < ?k' \<longrightarrow> \<not> close j"
    using not_less_Least by blast
  ultimately show ?thesis unfolding first_close_def by blast
qed

subsection \<open>Runs and screens\<close>

lemma app_gl_append [simp]: "app_gl (xs @ ys) = app_gl xs @ app_gl ys"
  by (induction xs rule: app_gl.induct) simp_all

lemma app_gl_map_GL [simp]: "app_gl (map GL cs) = cs"
  by (induction cs) simp_all

lemma app_map_Print [simp]:
  "app_gl (map Print ss) = []" "app_display s (map Print ss) = []" "app_prints (map Print ss) = ss"
  by (induction ss) simp_all

lemma app_map_Print_comp [simp]:
  "app_gl (map (Print \<circ> f) xs) = []" "app_display s (map (Print \<circ> f) xs) = []"
  "app_prints (map (Print \<circ> f) xs) = map f xs"
  by (induction xs) simp_all

lemma app_display_append [simp]:
  "app_display s (xs @ ys) = app_display s xs @ app_display (gl_run s (app_gl xs)) ys"
  by (induction s xs rule: app_display.induct) simp_all

lemma app_display_map_GL [simp]: "app_display s (map GL cs) = []"
  by (induction cs arbitrary: s) simp_all

lemma gl_run_replicate_Suc:
  "gl_run s (concat (replicate (Suc k) cs)) = gl_run (gl_run s cs) (concat (replicate k cs))"
  by simp

lemma gl_run_snoc_replicate:
  "gl_run s (concat (replicate (Suc k) cs)) = gl_run (gl_run s (concat (replicate k cs))) cs"
proof -
  have "concat (replicate (Suc k) cs) = concat (replicate k cs) @ cs" by (induction k) auto
  then show ?thesis by (simp only: gl_run_append)
qed

lemma map_upt_first:
  "map (\<lambda>j. if j = 0 then a else c) [0..<k] = take k (a # replicate k c)"
  by (rule nth_equalityI) (auto simp: nth_Cons' min_def)

lemma app_display_loop:
  "app_display s (loop_events frame n) =
   map (\<lambda>k. screen_of (gl_run s (concat (replicate (Suc k) frame)))) [0..<n]"
proof (induction n arbitrary: s)
  case 0
  then show ?case by (simp add: loop_events_def)
next
  case (Suc n)
  have "app_display s (loop_events frame (Suc n)) =
        screen_of (gl_run s frame) # app_display (gl_run s frame) (loop_events frame n)"
    by (simp add: loop_events_def)
  also have "\<dots> = screen_of (gl_run s frame) #
      map (\<lambda>k. screen_of (gl_run s (concat (replicate (Suc (Suc k)) frame)))) [0..<n]"
    by (simp only: Suc.IH gl_run_replicate_Suc)
  also have "\<dots> = map (\<lambda>k. screen_of (gl_run s (concat (replicate (Suc k) frame)))) [0..<Suc n]"
    by (simp only: upt_conv_Cons [of 0 "Suc n"] map_Suc_upt [symmetric] list.map zero_less_Suc) simp
  finally show ?case .
qed

lemma app_gl_loop [simp]: "app_gl (loop_events frame n) = concat (replicate n frame)"
  by (induction n) (simp_all add: loop_events_def)

lemma app_prints_loop [simp]: "app_prints (loop_events frame n) = []"
proof -
  have "app_prints (map GL cs @ es) = app_prints es" for cs es
    by (induction cs) simp_all
  then show ?thesis by (induction n) (simp_all add: loop_events_def)
qed

text \<open>The shape of every run of the skeleton whose window opened.\<close>

lemma glfw_app_run:
  assumes "init_ok env" "window_ok env" "first_close (should_close env) 0 k"
  shows "glfw_app env width height title (Some (Inr (setup, frame))) =
         Some (Exited ([GlfwInit, GlfwCreateWindow width height title, GlfwMakeContextCurrent]
               @ setup @ loop_events frame k @ [GlfwTerminate]))"
  using assms event_loop_first_close [OF assms(3), of frame] by (simp add: glfw_app_def)

lemma glfw_app_returns_cases:
  assumes "glfw_app env width height title (Some (Inr (setup, frame))) = Some r"
  shows "(\<not> init_ok env \<and> r = Exited [GlfwInit])
       \<or> (init_ok env \<and> \<not> window_ok env \<and> r = Exited [GlfwInit, GlfwCreateWindow width height title, GlfwTerminate])
       \<or> (init_ok env \<and> window_ok env \<and> (\<exists>k. first_close (should_close env) 0 k \<and>
            r = Exited ([GlfwInit, GlfwCreateWindow width height title, GlfwMakeContextCurrent]
                 @ setup @ loop_events frame k @ [GlfwTerminate])))"
proof (cases "init_ok env \<and> window_ok env")
  case True
  with assms obtain loop where l: "event_loop (should_close env) frame 0 = Some loop"
    and r: "r = Exited ([GlfwInit, GlfwCreateWindow width height title, GlfwMakeContextCurrent] @ setup @ loop @ [GlfwTerminate])"
    by (auto simp: glfw_app_def split: Option.bind_splits)
  from event_loop_returns_closed [OF l] r True show ?thesis by auto
next
  case False
  with assms show ?thesis by (cases "init_ok env") (auto simp: glfw_app_def)
qed

lemma app_prints_map_GL [simp]: "app_prints (map GL cs) = []"
  by (induction cs) simp_all

lemma app_prints_append [simp]: "app_prints (xs @ ys) = app_prints xs @ app_prints ys"
  by (induction xs rule: app_prints.induct) simp_all

text \<open>Once the window is open, what a program prints is what its set-up prints: the loop
  prints nothing.\<close>

lemma glfw_app_prints:
  assumes "glfw_app env width height title (Some (Inr (setup, frame))) = Some r" "init_ok env" "window_ok env"
  shows "app_prints (app_events r) = app_prints setup"
  using glfw_app_returns_cases [OF assms(1)] assms(2,3) by auto

lemma glfw_app_terminates_iff:
  "glfw_app env width height title (Some (Inr (setup, frame))) \<noteq> None
   \<longleftrightarrow> \<not> init_ok env \<or> \<not> window_ok env \<or> (\<exists>k. should_close env k)"
proof
  assume "glfw_app env width height title (Some (Inr (setup, frame))) \<noteq> None"
  then obtain r where "glfw_app env width height title (Some (Inr (setup, frame))) = Some r" by blast
  from glfw_app_returns_cases [OF this] show "\<not> init_ok env \<or> \<not> window_ok env \<or> (\<exists>k. should_close env k)"
    by (auto simp: first_close_def)
next
  assume a: "\<not> init_ok env \<or> \<not> window_ok env \<or> (\<exists>k. should_close env k)"
  show "glfw_app env width height title (Some (Inr (setup, frame))) \<noteq> None"
  proof (cases "init_ok env \<and> window_ok env")
    case True
    with a obtain k where "should_close env k" by blast
    from first_close_exists [where close = "should_close env" and k = k and n = 0] this obtain k' where "first_close (should_close env) 0 k'" by auto
    from glfw_app_run [OF _ _ this] True show ?thesis by simp
  next
    case False
    then show ?thesis by (auto simp: glfw_app_def)
  qed
qed

subsection \<open>The projection set-up\<close>

lemma ortho_setup_run [gl_sem]:
  assumes "gl_open s = None" "0 < width" "0 < height"
  shows "gl_run s (ortho_setup width height) = s\<lparr>gl_viewport := (0, 0, width, height), gl_mode_sel := GL_MODELVIEW,
           gl_projection := (2 / of_int width, - 1, - (2 / of_int height), 1), gl_modelview := aff_id\<rparr>"
  using assms
  by (simp add: ortho_setup_def gl_set_matrix_def gl_cur_matrix_def aff_comp_def aff_id_def ortho_aff_def)

lemma ortho_setup_ready:
  "gl_open s = None \<Longrightarrow> 0 < width \<Longrightarrow> 0 < height \<Longrightarrow> ortho_ready (gl_run s (ortho_setup width height)) width height"
  by (simp add: ortho_setup_run ortho_ready_def)

lemma ortho_ready_window:
  "ortho_ready s width height \<Longrightarrow> 0 < width \<Longrightarrow> 0 < height \<Longrightarrow> gl_window s (x, y) = (x, of_int height - y)"
  by (simp add: ortho_ready_def gl_window_def viewport_apply_def aff_apply_def aff_id_def field_simps)

subsection \<open>Runs of the skeleton\<close>

lemma glfw_app_gl_calls:
  assumes "glfw_app env width height title (Some (Inr (setup, frame))) = Some r"
  shows "\<exists>k. app_gl (app_events r) = [] \<or> app_gl (app_events r) = app_gl setup @ concat (replicate k frame)"
  using glfw_app_returns_cases [OF assms] by auto

lemma glfw_app_no_gl_error:
  assumes "glfw_app env width height title (Some (Inr (setup, frame))) = Some r"
    and "gl_wf False (app_gl setup)" "gl_wf False frame"
  shows "gl_errors (gl_run (gl_initial width height) (app_gl (app_events r))) = []"
proof -
  obtain k where k: "app_gl (app_events r) = [] \<or> app_gl (app_events r) = app_gl setup @ concat (replicate k frame)"
    using glfw_app_gl_calls [OF assms(1)] by blast
  have "gl_wf False (app_gl setup @ concat (replicate k frame))"
    using assms(2,3) by (simp add: gl_wf_append gl_wf_replicate)
  then have "gl_errors (gl_run (gl_initial width height) (app_gl setup @ concat (replicate k frame))) = []"
    using gl_wf_run [of "gl_initial width height" "app_gl setup @ concat (replicate k frame)"]
    by (simp add: gl_initial_def)
  with k show ?thesis by (auto simp: gl_initial_def)
qed

text \<open>The screens of a run: one per loop iteration, each the state after the set-up and
  that many frames.\<close>

lemma glfw_app_screens:
  assumes "glfw_app env width height title (Some (Inr (setup, frame))) = Some r"
    and "app_display s setup = []"
  shows "\<exists>k. app_display s (app_events r) =
    map (\<lambda>j. screen_of (gl_run (gl_run s (app_gl setup)) (concat (replicate (Suc j) frame)))) [0..<k]"
proof -
  from glfw_app_returns_cases [OF assms(1)] show ?thesis
  proof (elim disjE conjE exE)
    fix k
    assume "r = Exited ([GlfwInit, GlfwCreateWindow width height title, GlfwMakeContextCurrent]
                 @ setup @ loop_events frame k @ [GlfwTerminate])"
    then show ?thesis using assms(2) by (auto simp: app_display_loop)
  qed (rule exI [of _ 0]; simp)+
qed

text \<open>A frame that starts with \<open>glClear\<close> and then sets the clear colour shows, in its first
  iteration, the clear colour current before the loop, and the one it sets afterwards.\<close>

lemma frame_backgrounds:
  assumes "gl_clear_free rest" "gl_wf False (glClear b # glClearColor cr cg cb ca # rest)" "gl_open s = None"
  shows "map (\<lambda>j. gl_background (gl_run s (concat (replicate (Suc j) (glClear b # glClearColor cr cg cb ca # rest))))) [0..<k]
         = take k (gl_clear_color s # replicate k (gl_clamp cr, gl_clamp cg, gl_clamp cb, gl_clamp ca))"
proof -
  let ?f = "glClear b # glClearColor cr cg cb ca # rest"
  let ?c = "(gl_clamp cr, gl_clamp cg, gl_clamp cb, gl_clamp ca)"
  have step: "gl_background (gl_run t ?f) = gl_clear_color t \<and> gl_clear_color (gl_run t ?f) = ?c
              \<and> gl_open (gl_run t ?f) = None" if "gl_open t = None" for t
    using that gl_run_clear_free [OF assms(1)] gl_wf_run [of t ?f] assms(2) by simp
  have opn: "gl_open (gl_run s (concat (replicate j ?f))) = None" for j
    using gl_wf_run [of s "concat (replicate j ?f)"] gl_wf_replicate [OF assms(2)] assms(3) by simp
  have bg: "gl_background (gl_run s (concat (replicate (Suc j) ?f))) = (if j = 0 then gl_clear_color s else ?c)" for j
  proof (cases j)
    case 0
    then show ?thesis using step [OF assms(3)] by simp
  next
    case (Suc i)
    have "gl_background (gl_run s (concat (replicate (Suc j) ?f)))
          = gl_clear_color (gl_run s (concat (replicate (Suc i) ?f)))"
      using step [OF opn [of "Suc i"]] unfolding Suc gl_run_snoc_replicate by blast
    also have "\<dots> = ?c"
      using step [OF opn [of i]] unfolding gl_run_snoc_replicate by blast
    finally show ?thesis using Suc by simp
  qed
  show ?thesis
    by (simp only: bg map_upt_first)
qed

text \<open>Frames that only draw keep the projection state of the set-up and end outside
  \<open>glBegin\<close>/\<open>glEnd\<close>, so a property of one frame run from such a state holds of every screen.\<close>

lemma frames_keep_state:
  assumes "gl_wf False frame" "gl_no_transform frame" "gl_open s = None"
  shows "gl_open (gl_run s (concat (replicate j frame))) = None
    \<and> gl_viewport (gl_run s (concat (replicate j frame))) = gl_viewport s
    \<and> gl_projection (gl_run s (concat (replicate j frame))) = gl_projection s
    \<and> gl_modelview (gl_run s (concat (replicate j frame))) = gl_modelview s"
proof -
  have "gl_no_transform (concat (replicate j frame))" using assms(2) by (induction j) simp_all
  with gl_run_no_transform [of "concat (replicate j frame)" s]
    gl_wf_run [of s "concat (replicate j frame)"] gl_wf_replicate [OF assms(1), of j] assms(3)
  show ?thesis by simp
qed

lemma glfw_app_screens_all:
  assumes run: "glfw_app env width height title (Some (Inr (setup, frame))) = Some r"
    and quiet: "app_display (gl_initial width height) setup = []"
    and wf: "gl_wf False frame" "gl_no_transform frame"
    and s1: "gl_open (gl_run (gl_initial width height) (app_gl setup)) = None"
    and frame: "\<And>t. gl_open t = None \<Longrightarrow> gl_viewport t = gl_viewport (gl_run (gl_initial width height) (app_gl setup))
        \<Longrightarrow> gl_projection t = gl_projection (gl_run (gl_initial width height) (app_gl setup))
        \<Longrightarrow> gl_modelview t = gl_modelview (gl_run (gl_initial width height) (app_gl setup))
        \<Longrightarrow> Q (screen_of (gl_run t frame))"
  shows "list_all Q (app_display (gl_initial width height) (app_events r))"
proof -
  let ?s = "gl_run (gl_initial width height) (app_gl setup)"
  obtain k where k: "app_display (gl_initial width height) (app_events r) =
      map (\<lambda>j. screen_of (gl_run ?s (concat (replicate (Suc j) frame)))) [0..<k]"
    using glfw_app_screens [OF run quiet] by blast
  have "Q (screen_of (gl_run ?s (concat (replicate (Suc j) frame))))" for j
    using frame frames_keep_state [OF wf s1, of j] unfolding gl_run_snoc_replicate by blast
  then show ?thesis by (simp add: k list_all_iff)
qed

text \<open>\<open>glClear\<close> before \<open>glClearColor\<close>: the first screen of a run is cleared to the
  context's default colour, every later one to the colour the frame sets.\<close>

lemma glfw_app_backgrounds:
  assumes run: "glfw_app env width height title (Some (Inr (setup, glClear b # glClearColor cr cg cb ca # rest))) = Some r"
    and quiet: "app_display (gl_initial width height) setup = []"
    and su: "gl_wf False (app_gl setup)" "gl_clear_free (app_gl setup)"
    and fr: "gl_wf False (glClear b # glClearColor cr cg cb ca # rest)" "gl_clear_free rest"
  shows "let scrs = app_display (gl_initial width height) (app_events r)
         in map fst scrs = take (length scrs) ((0, 0, 0, 0) # replicate (length scrs)
              (gl_clamp cr, gl_clamp cg, gl_clamp cb, gl_clamp ca))"
proof -
  let ?f = "glClear b # glClearColor cr cg cb ca # rest"
  let ?s = "gl_run (gl_initial width height) (app_gl setup)"
  obtain k where k: "app_display (gl_initial width height) (app_events r) =
      map (\<lambda>j. screen_of (gl_run ?s (concat (replicate (Suc j) ?f)))) [0..<k]"
    using glfw_app_screens [OF run quiet] by blast
  have s_open: "gl_open ?s = None"
    using gl_wf_run [of "gl_initial width height" "app_gl setup"] su(1) by (simp add: gl_initial_def)
  have s_clear: "gl_clear_color ?s = (0, 0, 0, 0)"
    using gl_run_clear_free [OF su(2), of "gl_initial width height"] by (simp add: gl_initial_def)
  have "map fst (map (\<lambda>j. screen_of (gl_run ?s (concat (replicate (Suc j) ?f)))) [0..<k])
      = map (\<lambda>j. gl_background (gl_run ?s (concat (replicate (Suc j) ?f)))) [0..<k]"
    by (simp add: screen_of_def)
  also have "\<dots> = take k ((0, 0, 0, 0) # replicate k (gl_clamp cr, gl_clamp cg, gl_clamp cb, gl_clamp ca))"
    using frame_backgrounds [OF fr(2) fr(1) s_open, of k] s_clear by simp
  finally show ?thesis by (simp add: k Let_def)
qed

lemma ortho_ready_pixel:
  "ortho_ready s width height \<Longrightarrow> 0 < width \<Longrightarrow> 0 < height \<Longrightarrow>
   gl_window s (gl_pixel p) = window_of_pixel height p"
  using ortho_ready_window [of s width height "of_int (fst p)" "of_int (snd p)"]
  by (simp add: gl_pixel_def window_of_pixel_def)

lemma ortho_ready_fields:
  "ortho_ready s width height \<Longrightarrow> gl_viewport t = gl_viewport s \<Longrightarrow> gl_projection t = gl_projection s
   \<Longrightarrow> gl_modelview t = gl_modelview s \<Longrightarrow> ortho_ready t width height"
  by (simp add: ortho_ready_def)

lemma prim_of_windows:
  "ortho_ready t width height \<Longrightarrow> 0 < width \<Longrightarrow> 0 < height \<Longrightarrow>
   map vx_window (prim_vertices (gl_prim_of t m (map gl_pixel pts))) = map (window_of_pixel height) pts"
  by (simp add: gl_prim_of_def ortho_ready_pixel)

lemma points_blocks_windows:
  assumes "gl_open t = None" "ortho_ready t width height" "0 < width" "0 < height"
  shows "map (map vx_window \<circ> prim_vertices)
           (gl_prims (gl_run t (concat (map (\<lambda>(ps, c). gl_points_block c ps) (map (\<lambda>(pts, c). (map gl_pixel pts, c)) data)))))
         = map (map vx_window \<circ> prim_vertices) (gl_prims t) @ map (\<lambda>(pts, c). map (window_of_pixel height) pts) data"
proof -
  have r: "ortho_ready (t\<lparr>gl_color := c\<rparr>) width height" for c
    using assms(2) by (simp add: ortho_ready_def)
  define xs where "xs = map (\<lambda>(pts, c). (map gl_pixel pts, c)) data"
  have run: "gl_prims (gl_run t (concat (map (\<lambda>(ps, c). gl_points_block c ps) xs)))
     = gl_prims t @ map (\<lambda>(ps, c). gl_prim_of (t\<lparr>gl_color := c\<rparr>) GL_POINTS ps) xs"
    using gl_run_points_blocks [OF assms(1), of xs] by simp
  show ?thesis
    unfolding xs_def [symmetric] run
    by (simp add: xs_def comp_def split_def prim_of_windows [OF r assms(3,4)])
qed

text \<open>Frames whose screen depends only on the point size they start with, and that leave a
  fixed point size behind: the first screen differs from all later ones.\<close>

lemma glfw_app_screens_seq:
  assumes run: "glfw_app env width height title (Some (Inr (setup, frame))) = Some r"
    and quiet: "app_display (gl_initial width height) setup = []"
    and wf: "gl_wf False frame" "gl_no_transform frame"
    and s1: "gl_open (gl_run (gl_initial width height) (app_gl setup)) = None"
    and frame: "\<And>t. gl_open t = None \<Longrightarrow> gl_viewport t = gl_viewport (gl_run (gl_initial width height) (app_gl setup))
        \<Longrightarrow> gl_projection t = gl_projection (gl_run (gl_initial width height) (app_gl setup))
        \<Longrightarrow> gl_modelview t = gl_modelview (gl_run (gl_initial width height) (app_gl setup))
        \<Longrightarrow> F (screen_of (gl_run t frame)) = G (gl_point_size t) \<and> gl_point_size (gl_run t frame) = p"
  shows "let scrs = app_display (gl_initial width height) (app_events r)
         in map F scrs = take (length scrs)
              (G (gl_point_size (gl_run (gl_initial width height) (app_gl setup))) # replicate (length scrs) (G p))"
proof -
  let ?s = "gl_run (gl_initial width height) (app_gl setup)"
  obtain k where k: "app_display (gl_initial width height) (app_events r) =
      map (\<lambda>j. screen_of (gl_run ?s (concat (replicate (Suc j) frame)))) [0..<k]"
    using glfw_app_screens [OF run quiet] by blast
  have step: "F (screen_of (gl_run (gl_run ?s (concat (replicate j frame))) frame))
        = G (gl_point_size (gl_run ?s (concat (replicate j frame))))
      \<and> gl_point_size (gl_run (gl_run ?s (concat (replicate j frame))) frame) = p" for j
    using frame frames_keep_state [OF wf s1, of j] by blast
  have "F (screen_of (gl_run ?s (concat (replicate (Suc j) frame)))) = (if j = 0 then G (gl_point_size ?s) else G p)" for j
  proof (cases j)
    case 0
    then show ?thesis using step [of 0] by simp
  next
    case (Suc i)
    then show ?thesis using step [of j] step [of i] by (simp only: gl_run_snoc_replicate) simp
  qed
  then have "map F (map (\<lambda>j. screen_of (gl_run ?s (concat (replicate (Suc j) frame)))) [0..<k])
      = map (\<lambda>j. if j = 0 then G (gl_point_size ?s) else G p) [0..<k]"
    by simp
  then show ?thesis by (simp add: k Let_def map_upt_first)
qed

lemma ortho_ready_upd [simp]:
  "ortho_ready (s\<lparr>gl_color := c\<rparr>) width height = ortho_ready s width height"
  "ortho_ready (s\<lparr>gl_prims := ps\<rparr>) width height = ortho_ready s width height"
  "ortho_ready (s\<lparr>gl_point_size := v\<rparr>) width height = ortho_ready s width height"
  "ortho_ready (s\<lparr>gl_open := x\<rparr>) width height = ortho_ready s width height"
  by (simp_all add: ortho_ready_def)

lemma prim_of_decode:
  assumes "ortho_ready t width height" "0 < width" "0 < height"
  shows "map (pixel_of_window height \<circ> vx_window) (prim_vertices (gl_prim_of t m (map gl_pixel pts))) = map gl_pixel pts
    \<and> map vx_pos (prim_vertices (gl_prim_of t m (map gl_pixel pts))) = map gl_pixel pts"
proof -
  have "map vx_window (prim_vertices (gl_prim_of t m (map gl_pixel pts))) = map (window_of_pixel height) pts"
    by (rule prim_of_windows [OF assms])
  then have "map (pixel_of_window height \<circ> vx_window) (prim_vertices (gl_prim_of t m (map gl_pixel pts)))
      = map (pixel_of_window height \<circ> window_of_pixel height) pts"
    by (simp only: map_map [symmetric])
  also have "\<dots> = map gl_pixel pts"
    by (simp add: pixel_of_window_def window_of_pixel_def gl_pixel_def)
  finally show ?thesis by (simp add: gl_prim_of_def)
qed


subsection \<open>Everything drawn lies in the window\<close>

text \<open>A frame that starts with \<open>glClear\<close> and sends only vertices inside the window
  rectangle draws, under the projection set-up, only inside the window.\<close>

lemma ortho_ready_in_window:
  assumes "ortho_ready s width height" "0 < width" "0 < height"
    "0 \<le> fst p \<and> fst p \<le> of_int width \<and> 0 \<le> snd p \<and> snd p \<le> of_int height"
  shows "in_window width height (gl_window s p)"
  using ortho_ready_window [OF assms(1-3), of "fst p" "snd p"] assms(4) by (simp add: in_window_def)

lemma glfw_app_visible:
  assumes run: "glfw_app env width height title (Some (Inr (setup, glClear b # rest))) = Some r"
    and quiet: "app_display (gl_initial width height) setup = []"
    and wf: "gl_wf False (glClear b # rest)" "gl_no_transform (glClear b # rest)"
    and s1: "gl_open (gl_run (gl_initial width height) (app_gl setup)) = None"
    and ready: "ortho_ready (gl_run (gl_initial width height) (app_gl setup)) width height" "0 < width" "0 < height"
    and args: "list_all (\<lambda>p. 0 \<le> fst p \<and> fst p \<le> of_int width \<and> 0 \<le> snd p \<and> snd p \<le> of_int height) (gl_vertex_args rest)"
  shows "drawn_in_window width height (app_display (gl_initial width height) (app_events r))"
  unfolding drawn_in_window_def
proof (rule glfw_app_screens_all [OF run quiet wf s1])
  fix t :: gl_state
  let ?s = "gl_run (gl_initial width height) (app_gl setup)"
  assume t: "gl_open t = None" "gl_viewport t = gl_viewport ?s" "gl_projection t = gl_projection ?s"
    "gl_modelview t = gl_modelview ?s"
  define t' where "t' = gl_exec t (glClear b)"
  have o: "gl_open t' = None" "gl_prims t' = []" using t(1) by (simp_all add: t'_def)
  then have d: "gl_drawn_in (in_window width height) t'" by (simp add: gl_drawn_in_def)
  have "gl_window t' = gl_window ?s" using t(1-4) by (intro gl_window_fields) (simp_all add: t'_def)
  then have "list_all (\<lambda>p. in_window width height (gl_window t' p)) (gl_vertex_args rest)"
    using args ortho_ready_in_window [OF ready] by (simp add: list_all_iff)
  from gl_drawn_in_run [OF d _ this] wf(2)
  have "gl_drawn_in (in_window width height) (gl_run t' rest)" by (simp add: gl_no_transform_def)
  then show "list_all (\<lambda>pr. list_all (\<lambda>v. in_window width height (vx_window v)) (prim_vertices pr))
      (snd (screen_of (gl_run t (glClear b # rest))))"
    by (simp add: gl_drawn_in_def screen_of_def t'_def)
qed

end
