(* ===== verification/LineGraph.thy ===== *)
theory LineGraph
  imports Glfw Bresenham DDA
begin

text \<open>
  The line-graph program \<open>src/line_graph.py\<close>: its own copies of the two line
  rasterisers (\<open>lg_bresenham_line\<close>, \<open>lg_dda_line\<close>, textually the functions of
  \<open>src/bresenham.py\<close> and \<open>src/DDA.py\<close> and proved equal to them), the
  coordinate normaliser \<open>normalize_data\<close>, the polyline builder
  \<open>generate_graph_lines\<close> and the part of \<open>main\<close> that connects them
  (\<open>line_graph_main\<close>).  \<open>normalize_data\<close> returns two shapes in Python, \<open>[]\<close> for
  an empty dataset and a pair (points, bounds) otherwise; here they are the two
  constructors of \<open>normalize_result\<close>, and the unpacking \<open>normalized_points, bounds =
  ...\<close> in \<open>main\<close> raises \<open>ValueError\<close> on the first.  Data coordinates are reals,
  window sizes and margins Python ints, \<open>int()\<close> is \<open>py_int\<close> (truncation) and
  \<open>min\<close>/\<open>max\<close> of a list are \<open>py_min\<close>/\<open>py_max\<close>.  The loop of
  \<open>generate_graph_lines\<close> over \<open>range(len(data_points) - 1)\<close> is abstracted by
  \<open>graph_segments\<close>, the recursion over consecutive pairs.
\<close>

type_synonym bounds = "real \<times> real \<times> real \<times> real"

datatype normalize_result = NoData | Normalized "point list" bounds

definition lg_bresenham_line :: "int \<Rightarrow> int \<Rightarrow> int \<Rightarrow> int \<Rightarrow> point list" where
  "lg_bresenham_line x1 y1 x2 y2 =
     (let dx = \<bar>x2 - x1\<bar>; dy = \<bar>y2 - y1\<bar>;
          x_step = (if x2 > x1 then 1 else -1);
          y_step = (if y2 > y1 then 1 else -1)
      in if dx > dy
         then bres_x_loop (nat (dx + 1)) dx dy x_step y_step x1 y1 (2 * dy - dx)
         else bres_y_loop (nat (dy + 1)) dx dy x_step y_step x1 y1 (2 * dx - dy))"

definition lg_dda_line :: "int \<Rightarrow> int \<Rightarrow> int \<Rightarrow> int \<Rightarrow> point list" where
  "lg_dda_line x1 y1 x2 y2 =
     (let dx = x2 - x1; dy = y2 - y1; steps = max (\<bar>dx\<bar>) (\<bar>dy\<bar>)
      in if steps = 0 then [(x1, y1)]
         else (let x_inc = real_of_int dx / real_of_int steps;
                   y_inc = real_of_int dy / real_of_int steps
               in dda_loop (nat (py_int (of_int steps)) + 1) (real_of_int x1) (real_of_int y1) x_inc y_inc))"

definition py_min :: "real list \<Rightarrow> real" where
  "py_min xs = fold min (tl xs) (hd xs)"

definition py_max :: "real list \<Rightarrow> real" where
  "py_max xs = fold max (tl xs) (hd xs)"

definition normalize_point ::
  "int \<Rightarrow> int \<Rightarrow> int \<Rightarrow> int \<Rightarrow> real \<Rightarrow> real \<Rightarrow> real \<Rightarrow> real \<Rightarrow> real \<times> real \<Rightarrow> point" where
  "normalize_point height margin draw_width draw_height x_min y_min x_range y_range =
     (\<lambda>(x, y). (py_int (of_int margin + ((x - x_min) / x_range) * of_int draw_width),
                py_int (of_int (height - margin) - ((y - y_min) / y_range) * of_int draw_height)))"

definition normalize_data :: "(real \<times> real) list \<Rightarrow> int \<Rightarrow> int \<Rightarrow> int \<Rightarrow> normalize_result" where
  "normalize_data data width height margin =
     (if data = [] then NoData
      else
        (let x_values = map fst data; y_values = map snd data;
             x_min = py_min x_values; x_max = py_max x_values;
             y_min = py_min y_values; y_max = py_max y_values;
             x_range = (if x_max \<noteq> x_min then x_max - x_min else 1);
             y_range = (if y_max \<noteq> y_min then y_max - y_min else 1);
             draw_width = width - 2 * margin; draw_height = height - 2 * margin
         in Normalized
              (map (normalize_point height margin draw_width draw_height x_min y_min x_range y_range) data)
              (x_min, x_max, y_min, y_max)))"

definition generate_graph_lines :: "point list \<Rightarrow> string \<Rightarrow> point list" where
  "generate_graph_lines data_points algorithm =
     (let line_func = (if algorithm = ''bresenham'' then lg_bresenham_line else lg_dda_line)
      in concat (map (\<lambda>i. case data_points ! i of (x1, y1) \<Rightarrow>
                            case data_points ! (i + 1) of (x2, y2) \<Rightarrow> line_func x1 y1 x2 y2)
                   [0..<length data_points - 1]))"

definition line_graph_main ::
  "(real \<times> real) list \<Rightarrow> int \<Rightarrow> int \<Rightarrow> int \<Rightarrow> string \<Rightarrow> py_error + point list \<times> bounds \<times> point list" where
  "line_graph_main data width height margin algorithm =
     (case normalize_data data width height margin of
        NoData \<Rightarrow> Inl ValueError
      | Normalized normalized_points bounds \<Rightarrow>
          Inr (normalized_points, bounds, generate_graph_lines normalized_points algorithm))"

text \<open>The clamped range of \<open>normalize_data\<close> (lines \<open>x_range = ...\<close>, \<open>y_range = ...\<close>).\<close>

definition data_range :: "real \<Rightarrow> real \<Rightarrow> real" where
  "data_range lo hi = (if hi \<noteq> lo then hi - lo else 1)"

text \<open>The loop of \<open>generate_graph_lines\<close> as a recursion over consecutive data points.\<close>

fun graph_segments :: "(int \<Rightarrow> int \<Rightarrow> int \<Rightarrow> int \<Rightarrow> point list) \<Rightarrow> point list \<Rightarrow> point list" where
  "graph_segments f (p # q # rest) = f (fst p) (snd p) (fst q) (snd q) @ graph_segments f (q # rest)"
| "graph_segments f _ = []"

text \<open>The drawing routines of the program and its \<open>main()\<close>.  \<open>draw_grid\<close> divides by its
  \<open>divisions\<close> argument inside its loops, so a zero raises \<open>ZeroDivisionError\<close> after the
  three calls before the loop (\<open>Inl\<close>, with those calls).  The dataset dictionaries are the
  record \<open>dataset\<close> (their coordinates are Python ints); \<open>lg_main\<close> selects
  \<open>datasets[1]\<close> as the program does.  \<open>main()\<close> passes \<open>divisions=10\<close>; the error branch
  of \<open>lg_main\<close> for a zero count crashes in the first frame, as the program would if it
  entered its loop.\<close>

definition lg_draw_points :: "point list \<Rightarrow> rgb \<Rightarrow> gl_cmd list" where
  "lg_draw_points points color = [gl_color3 color, glBegin GL_POINTS] @ gl_vertices (map gl_pixel points) @ [glEnd]"

definition lg_draw_axes :: "int \<Rightarrow> int \<Rightarrow> int \<Rightarrow> gl_cmd list" where
  "lg_draw_axes width height margin =
     [glColor3f 0.5 0.5 0.5, glLineWidth 1, glBegin GL_LINES,
      glVertex2f (of_int margin) (of_int (height - margin)), glVertex2f (of_int (width - margin)) (of_int (height - margin)),
      glVertex2f (of_int margin) (of_int margin), glVertex2f (of_int margin) (of_int (height - margin)), glEnd]"

definition lg_draw_data_points_markers :: "point list \<Rightarrow> rgb \<Rightarrow> gl_cmd list" where
  "lg_draw_data_points_markers points color =
     [gl_color3 color, glPointSize 8, glBegin GL_POINTS] @ gl_vertices (map gl_pixel points) @ [glEnd]"

definition lg_draw_grid :: "int \<Rightarrow> int \<Rightarrow> int \<Rightarrow> int \<Rightarrow> (py_error \<times> gl_cmd list) + gl_cmd list" where
  "lg_draw_grid width height margin divisions =
     (let draw_width = width - 2 * margin; draw_height = height - 2 * margin;
          before = [glColor3f 0.2 0.2 0.2, glLineWidth 1, glBegin GL_LINES]
      in if divisions = 0 then Inl (ZeroDivisionError, before)
         else Inr (before
           @ concat (map (\<lambda>i. let x = of_int margin + (of_int draw_width / of_int divisions) * of_nat i
                              in [glVertex2f x (of_int margin), glVertex2f x (of_int (height - margin))])
                       [0..<nat (divisions + 1)])
           @ concat (map (\<lambda>i. let y = of_int margin + (of_int draw_height / of_int divisions) * of_nat i
                              in [glVertex2f (of_int margin) y, glVertex2f (of_int (width - margin)) y])
                       [0..<nat (divisions + 1)])
           @ [glEnd]))"

record dataset =
  ds_name :: string
  ds_data :: "(int \<times> int) list"
  ds_algorithm :: string
  ds_color :: rgb

definition lg_datasets :: "dataset list" where
  "lg_datasets =
     [\<lparr>ds_name = ''Sales Data (Bresenham)'',
       ds_data = [(1, 20), (2, 35), (3, 30), (4, 50), (5, 45), (6, 60), (7, 55), (8, 70), (9, 75), (10, 85)],
       ds_algorithm = ''bresenham'', ds_color = (0.2, 0.8, 1)\<rparr>,
      \<lparr>ds_name = ''Temperature Data (DDA)'',
       ds_data = [(1, 15), (2, 18), (3, 22), (4, 25), (5, 28), (6, 32), (7, 30), (8, 27), (9, 23), (10, 20)],
       ds_algorithm = ''dda'', ds_color = (1, 0.5, 0.2)\<rparr>]"

definition lg_reports :: "(int \<times> int) list \<Rightarrow> app_event list" where
  "lg_reports data =
     map Print (map (\<lambda>(i, (x, y)). ''  Point '' @ py_str (int i) @ '': ('' @ py_str x @ '', '' @ py_str y @ '')'')
       (zip [1..<length data + 1] data))"

definition lg_frame :: "int \<Rightarrow> int \<Rightarrow> int \<Rightarrow> gl_cmd list \<Rightarrow> point list \<Rightarrow> point list \<Rightarrow> rgb \<Rightarrow> gl_cmd list" where
  "lg_frame width height margin grid graph_points normalized_points color =
     [glClear GL_COLOR_BUFFER_BIT, glClearColor 0.05 0.05 0.1 1] @ grid @ lg_draw_axes width height margin
     @ lg_draw_points graph_points color @ lg_draw_data_points_markers normalized_points (1, 0, 0)"

definition lg_main :: "glfw_env \<Rightarrow> app_result option" where
  "lg_main env =
     (let width = 1000; height = 700; margin = 80; current_dataset = 1;
          dataset = lg_datasets ! current_dataset; setup = map GL (ortho_setup width height)
      in glfw_app env width height ''Line Graph - DDA/Bresenham Algorithm''
           (Some (case line_graph_main (map (\<lambda>(x, y). (of_int x, of_int y)) (ds_data dataset)) width height margin
                         (ds_algorithm dataset) of
                    Inl e \<Rightarrow> Inl (e, setup)
                  | Inr (normalized_points, bounds, graph_points) \<Rightarrow>
                      (let prints = setup @ lg_reports (ds_data dataset) @ [GL (glPointSize 2)]
                       in case lg_draw_grid width height margin 10 of
                            Inl (e, before) \<Rightarrow>
                              Inl (e, prints @ map GL ([glClear GL_COLOR_BUFFER_BIT, glClearColor 0.05 0.05 0.1 1] @ before))
                          | Inr grid \<Rightarrow>
                              Inr (prints, lg_frame width height margin grid graph_points normalized_points (ds_color dataset))))))"

subsection \<open>The copied rasterisers\<close>

lemma lg_lines_eq: "lg_bresenham_line = bresenham_line" "lg_dda_line = dda_line"
  by (simp_all add: fun_eq_iff lg_bresenham_line_def bresenham_line_def lg_dda_line_def dda_line_def Let_def)

lemma bresenham_line_nonempty: "bresenham_line x1 y1 x2 y2 \<noteq> []"
  by (simp add: bresenham_line_eq_ref bresenham_ref_def Let_def)

lemma dda_line_nonempty: "dda_line x1 y1 x2 y2 \<noteq> []"
  by (simp add: dda_line_eq_ref dda_ref_def Let_def)

lemma line_funcs_shape:
  "bresenham_line x1 y1 x2 y2 \<noteq> [] \<and> hd (bresenham_line x1 y1 x2 y2) = (x1, y1)
     \<and> last (bresenham_line x1 y1 x2 y2) = (x2, y2) \<and> connected (bresenham_line x1 y1 x2 y2)"
  "dda_line x1 y1 x2 y2 \<noteq> [] \<and> hd (dda_line x1 y1 x2 y2) = (x1, y1)
     \<and> last (dda_line x1 y1 x2 y2) = (x2, y2) \<and> connected (dda_line x1 y1 x2 y2)"
  using bresenham_hd_last [of x1 y1 x2 y2] bresenham_line_connected [of x1 y1 x2 y2]
    dda_hd_last [of x1 y1 x2 y2] dda_line_connected [of x1 y1 x2 y2]
    bresenham_line_nonempty [of x1 y1 x2 y2] dda_line_nonempty [of x1 y1 x2 y2]
  by simp_all


subsection \<open>Polyline structure and normalisation lemmas\<close>

lemma generate_graph_lines_segments:
  "generate_graph_lines pts algorithm =
     graph_segments (if algorithm = ''bresenham'' then bresenham_line else dda_line) pts"
proof -
  have "concat (map (\<lambda>i. case pts ! i of (x1, y1) \<Rightarrow> case pts ! (i + 1) of (x2, y2) \<Rightarrow> f x1 y1 x2 y2)
          [0..<length pts - 1]) = graph_segments f pts" for f :: "int \<Rightarrow> int \<Rightarrow> int \<Rightarrow> int \<Rightarrow> point list"
  proof (induction f pts rule: graph_segments.induct)
    case (1 f p q rest)
    have "[0..<length (p # q # rest) - 1] = 0 # map Suc [0..<length (q # rest) - 1]"
      by (simp add: map_Suc_upt upt_conv_Cons del: upt_Suc)
    then show ?case using "1.IH" by (simp add: comp_def split_def del: upt_Suc)
  qed auto
  then show ?thesis by (simp add: generate_graph_lines_def lg_lines_eq)
qed

lemma graph_segments_shape:
  assumes f: "\<And>a b c d. f a b c d \<noteq> [] \<and> hd (f a b c d) = (a, b) \<and> last (f a b c d) = (c, d) \<and> connected (f a b c d)"
  shows "2 \<le> length pts \<Longrightarrow> graph_segments f pts \<noteq> [] \<and> hd (graph_segments f pts) = hd pts
    \<and> last (graph_segments f pts) = last pts \<and> connected (graph_segments f pts) \<and> set pts \<subseteq> set (graph_segments f pts)"
proof (induction pts rule: induct_list012)
  case (3 p q rest)
  let ?s = "f (fst p) (snd p) (fst q) (snd q)"
  have s: "?s \<noteq> []" "hd ?s = p" "last ?s = q" "connected ?s" using f [of "fst p" "snd p" "fst q" "snd q"] by simp_all
  have "p \<in> set ?s" "q \<in> set ?s" using s(1-3) hd_in_set last_in_set by metis+
  show ?case
  proof (cases rest)
    case Nil
    with s \<open>p \<in> set ?s\<close> \<open>q \<in> set ?s\<close> show ?thesis by simp
  next
    case (Cons r rest')
    then have IH: "graph_segments f (q # rest) \<noteq> [] \<and> hd (graph_segments f (q # rest)) = q
      \<and> last (graph_segments f (q # rest)) = last (q # rest) \<and> connected (graph_segments f (q # rest))
      \<and> set (q # rest) \<subseteq> set (graph_segments f (q # rest))"
      using "3.IH"(2) by simp
    with s \<open>p \<in> set ?s\<close> Cons show ?thesis by (auto simp: connected_append)
  qed
qed simp_all


lemma py_min_Min: "xs \<noteq> [] \<Longrightarrow> py_min xs = Min (set xs)"
  by (cases xs) (simp, simp only: py_min_def list.sel Min.set_eq_fold)

lemma py_max_Max: "xs \<noteq> [] \<Longrightarrow> py_max xs = Max (set xs)"
  by (cases xs) (simp, simp only: py_max_def list.sel Max.set_eq_fold)

lemma data_range_pos: "lo \<le> hi \<Longrightarrow> 0 < data_range lo hi"
  by (simp add: data_range_def)

lemma ratio_unit:
  assumes "lo \<le> v" "v \<le> hi"
  shows "0 \<le> (v - lo) / data_range lo hi \<and> (v - lo) / data_range lo hi \<le> 1"
proof (cases "hi = lo")
  case True
  with assms show ?thesis by (simp add: data_range_def)
next
  case False
  with assms have "0 < hi - lo" by simp
  with assms False show ?thesis by (simp add: data_range_def divide_le_eq_1)
qed

lemma ratio_mono:
  assumes "lo \<le> hi" "v \<le> v'"
  shows "(v - lo) / data_range lo hi \<le> (v' - lo) / data_range lo hi"
  using assms data_range_pos [OF assms(1)] by (simp add: divide_right_mono)

lemma normalize_data_eq:
  assumes "data \<noteq> []"
  shows "normalize_data data width height margin =
    Normalized (map (normalize_point height margin (width - 2 * margin) (height - 2 * margin)
                  (Min (fst ` set data)) (Min (snd ` set data))
                  (data_range (Min (fst ` set data)) (Max (fst ` set data)))
                  (data_range (Min (snd ` set data)) (Max (snd ` set data)))) data)
      (Min (fst ` set data), Max (fst ` set data), Min (snd ` set data), Max (snd ` set data))"
  using assms by (simp add: normalize_data_def py_min_Min py_max_Max data_range_def Let_def)

lemma data_in_bounds:
  assumes "(x, y) \<in> set data"
  shows "Min (fst ` set data) \<le> x \<and> x \<le> Max (fst ` set data) \<and> Min (snd ` set data) \<le> y \<and> y \<le> Max (snd ` set data)"
proof -
  have "x \<in> fst ` set data" "y \<in> snd ` set data" using assms by force+
  then show ?thesis by simp
qed

lemma normalize_point_box:
  fixes height margin dw dh :: int
  assumes "x_min \<le> x" "x \<le> x_max" "y_min \<le> y" "y \<le> y_max" "0 \<le> dw" "0 \<le> dh"
  defines "p \<equiv> normalize_point height margin dw dh x_min y_min (data_range x_min x_max) (data_range y_min y_max) (x, y)"
  shows "margin \<le> fst p \<and> fst p \<le> margin + dw \<and> height - margin - dh \<le> snd p \<and> snd p \<le> height - margin"
proof -
  define rx where "rx = (x - x_min) / data_range x_min x_max"
  define ry where "ry = (y - y_min) / data_range y_min y_max"
  have p: "p = (py_int (of_int margin + rx * of_int dw), py_int (of_int (height - margin) - ry * of_int dh))"
    unfolding p_def normalize_point_def rx_def ry_def by simp
  have "0 \<le> rx" "rx \<le> 1" "0 \<le> ry" "ry \<le> 1"
    using ratio_unit [of x_min x x_max] ratio_unit [of y_min y y_max] assms(1-4)
    unfolding rx_def ry_def by simp_all
  then have "0 \<le> rx * of_int dw" "rx * of_int dw \<le> of_int dw" "0 \<le> ry * of_int dh" "ry * of_int dh \<le> of_int dh"
    using assms(5,6) by (simp_all add: mult_left_le_one_le)
  then have "margin \<le> py_int (of_int margin + rx * of_int dw) \<and> py_int (of_int margin + rx * of_int dw) \<le> margin + dw"
    "height - margin - dh \<le> py_int (of_int (height - margin) - ry * of_int dh)
       \<and> py_int (of_int (height - margin) - ry * of_int dh) \<le> height - margin"
    by (intro py_int_between; simp)+
  then show ?thesis unfolding p by simp
qed

lemma normalize_point_mono:
  fixes height margin dw dh :: int
  assumes "x_min \<le> x_max" "y_min \<le> y_max" "0 \<le> dw" "0 \<le> dh"
  shows "x \<le> x' \<Longrightarrow>
      fst (normalize_point height margin dw dh x_min y_min (data_range x_min x_max) (data_range y_min y_max) (x, y))
      \<le> fst (normalize_point height margin dw dh x_min y_min (data_range x_min x_max) (data_range y_min y_max) (x', y'))"
    and "y \<le> y' \<Longrightarrow>
      snd (normalize_point height margin dw dh x_min y_min (data_range x_min x_max) (data_range y_min y_max) (x', y'))
      \<le> snd (normalize_point height margin dw dh x_min y_min (data_range x_min x_max) (data_range y_min y_max) (x, y))"
proof -
  assume "x \<le> x'"
  then have "(x - x_min) / data_range x_min x_max * of_int dw \<le> (x' - x_min) / data_range x_min x_max * of_int dw"
    by (rule mult_right_mono [OF ratio_mono [OF assms(1)]]) (simp add: assms(3))
  then show "fst (normalize_point height margin dw dh x_min y_min (data_range x_min x_max) (data_range y_min y_max) (x, y))
      \<le> fst (normalize_point height margin dw dh x_min y_min (data_range x_min x_max) (data_range y_min y_max) (x', y'))"
    unfolding normalize_point_def by (simp add: py_int_mono)
next
  assume "y \<le> y'"
  then have "(y - y_min) / data_range y_min y_max * of_int dh \<le> (y' - y_min) / data_range y_min y_max * of_int dh"
    by (rule mult_right_mono [OF ratio_mono [OF assms(2)]]) (simp add: assms(4))
  then show "snd (normalize_point height margin dw dh x_min y_min (data_range x_min x_max) (data_range y_min y_max) (x', y'))
      \<le> snd (normalize_point height margin dw dh x_min y_min (data_range x_min x_max) (data_range y_min y_max) (x, y))"
    unfolding normalize_point_def by (simp add: py_int_mono)
qed

lemma normalize_point_extreme:
  fixes height margin dw dh :: int
  shows "fst (normalize_point height margin dw dh x_min y_min (data_range x_min x_max) yr (x_min, y)) = margin"
    and "snd (normalize_point height margin dw dh x_min y_min xr (data_range y_min y_max) (x, y_min)) = height - margin"
    and "x_min \<noteq> x_max \<Longrightarrow> fst (normalize_point height margin dw dh x_min y_min (data_range x_min x_max) yr (x_max, y)) = margin + dw"
    and "y_min \<noteq> y_max \<Longrightarrow> snd (normalize_point height margin dw dh x_min y_min xr (data_range y_min y_max) (x, y_max)) = height - margin - dh"
proof -
  have i: "py_int (of_int k) = k" for k by simp
  show "fst (normalize_point height margin dw dh x_min y_min (data_range x_min x_max) yr (x_min, y)) = margin"
    by (simp add: normalize_point_def)
  show "snd (normalize_point height margin dw dh x_min y_min xr (data_range y_min y_max) (x, y_min)) = height - margin"
    using i [of "height - margin"] by (simp add: normalize_point_def)
  show "x_min \<noteq> x_max \<Longrightarrow> fst (normalize_point height margin dw dh x_min y_min (data_range x_min x_max) yr (x_max, y)) = margin + dw"
    using i [of "margin + dw"] by (simp add: normalize_point_def data_range_def)
  show "y_min \<noteq> y_max \<Longrightarrow> snd (normalize_point height margin dw dh x_min y_min xr (data_range y_min y_max) (x, y_max)) = height - margin - dh"
    using i [of "height - margin - dh"] by (simp add: normalize_point_def data_range_def)
qed

subsection \<open>Properties of the line graph\<close>

text \<open>C27: error path.  \<open>main\<close> unpacks the result of \<open>normalize_data\<close> into a pair;
  for an empty dataset \<open>normalize_data\<close> returns \<open>[]\<close> and the unpacking raises
  \<open>ValueError\<close>.  This is the only error: every non-empty dataset gets through.\<close>

theorem line_graph_main_error:
  "line_graph_main [] width height margin algorithm = Inl ValueError
   \<and> (isl (line_graph_main data width height margin algorithm) \<longleftrightarrow> data = [])"
  by (simp add: line_graph_main_def normalize_data_def Let_def)

text \<open>\<open>normalize_data\<close> returns no points exactly for the empty dataset, and
  otherwise one pixel per data point.\<close>

theorem normalize_data_length:
  "(normalize_data data width height margin = NoData \<longleftrightarrow> data = [])
   \<and> (normalize_data data width height margin = Normalized pts b \<longrightarrow> length pts = length data)"
  by (auto simp: normalize_data_def Let_def)

lemma normalize_data_box:
  assumes "2 * margin \<le> width" "2 * margin \<le> height"
    and "normalize_data data width height margin = Normalized pts b"
  shows "\<forall>(px, py) \<in> set pts. margin \<le> px \<and> px \<le> width - margin \<and> margin \<le> py \<and> py \<le> height - margin"
proof -
  have ne: "data \<noteq> []" using assms(3) by (auto simp: normalize_data_def)
  have "margin \<le> fst q \<and> fst q \<le> width - margin \<and> margin \<le> snd q \<and> snd q \<le> height - margin"
    if "q \<in> set pts" for q
  proof -
    have "q \<in> set (map (normalize_point height margin (width - 2 * margin) (height - 2 * margin)
                  (Min (fst ` set data)) (Min (snd ` set data))
                  (data_range (Min (fst ` set data)) (Max (fst ` set data)))
                  (data_range (Min (snd ` set data)) (Max (snd ` set data)))) data)"
      using that assms(3) unfolding normalize_data_eq [OF ne] by simp
    then obtain d where d: "d \<in> set data"
      and qd: "q = normalize_point height margin (width - 2 * margin) (height - 2 * margin)
                  (Min (fst ` set data)) (Min (snd ` set data))
                  (data_range (Min (fst ` set data)) (Max (fst ` set data)))
                  (data_range (Min (snd ` set data)) (Max (snd ` set data))) d"
      unfolding set_map by blast
    obtain x y where "d = (x, y)" by fastforce
    with d qd have xy: "(x, y) \<in> set data"
      and q: "q = normalize_point height margin (width - 2 * margin) (height - 2 * margin)
                  (Min (fst ` set data)) (Min (snd ` set data))
                  (data_range (Min (fst ` set data)) (Max (fst ` set data)))
                  (data_range (Min (snd ` set data)) (Max (snd ` set data))) (x, y)" by simp_all
    show ?thesis
      using normalize_point_box [OF data_in_bounds [OF xy, THEN conjunct1] data_in_bounds [OF xy, THEN conjunct2, THEN conjunct1]
          data_in_bounds [OF xy, THEN conjunct2, THEN conjunct2, THEN conjunct1]
          data_in_bounds [OF xy, THEN conjunct2, THEN conjunct2, THEN conjunct2],
          where dw = "width - 2 * margin" and dh = "height - 2 * margin" and height = height and margin = margin]
        assms(1,2) unfolding q by simp
  qed
  then show ?thesis by auto
qed

text \<open>C29: bounds.  When the margins fit in the window every normalised pixel lies in
  the drawing area \<open>[margin, width - margin] \<times> [margin, height - margin]\<close>, whatever the
  data (the zero-range clamp included).\<close>

theorem normalize_data_in_box:
  assumes "2 * margin \<le> width" "2 * margin \<le> height"
    and "normalize_data data width height margin = Normalized pts b"
  shows "\<forall>(px, py) \<in> set pts. margin \<le> px \<and> px \<le> width - margin \<and> margin \<le> py \<and> py \<le> height - margin"
  by (rule normalize_data_box [OF assms])

text \<open>The degenerate dataset of one point does not divide by zero: both ranges are
  clamped to 1 and the point lands at \<open>(margin, height - margin)\<close>.\<close>

theorem normalize_single_point:
  "normalize_data [(a, b)] width height margin = Normalized [(margin, height - margin)] (a, a, b, b)"
proof -
  have "py_int (of_int (height - margin)) = height - margin" by (rule py_int_of_int)
  then show ?thesis by (simp add: normalize_data_def py_min_def py_max_def normalize_point_def)
qed

text \<open>The returned bounds are the minimum and maximum of each coordinate, the
  leftmost data point maps to the left margin and the lowest to the bottom margin, and,
  when the range is not degenerate, the rightmost to \<open>width - margin\<close> and the highest
  to the top margin.\<close>

theorem normalize_data_extremes:
  assumes "normalize_data data width height margin = Normalized pts (x_min, x_max, y_min, y_max)"
    and "i < length data"
  shows "x_min = Min (fst ` set data) \<and> x_max = Max (fst ` set data)
       \<and> y_min = Min (snd ` set data) \<and> y_max = Max (snd ` set data)
       \<and> (fst (data ! i) = x_min \<longrightarrow> fst (pts ! i) = margin)
       \<and> (snd (data ! i) = y_min \<longrightarrow> snd (pts ! i) = height - margin)
       \<and> (x_min \<noteq> x_max \<and> fst (data ! i) = x_max \<longrightarrow> fst (pts ! i) = width - margin)
       \<and> (y_min \<noteq> y_max \<and> snd (data ! i) = y_max \<longrightarrow> snd (pts ! i) = margin)"
proof -
  have ne: "data \<noteq> []" using assms(2) by auto
  note eq = assms(1) [unfolded normalize_data_eq [OF ne]]
  obtain x y where d: "data ! i = (x, y)" by fastforce
  have p: "pts ! i = normalize_point height margin (width - 2 * margin) (height - 2 * margin) x_min y_min
                       (data_range x_min x_max) (data_range y_min y_max) (x, y)"
    using eq assms(2) d by auto
  show ?thesis
    using eq unfolding p d by (auto simp: normalize_point_extreme)
qed

text \<open>Normalisation is monotone in x and antitone in y (the pixel y axis points
  down), so the graph keeps the order of the data in both directions.\<close>

theorem normalize_data_monotone:
  assumes "2 * margin \<le> width" "2 * margin \<le> height"
    and "normalize_data data width height margin = Normalized pts b"
    and "i < length data" "j < length data"
  shows "(fst (data ! i) \<le> fst (data ! j) \<longrightarrow> fst (pts ! i) \<le> fst (pts ! j))
       \<and> (snd (data ! i) \<le> snd (data ! j) \<longrightarrow> snd (pts ! j) \<le> snd (pts ! i))"
proof -
  have ne: "data \<noteq> []" using assms(4) by auto
  let ?xmin = "Min (fst ` set data)" and ?xmax = "Max (fst ` set data)"
    and ?ymin = "Min (snd ` set data)" and ?ymax = "Max (snd ` set data)"
  obtain x0 y0 where "(x0, y0) \<in> set data" using ne by (cases data) fastforce+
  then have le: "?xmin \<le> ?xmax" "?ymin \<le> ?ymax"
    using data_in_bounds [of x0 y0 data] by simp_all
  have pts: "pts = map (normalize_point height margin (width - 2 * margin) (height - 2 * margin) ?xmin ?ymin
                  (data_range ?xmin ?xmax) (data_range ?ymin ?ymax)) data"
    using assms(3) unfolding normalize_data_eq [OF ne] by simp
  obtain xi yi xj yj where di: "data ! i = (xi, yi)" and dj: "data ! j = (xj, yj)" by fastforce
  show ?thesis
    using normalize_point_mono [OF le, where dw = "width - 2 * margin" and dh = "height - 2 * margin"
        and height = height and margin = margin] assms(1,2,4,5)
    unfolding pts by (simp add: di dj)
qed

text \<open>C33: the chart line is the polyline through the normalised points: it starts at
  the first point, ends at the last, passes through every point and is 8-connected, for
  either rasteriser.\<close>

theorem generate_graph_lines_polyline:
  assumes "2 \<le> length pts"
  shows "connected (generate_graph_lines pts algorithm) \<and> hd (generate_graph_lines pts algorithm) = hd pts
       \<and> last (generate_graph_lines pts algorithm) = last pts \<and> set pts \<subseteq> set (generate_graph_lines pts algorithm)"
proof (cases "algorithm = ''bresenham''")
  case True
  then show ?thesis
    using graph_segments_shape [of bresenham_line, OF line_funcs_shape(1) assms]
    by (simp add: generate_graph_lines_segments)
next
  case False
  then show ?thesis
    using graph_segments_shape [of dda_line, OF line_funcs_shape(2) assms]
    by (simp add: generate_graph_lines_segments)
qed


subsection \<open>Witnesses\<close>

theorem normalize_data_length_witness:
  "normalize_data [(0, 0), (1, 2), (2, 1)] 20 20 5 = Normalized [(5, 15), (10, 5), (15, 10)] (0, 2, 0, 2)
   \<and> length [(5::int, 15::int), (10, 5), (15, 10)] = length [(0::real, 0::real), (1, 2), (2, 1)]"
proof -
  have r: "normalize_data [(0, 0), (1, 2), (2, 1)] 20 20 5 = Normalized [(5, 15), (10, 5), (15, 10)] (0, 2, 0, 2)"
    by code_simp
  show ?thesis using normalize_data_length [of "[(0, 0), (1, 2), (2, 1)]" 20 20 5] r by simp
qed

theorem normalize_data_in_box_witness:
  "2 * 5 \<le> (20::int) \<and> normalize_data [(0, 0), (1, 2), (2, 1)] 20 20 5 = Normalized [(5, 15), (10, 5), (15, 10)] (0, 2, 0, 2)
   \<and> (5::int) \<le> 15 \<and> (15::int) \<le> 20 - 5"
proof -
  have r: "normalize_data [(0, 0), (1, 2), (2, 1)] 20 20 5 = Normalized [(5, 15), (10, 5), (15, 10)] (0, 2, 0, 2)"
    by code_simp
  have "(5::int) \<le> 15 \<and> (15::int) \<le> 20 - 5" using normalize_data_in_box [OF _ _ r] by simp
  then show ?thesis using r by simp
qed

theorem normalize_data_extremes_witness:
  "normalize_data [(0, 0), (1, 2), (2, 1)] 20 20 5 = Normalized [(5, 15), (10, 5), (15, 10)] (0, 2, 0, 2)
   \<and> 2 < length [(0::real, 0::real), (1, 2), (2, 1)] \<and> (15::int) = 20 - 5"
proof -
  have r: "normalize_data [(0, 0), (1, 2), (2, 1)] 20 20 5 = Normalized [(5, 15), (10, 5), (15, 10)] (0, 2, 0, 2)"
    by code_simp
  have "(15::int) = 20 - 5" using normalize_data_extremes [OF r, of 2] by simp
  then show ?thesis using r by simp
qed

theorem normalize_data_monotone_witness:
  "normalize_data [(0, 0), (1, 2), (2, 1)] 20 20 5 = Normalized [(5, 15), (10, 5), (15, 10)] (0, 2, 0, 2)
   \<and> (5::int) \<le> 10 \<and> (5::int) \<le> 15"
proof -
  have r: "normalize_data [(0, 0), (1, 2), (2, 1)] 20 20 5 = Normalized [(5, 15), (10, 5), (15, 10)] (0, 2, 0, 2)"
    by code_simp
  have "(5::int) \<le> 10 \<and> (5::int) \<le> 15" using normalize_data_monotone [OF _ _ r, of 0 1] by simp
  then show ?thesis using r by simp
qed

theorem generate_graph_lines_polyline_witness:
  "2 \<le> length [(0::int, 0::int), (2, 1), (3, 3)]
   \<and> connected (generate_graph_lines [(0, 0), (2, 1), (3, 3)] ''dda'')
   \<and> hd (generate_graph_lines [(0, 0), (2, 1), (3, 3)] ''dda'') = (0, 0)
   \<and> last (generate_graph_lines [(0, 0), (2, 1), (3, 3)] ''dda'') = (3, 3)"
  using generate_graph_lines_polyline [of "[(0, 0), (2, 1), (3, 3)]" "''dda''"] by simp

subsection \<open>The drawing calls and the runs of \<open>main()\<close>\<close>

lemma lg_grid_run:
  assumes "lg_draw_grid width height margin divisions = Inr grid" "gl_open t = None"
  shows "gl_open (gl_run t grid) = None \<and> gl_point_size (gl_run t grid) = gl_point_size t
    \<and> gl_points_sizes (gl_prims (gl_run t grid)) = gl_points_sizes (gl_prims t)
    \<and> gl_wf False grid \<and> gl_no_transform grid \<and> gl_clear_free grid"
  using assms by (auto simp: lg_draw_grid_def Let_def list_all_iff split: if_splits)

lemma lg_draw_calls:
  "gl_wf False (lg_draw_axes width height margin)" "gl_no_transform (lg_draw_axes width height margin)"
  "gl_clear_free (lg_draw_axes width height margin)"
  "gl_wf False (lg_draw_points pts c)" "gl_no_transform (lg_draw_points pts c)" "gl_clear_free (lg_draw_points pts c)"
  "gl_wf False (lg_draw_data_points_markers pts c)" "gl_no_transform (lg_draw_data_points_markers pts c)"
  "gl_clear_free (lg_draw_data_points_markers pts c)"
  by (simp_all add: lg_draw_axes_def lg_draw_points_def lg_draw_data_points_markers_def gl_color3_def)

text \<open>One frame draws the chart line at the point size it finds and the markers at size 8,
  which \<open>draw_data_points_markers\<close> sets and nothing resets.\<close>

lemma lg_frame_run:
  assumes "lg_draw_grid width height margin divisions = Inr grid" "gl_open t = None"
  shows "gl_points_sizes (gl_prims (gl_run t (lg_frame width height margin grid gpts pts c))) = [gl_point_size t, 8]
    \<and> gl_point_size (gl_run t (lg_frame width height margin grid gpts pts c)) = 8"
proof -
  let ?t = "t\<lparr>gl_background := gl_clear_color t, gl_prims := [],
      gl_clear_color := (gl_clamp 0.05, gl_clamp 0.05, gl_clamp 0.1, gl_clamp 1)\<rparr>"
  have "gl_open ?t = None" using assms(2) by simp
  from lg_grid_run [OF assms(1) this]
  have g: "gl_open (gl_run ?t grid) = None" "gl_point_size (gl_run ?t grid) = gl_point_size t"
    "gl_points_sizes (gl_prims (gl_run ?t grid)) = []" by simp_all
  have eq: "gl_run t (lg_frame width height margin grid gpts pts c) =
    gl_run (gl_run ?t grid) (lg_draw_axes width height margin @ lg_draw_points gpts c @ lg_draw_data_points_markers pts (1, 0, 0))"
    using assms(2) by (simp add: lg_frame_def)
  define u where "u = gl_run ?t grid"
  have "gl_open u = None" "gl_point_size u = gl_point_size t" "gl_points_sizes (gl_prims u) = []"
    using g by (simp_all add: u_def)
  then show ?thesis
    unfolding eq u_def [symmetric]
    by (simp add: lg_draw_axes_def lg_draw_points_def lg_draw_data_points_markers_def gl_color3_def gl_prim_of_def)
qed

lemma lg_frame_calls:
  assumes "lg_draw_grid width height margin divisions = Inr grid"
  shows "gl_wf False (lg_frame width height margin grid gpts pts c) \<and> gl_no_transform (lg_frame width height margin grid gpts pts c)
    \<and> gl_clear_free (drop 2 (lg_frame width height margin grid gpts pts c))"
  using lg_grid_run [OF assms, of "gl_initial 0 0"] lg_draw_calls
  by (simp add: lg_frame_def gl_initial_def gl_wf_append)

abbreviation lg_setup :: "app_event list" where
  "lg_setup \<equiv> map GL (ortho_setup 1000 700) @ lg_reports (ds_data (lg_datasets ! 1)) @ [GL (glPointSize 2)]"

lemma lg_main_body:
  "\<exists>grid gpts pts b. lg_main env = glfw_app env 1000 700 ''Line Graph - DDA/Bresenham Algorithm''
       (Some (Inr (lg_setup, lg_frame 1000 700 80 grid gpts pts (1, 0.5, 0.2))))
     \<and> lg_draw_grid 1000 700 80 10 = Inr grid
     \<and> line_graph_main (map (\<lambda>(x, y). (of_int x, of_int y)) (ds_data (lg_datasets ! 1))) 1000 700 80 ''dda''
         = Inr (pts, b, gpts)"
proof -
  define D where "D = map (\<lambda>(x, y). (of_int x :: real, of_int y :: real)) (ds_data (lg_datasets ! 1))"
  have "D \<noteq> []" by (simp add: D_def lg_datasets_def)
  then obtain pts b where n: "normalize_data D 1000 700 80 = Normalized pts b"
    by (cases "normalize_data D 1000 700 80") (simp_all add: normalize_data_def Let_def)
  obtain grid where g: "lg_draw_grid 1000 700 80 10 = Inr grid" by (simp add: lg_draw_grid_def Let_def)
  have "lg_main env = glfw_app env 1000 700 ''Line Graph - DDA/Bresenham Algorithm''
       (Some (Inr (lg_setup, lg_frame 1000 700 80 grid (generate_graph_lines pts ''dda'') pts (1, 0.5, 0.2))))"
    unfolding lg_main_def Let_def D_def [symmetric]
    by (simp add: line_graph_main_def n g lg_datasets_def)
  moreover have "line_graph_main D 1000 700 80 ''dda'' = Inr (pts, b, generate_graph_lines pts ''dda'')"
    by (simp add: line_graph_main_def n)
  ultimately show ?thesis using g unfolding D_def by blast
qed

lemma lg_setup_facts:
  "gl_wf False (app_gl lg_setup)" "gl_clear_free (app_gl lg_setup)"
  "app_display (gl_initial 1000 700) lg_setup = []"
  by (simp_all only: app_display_append app_display_map_GL lg_reports_def app_map_Print append_Nil)
     (simp_all add: ortho_setup_def lg_reports_def gl_clear_free_def)

lemma lg_setup_state:
  "gl_open (gl_run (gl_initial 1000 700) (app_gl lg_setup)) = None"
  "gl_point_size (gl_run (gl_initial 1000 700) (app_gl lg_setup)) = 2"
  by (simp_all add: ortho_setup_run gl_initial_def lg_reports_def)

lemma lg_main_no_gl_error:
  assumes "lg_main env = Some r"
  shows "gl_errors (gl_run (gl_initial 1000 700) (app_gl (app_events r))) = []"
proof -
  obtain grid gpts pts where b: "lg_main env = glfw_app env 1000 700 ''Line Graph - DDA/Bresenham Algorithm''
       (Some (Inr (lg_setup, lg_frame 1000 700 80 grid gpts pts (1, 0.5, 0.2))))"
    and g: "lg_draw_grid 1000 700 80 10 = Inr grid" using lg_main_body by blast
  from assms b have "glfw_app env 1000 700 ''Line Graph - DDA/Bresenham Algorithm''
       (Some (Inr (lg_setup, lg_frame 1000 700 80 grid gpts pts (1, 0.5, 0.2)))) = Some r" by simp
  from glfw_app_no_gl_error [OF this lg_setup_facts(1)] lg_frame_calls [OF g] show ?thesis by blast
qed

lemma lg_main_returns:
  "lg_main env \<noteq> None \<longleftrightarrow> \<not> init_ok env \<or> \<not> window_ok env \<or> (\<exists>k. should_close env k)"
proof -
  obtain grid gpts pts where "lg_main env = glfw_app env 1000 700 ''Line Graph - DDA/Bresenham Algorithm''
       (Some (Inr (lg_setup, lg_frame 1000 700 80 grid gpts pts (1, 0.5, 0.2))))" using lg_main_body by blast
  then show ?thesis by (simp only: glfw_app_terminates_iff)
qed

lemma lg_main_backgrounds:
  assumes "lg_main env = Some r"
  shows "let scrs = app_display (gl_initial 1000 700) (app_events r)
         in map fst scrs = take (length scrs) ((0, 0, 0, 0) # replicate (length scrs) (0.05, 0.05, 0.1, 1))"
proof -
  obtain grid gpts pts where b: "lg_main env = glfw_app env 1000 700 ''Line Graph - DDA/Bresenham Algorithm''
       (Some (Inr (lg_setup, lg_frame 1000 700 80 grid gpts pts (1, 0.5, 0.2))))"
    and g: "lg_draw_grid 1000 700 80 10 = Inr grid" using lg_main_body by blast
  define rest where "rest = drop 2 (lg_frame 1000 700 80 grid gpts pts (1, 0.5, 0.2))"
  have f: "lg_frame 1000 700 80 grid gpts pts (1, 0.5, 0.2) = glClear GL_COLOR_BUFFER_BIT # glClearColor 0.05 0.05 0.1 1 # rest"
    by (simp add: lg_frame_def rest_def)
  have wf: "gl_wf False (glClear GL_COLOR_BUFFER_BIT # glClearColor 0.05 0.05 0.1 1 # rest)"
    and cf: "gl_clear_free rest"
    using lg_frame_calls [OF g, of gpts pts "(1, 0.5, 0.2)"] unfolding f rest_def [symmetric] by simp_all
  from glfw_app_backgrounds [OF assms [unfolded b, unfolded f] lg_setup_facts(3,1,2) wf cf]
  show ?thesis by (simp add: gl_clamp_def)
qed

text \<open>C26: the chart line is drawn at point size 2 only in the first frame: \<open>main()\<close> sets
  \<open>glPointSize(2.0)\<close> once before the loop, and every frame ends with the markers at size 8,
  so from the second frame on the chart line is drawn at size 8 as well.\<close>

lemma lg_main_point_sizes:
  assumes "lg_main env = Some r"
  shows "let scrs = app_display (gl_initial 1000 700) (app_events r)
         in map (\<lambda>scr. gl_points_sizes (snd scr)) scrs = take (length scrs) ([2, 8] # replicate (length scrs) [8, 8])"
proof -
  obtain grid gpts pts where b: "lg_main env = glfw_app env 1000 700 ''Line Graph - DDA/Bresenham Algorithm''
       (Some (Inr (lg_setup, lg_frame 1000 700 80 grid gpts pts (1, 0.5, 0.2))))"
    and g: "lg_draw_grid 1000 700 80 10 = Inr grid" using lg_main_body by blast
  have "let scrs = app_display (gl_initial 1000 700) (app_events r)
        in map (\<lambda>scr. gl_points_sizes (snd scr)) scrs = take (length scrs)
             ((\<lambda>p. [p, 8]) (gl_point_size (gl_run (gl_initial 1000 700) (app_gl lg_setup)))
               # replicate (length scrs) ((\<lambda>p. [p, 8]) 8))"
  proof (rule glfw_app_screens_seq [OF assms [unfolded b] lg_setup_facts(3)])
    show "gl_wf False (lg_frame 1000 700 80 grid gpts pts (1, 0.5, 0.2))"
      "gl_no_transform (lg_frame 1000 700 80 grid gpts pts (1, 0.5, 0.2))"
      using lg_frame_calls [OF g] by blast+
    show "gl_open (gl_run (gl_initial 1000 700) (app_gl lg_setup)) = None" by (rule lg_setup_state(1))
  next
    fix t :: gl_state
    assume "gl_open t = None"
    from lg_frame_run [OF g this]
    show "gl_points_sizes (snd (screen_of (gl_run t (lg_frame 1000 700 80 grid gpts pts (1, 0.5, 0.2))))) = [gl_point_size t, 8]
      \<and> gl_point_size (gl_run t (lg_frame 1000 700 80 grid gpts pts (1, 0.5, 0.2))) = 8"
      by (simp add: screen_of_def)
  qed
  then show ?thesis by (simp only: lg_setup_state(2))
qed

subsection \<open>Console output\<close>

lemma lg_reports_eval:
  "app_prints (lg_reports (ds_data (lg_datasets ! 1))) =
     [''  Point 1: (1, 15)'', ''  Point 2: (2, 18)'', ''  Point 3: (3, 22)'', ''  Point 4: (4, 25)'',
      ''  Point 5: (5, 28)'', ''  Point 6: (6, 32)'', ''  Point 7: (7, 30)'', ''  Point 8: (8, 27)'',
      ''  Point 9: (9, 23)'', ''  Point 10: (10, 20)'']"
  by (simp add: lg_reports_def lg_datasets_def upt_rec) (simp add: py_format)

lemma lg_main_prints:
  assumes "lg_main env = Some r" "init_ok env" "window_ok env"
  shows "app_prints (app_events r) = app_prints (lg_reports (ds_data (lg_datasets ! 1)))"
proof -
  obtain grid gpts pts where "lg_main env = glfw_app env 1000 700 ''Line Graph - DDA/Bresenham Algorithm''
       (Some (Inr (lg_setup, lg_frame 1000 700 80 grid gpts pts (1, 0.5, 0.2))))" using lg_main_body by blast
  from glfw_app_prints [OF assms(1) [unfolded this] assms(2,3)] show ?thesis by simp
qed

end
