(* ===== verification/PieChart.thy ===== *)
theory PieChart
  imports Glfw
begin

text \<open>
  The pie-chart program \<open>src/pie_chart.py\<close>.  \<open>create_pie_chart\<close> partitions the
  circle: the sector dictionaries are the record \<open>sector\<close>, the Python \<open>zip\<close> of
  values, labels and colours is \<^term>\<open>zip data (zip labels colors)\<close> (truncated
  to the shortest list, as Python's), and the \<open>for\<close> loop with its running
  \<open>current_angle\<close> is \<open>pie_loop\<close>; the division \<open>value / total\<close> raises
  \<open>ZeroDivisionError\<close> when the total is zero, which is the \<open>Inl\<close> branch of the
  result (the local \<open>total\<close> is named \<open>tot\<close>, \<open>total\<close> being a HOL constant).  Floats are reals and \<open>math.pi\<close> is \<^term>\<open>pi\<close>.  The drawing functions
  are modelled as the vertex streams they send to OpenGL: \<open>draw_filled_circle_sector\<close>
  (a triangle fan: the centre, then \<open>sector_segments + 1\<close> points of the arc at the angles
  \<open>sector_arc_angles\<close>), \<open>draw_sector_outline\<close> (the arc strip and the two radii),
  \<open>draw_circle_outline\<close>, \<open>draw_pie_chart\<close>, \<open>draw_legend\<close> (one quad per sector) and
  \<open>draw_labels_on_chart\<close> (one marker per sector at its mid angle).
\<close>

record sector =
  sec_value :: real
  sec_percentage :: real
  sec_label :: string
  sec_color :: "real \<times> real \<times> real"
  sec_start :: real
  sec_end :: real
  sec_mid :: real

definition sector_segments :: "real \<Rightarrow> real \<Rightarrow> int \<Rightarrow> int" where
  "sector_segments start_angle end_angle segments =
     max (py_int (of_int segments * ((end_angle - start_angle) / (2 * pi)))) 2"

definition sector_arc_angles :: "real \<Rightarrow> real \<Rightarrow> int \<Rightarrow> real list" where
  "sector_arc_angles start_angle end_angle segments =
     (let angle_range = end_angle - start_angle; n = sector_segments start_angle end_angle segments
      in map (\<lambda>i. start_angle + (angle_range * of_nat i / of_int n)) [0..<nat n + 1])"

definition arc_point :: "real \<Rightarrow> real \<Rightarrow> real \<Rightarrow> real \<Rightarrow> real \<times> real" where
  "arc_point cx cy radius angle = (cx + radius * cos angle, cy + radius * sin angle)"

definition draw_filled_circle_sector ::
  "real \<Rightarrow> real \<Rightarrow> real \<Rightarrow> real \<Rightarrow> real \<Rightarrow> rgb \<Rightarrow> int \<Rightarrow> gl_cmd list" where
  "draw_filled_circle_sector cx cy radius start_angle end_angle color segments =
     [gl_color3 color, glBegin GL_TRIANGLE_FAN]
     @ gl_vertices ((cx, cy) # map (arc_point cx cy radius) (sector_arc_angles start_angle end_angle segments))
     @ [glEnd]"

definition draw_circle_outline :: "real \<Rightarrow> real \<Rightarrow> real \<Rightarrow> rgb \<Rightarrow> int \<Rightarrow> gl_cmd list" where
  "draw_circle_outline cx cy radius color segments =
     [gl_color3 color, glLineWidth 2, glBegin GL_LINE_LOOP]
     @ gl_vertices (map (\<lambda>i. arc_point cx cy radius (2 * pi * of_nat i / of_int segments)) [0..<nat segments])
     @ [glEnd]"

definition draw_sector_outline ::
  "real \<Rightarrow> real \<Rightarrow> real \<Rightarrow> real \<Rightarrow> real \<Rightarrow> rgb \<Rightarrow> int \<Rightarrow> gl_cmd list" where
  "draw_sector_outline cx cy radius start_angle end_angle color segments =
     [gl_color3 color, glLineWidth 2, glBegin GL_LINE_STRIP]
     @ gl_vertices (map (arc_point cx cy radius) (sector_arc_angles start_angle end_angle segments))
     @ [glEnd, glBegin GL_LINES]
     @ gl_vertices [(cx, cy), arc_point cx cy radius start_angle, (cx, cy), arc_point cx cy radius end_angle]
     @ [glEnd]"

fun pie_loop :: "real \<Rightarrow> real \<Rightarrow> (real \<times> string \<times> (real \<times> real \<times> real)) list \<Rightarrow> py_error + sector list" where
  "pie_loop tot current_angle [] = Inr []"
| "pie_loop tot current_angle ((value, label, color) # rest) =
     (if tot = 0 then Inl ZeroDivisionError
      else
        (let percentage = (value / tot) * 100;
             angle_size = (value / tot) * 2 * pi;
             sector_info = \<lparr>sec_value = value, sec_percentage = percentage, sec_label = label,
                            sec_color = color, sec_start = current_angle,
                            sec_end = current_angle + angle_size,
                            sec_mid = current_angle + angle_size / 2\<rparr>
         in case pie_loop tot (current_angle + angle_size) rest of
              Inl e \<Rightarrow> Inl e
            | Inr sectors \<Rightarrow> Inr (sector_info # sectors)))"

definition create_pie_chart ::
  "real list \<Rightarrow> string list \<Rightarrow> (real \<times> real \<times> real) list \<Rightarrow> int \<Rightarrow> int \<Rightarrow> int \<Rightarrow> py_error + sector list" where
  "create_pie_chart data labels colors cx cy radius =
     (let tot = sum_list data in pie_loop tot (- pi / 2) (zip data (zip labels colors)))"

definition draw_pie_chart :: "sector list \<Rightarrow> real \<Rightarrow> real \<Rightarrow> real \<Rightarrow> gl_cmd list" where
  "draw_pie_chart sectors cx cy radius =
     concat (map (\<lambda>s. draw_filled_circle_sector cx cy radius (sec_start s) (sec_end s) (sec_color s) 100
                      @ draw_sector_outline cx cy radius (sec_start s) (sec_end s) (0.2, 0.2, 0.2) 100) sectors)"

definition draw_legend :: "sector list \<Rightarrow> real \<Rightarrow> real \<Rightarrow> real \<Rightarrow> real \<Rightarrow> gl_cmd list" where
  "draw_legend sectors x y box_size spacing =
     concat (map (\<lambda>i. let y_pos = y + of_nat i * spacing;
                          box = [(x, y_pos), (x + box_size, y_pos), (x + box_size, y_pos + box_size), (x, y_pos + box_size)]
                      in [gl_color3 (sec_color (sectors ! i)), glBegin GL_QUADS] @ gl_vertices box
                         @ [glEnd, glColor3f 1 1 1, glLineWidth 1, glBegin GL_LINE_LOOP] @ gl_vertices box @ [glEnd])
                 [0..<length sectors])"

definition draw_labels_on_chart :: "sector list \<Rightarrow> real \<Rightarrow> real \<Rightarrow> real \<Rightarrow> gl_cmd list" where
  "draw_labels_on_chart sectors cx cy radius =
     concat (map (\<lambda>s. let label_radius = radius * 0.6
                      in [glColor3f 1 1 1, glPointSize 8, glBegin GL_POINTS]
                         @ gl_vertices [arc_point cx cy label_radius (sec_mid s)] @ [glEnd]) sectors)"

text \<open>\<open>main()\<close>: its data, the console output (the table, then the colour of each
  sector printed as Python's \<open>repr\<close> of the tuple; \<open>print("\nColors:")\<close> prints an
  empty line before the heading), one frame of the loop, and the whole run from the
  skeleton \<open>glfw_app\<close>.\<close>

definition pie_data :: "real list" where
  "pie_data = [30, 45, 15, 60, 25]"

definition pie_labels :: "string list" where
  "pie_labels = [''Product A'', ''Product B'', ''Product C'', ''Product D'', ''Product E'']"

definition pie_colors :: "rgb list" where
  "pie_colors = [(1, 0.2, 0.2), (0.2, 0.8, 0.2), (0.2, 0.4, 1), (1, 0.8, 0.2), (1, 0.4, 0.8)]"

definition pie_prints :: "sector list \<Rightarrow> real \<Rightarrow> app_event list" where
  "pie_prints sectors tot =
     [Print ''Pie Chart Data:'', Print (replicate 60 (CHR ''-''))]
     @ map Print (map (\<lambda>s. py_ljust 12 (sec_label s) @ '': '' @ py_fmt_f1 6 (sec_value s)
                       @ '' ('' @ py_fmt_f1 5 (sec_percentage s) @ ''%)'') sectors)
     @ [Print (replicate 60 (CHR ''-'')), Print (py_ljust 12 ''Total'' @ '': '' @ py_fmt_f1 6 tot @ '' (100.0%)'')]
     @ [Print (char_of (10::nat) # ''Colors:'')]
     @ map Print (map (\<lambda>s. py_ljust 12 (sec_label s) @ '': RGB'' @ py_repr_triple (sec_color s)) sectors)"

definition pie_frame :: "int \<Rightarrow> sector list \<Rightarrow> real \<Rightarrow> real \<Rightarrow> real \<Rightarrow> gl_cmd list" where
  "pie_frame width sectors center_x center_y radius =
     [glClear GL_COLOR_BUFFER_BIT, glClearColor 0.1 0.1 0.15 1]
     @ draw_pie_chart sectors center_x center_y radius
     @ draw_labels_on_chart sectors center_x center_y radius
     @ draw_legend sectors (of_int (width - 250)) 100 20 30
     @ [glColor3f 0.7 0.7 0.7, glLineWidth 2, glBegin GL_LINES,
        glVertex2f (of_int (width div 2 - 100)) 30, glVertex2f (of_int (width div 2 + 100)) 30, glEnd]"

definition pie_main :: "glfw_env \<Rightarrow> app_result option" where
  "pie_main env =
     (let width = 1000; height = 700;
          setup = map GL (ortho_setup width height
                    @ [glEnable GL_LINE_SMOOTH, glEnable GL_BLEND, glBlendFunc GL_SRC_ALPHA GL_ONE_MINUS_SRC_ALPHA,
                       glHint GL_LINE_SMOOTH_HINT GL_NICEST]);
          center_x = width div 2 - 100; center_y = height div 2; radius = 200
      in glfw_app env width height ''Pie Chart - OpenGL Implementation''
           (Some (case create_pie_chart pie_data pie_labels pie_colors center_x center_y radius of
                    Inl e \<Rightarrow> Inl (e, setup)
                  | Inr sectors \<Rightarrow>
                      Inr (setup @ pie_prints sectors (sum_list pie_data),
                           pie_frame width sectors (of_int center_x) (of_int center_y) (of_int radius)))))"

subsection \<open>The partition loop\<close>

lemma pie_loop_zero: "xs \<noteq> [] \<Longrightarrow> pie_loop 0 a xs = Inl ZeroDivisionError"
  by (cases xs) auto

lemma pie_loop_ok:
  "tot \<noteq> 0 \<Longrightarrow> \<exists>ss. pie_loop tot a xs = Inr ss \<and> length ss = length xs"
proof (induction xs arbitrary: a)
  case Nil
  then show ?case by simp
next
  case (Cons x xs)
  obtain v l c where x: "x = (v, l, c)" by (cases x) auto
  from Cons.IH [OF Cons.prems, of "a + v / tot * 2 * pi"] obtain ss
    where "pie_loop tot (a + v / tot * 2 * pi) xs = Inr ss" "length ss = length xs" by blast
  with Cons.prems show ?case by (simp add: x Let_def)
qed

lemma pie_loop_Cons:
  assumes "pie_loop tot a ((v, l, c) # rest) = Inr ss"
  obtains s ss' where "tot \<noteq> 0" "pie_loop tot (a + v / tot * 2 * pi) rest = Inr ss'" "ss = s # ss'"
    "sec_value s = v" "sec_label s = l" "sec_color s = c" "sec_percentage s = v / tot * 100"
    "sec_start s = a" "sec_end s = a + v / tot * 2 * pi" "sec_mid s = a + v / tot * 2 * pi / 2"
proof -
  have t: "tot \<noteq> 0" using assms by (auto split: if_splits)
  obtain ss' where r: "pie_loop tot (a + v / tot * 2 * pi) rest = Inr ss'"
    and ss: "ss = \<lparr>sec_value = v, sec_percentage = v / tot * 100, sec_label = l, sec_color = c,
                    sec_start = a, sec_end = a + v / tot * 2 * pi, sec_mid = a + v / tot * 2 * pi / 2\<rparr> # ss'"
    using assms t by (auto simp: Let_def split: sum.splits)
  show thesis by (rule that [OF t r ss]) simp_all
qed

lemma pie_loop_sectors:
  "pie_loop tot a xs = Inr ss \<Longrightarrow>
     length ss = length xs \<and> (\<forall>i < length ss. sec_value (ss ! i) = fst (xs ! i) \<and> sec_label (ss ! i) = fst (snd (xs ! i))
     \<and> sec_color (ss ! i) = snd (snd (xs ! i)) \<and> sec_percentage (ss ! i) = fst (xs ! i) / tot * 100
     \<and> sec_end (ss ! i) - sec_start (ss ! i) = fst (xs ! i) / tot * 2 * pi
     \<and> sec_mid (ss ! i) = (sec_start (ss ! i) + sec_end (ss ! i)) / 2)"
proof (induction xs arbitrary: a ss)
  case Nil
  then show ?case by simp
next
  case (Cons x xs)
  obtain v l c where x: "x = (v, l, c)" by (cases x) auto
  from Cons.prems [unfolded x] obtain s ss' where
    r: "pie_loop tot (a + v / tot * 2 * pi) xs = Inr ss'" and ss: "ss = s # ss'"
    and f: "sec_value s = v" "sec_label s = l" "sec_color s = c" "sec_percentage s = v / tot * 100"
      "sec_start s = a" "sec_end s = a + v / tot * 2 * pi" "sec_mid s = a + v / tot * 2 * pi / 2"
    by (rule pie_loop_Cons)
  have IH: "length ss' = length xs \<and> (\<forall>i < length ss'. sec_value (ss' ! i) = fst (xs ! i) \<and> sec_label (ss' ! i) = fst (snd (xs ! i))
     \<and> sec_color (ss' ! i) = snd (snd (xs ! i)) \<and> sec_percentage (ss' ! i) = fst (xs ! i) / tot * 100
     \<and> sec_end (ss' ! i) - sec_start (ss' ! i) = fst (xs ! i) / tot * 2 * pi
     \<and> sec_mid (ss' ! i) = (sec_start (ss' ! i) + sec_end (ss' ! i)) / 2)"
    by (rule Cons.IH [OF r])
  have "sec_mid s = (sec_start s + sec_end s) / 2" using f by (simp add: field_simps)
  with IH f show ?case by (auto simp: ss x nth_Cons split: nat.splits)
qed

lemma pie_loop_contiguous:
  "pie_loop tot a xs = Inr ss \<Longrightarrow>
     (ss \<noteq> [] \<longrightarrow> sec_start (hd ss) = a \<and> sec_end (last ss) = a + sum_list (map fst xs) / tot * 2 * pi)
     \<and> (\<forall>i. Suc i < length ss \<longrightarrow> sec_end (ss ! i) = sec_start (ss ! Suc i))"
proof (induction xs arbitrary: a ss)
  case Nil
  then show ?case by simp
next
  case (Cons x xs)
  obtain v l c where x: "x = (v, l, c)" by (cases x) auto
  from Cons.prems [unfolded x] obtain s ss' where
    r: "pie_loop tot (a + v / tot * 2 * pi) xs = Inr ss'" and ss: "ss = s # ss'"
    and f: "sec_start s = a" "sec_end s = a + v / tot * 2 * pi"
    by (rule pie_loop_Cons)
  have IH: "(ss' \<noteq> [] \<longrightarrow> sec_start (hd ss') = a + v / tot * 2 * pi
        \<and> sec_end (last ss') = a + v / tot * 2 * pi + sum_list (map fst xs) / tot * 2 * pi)
     \<and> (\<forall>i. Suc i < length ss' \<longrightarrow> sec_end (ss' ! i) = sec_start (ss' ! Suc i))"
    by (rule Cons.IH [OF r])
  have len: "length ss' = length xs" using pie_loop_sectors [OF r] by simp
  have "ss' = [] \<Longrightarrow> xs = []" using len by simp
  then show ?case using IH f len
    by (auto simp: ss x nth_Cons hd_conv_nth add_divide_distrib distrib_right split: nat.splits)
qed

lemma sum_list_scaled:
  fixes tot k :: real
  shows "sum_list (map (\<lambda>x. fst x / tot * k) xs) = sum_list (map fst xs) / tot * k"
proof (induction xs)
  case (Cons x xs)
  have "fst x / tot * k + sum_list (map fst xs) / tot * k = (fst x + sum_list (map fst xs)) / tot * k"
    by (simp only: distrib_right [symmetric] add_divide_distrib [symmetric])
  with Cons.IH show ?case by simp
qed simp

lemma pie_loop_percentages:
  assumes "pie_loop tot a xs = Inr ss"
  shows "sum_list (map sec_percentage ss) = sum_list (map fst xs) / tot * 100"
proof -
  have eq: "map sec_percentage ss = map (\<lambda>x. fst x / tot * 100) xs"
    using pie_loop_sectors [OF assms] by (intro nth_equalityI) auto
  have "sum_list (map sec_percentage ss) = sum_list (map (\<lambda>x. fst x / tot * 100) xs)"
    by (simp only: eq)
  also have "\<dots> = sum_list (map fst xs) / tot * 100"
    by (rule sum_list_scaled)
  finally show ?thesis .
qed

lemma zip3_nth:
  "i < length (zip data (zip labels colors)) \<Longrightarrow>
   zip data (zip labels colors) ! i = (data ! i, labels ! i, colors ! i)"
  by simp

lemma sector_arc_angles_ends:
  "sector_arc_angles s e segments \<noteq> [] \<and> hd (sector_arc_angles s e segments) = s
   \<and> last (sector_arc_angles s e segments) = e \<and> 3 \<le> length (sector_arc_angles s e segments)"
proof -
  define n where "n = sector_segments s e segments"
  have n: "2 \<le> n" by (simp add: n_def sector_segments_def)
  have u: "[0..<nat n + 1] \<noteq> []" "hd [0..<nat n + 1] = 0" "last [0..<nat n + 1] = nat n"
    "length [0..<nat n + 1] = nat n + 1"
    by (simp_all del: upt_Suc add: hd_upt)
  have "(of_nat (nat n) :: real) = of_int n" "(0::real) < of_int n" using n by simp_all
  then have "s + (e - s) * of_nat (nat n) / of_int n = e" by simp
  moreover have "sector_arc_angles s e segments = map (\<lambda>i. s + ((e - s) * of_nat i / of_int n)) [0..<nat n + 1]"
    by (simp add: sector_arc_angles_def n_def Let_def del: upt_Suc)
  ultimately show ?thesis using u n by (simp del: upt_Suc add: hd_map last_map)
qed

subsection \<open>Properties of the sector partition\<close>

text \<open>C35: error path.  \<open>create_pie_chart\<close> fails, with \<open>ZeroDivisionError\<close>, exactly
  when the values sum to zero and there is at least one (value, label, colour) triple;
  an all-zero input of three empty lists returns no sectors.\<close>

theorem create_pie_chart_error:
  "(create_pie_chart data labels colors cx cy radius = Inl ZeroDivisionError
      \<longleftrightarrow> sum_list data = 0 \<and> zip data (zip labels colors) \<noteq> [])
   \<and> (isl (create_pie_chart data labels colors cx cy radius)
      \<longleftrightarrow> sum_list data = 0 \<and> zip data (zip labels colors) \<noteq> [])"
proof (cases "sum_list data = 0")
  case True
  then show ?thesis by (cases "zip data (zip labels colors)") (auto simp: create_pie_chart_def pie_loop_zero)
next
  case False
  then show ?thesis
    using pie_loop_ok [OF False, of "- pi / 2" "zip data (zip labels colors)"] by (auto simp: create_pie_chart_def)
qed

text \<open>C36: one sector per (value, label, colour) triple of the zip, so the output is as
  long as the shortest of the three lists; each sector carries its value, label and
  colour, its percentage \<open>value / total * 100\<close>, a span of \<open>value / total * 2\<pi>\<close> and its
  mid angle halfway along the span.\<close>

theorem create_pie_chart_sectors:
  assumes "create_pie_chart data labels colors cx cy radius = Inr ss"
  shows "length ss = min (length data) (min (length labels) (length colors))
    \<and> (\<forall>i < length ss. sec_value (ss ! i) = data ! i \<and> sec_label (ss ! i) = labels ! i \<and> sec_color (ss ! i) = colors ! i
        \<and> sec_percentage (ss ! i) = data ! i / sum_list data * 100
        \<and> sec_end (ss ! i) - sec_start (ss ! i) = data ! i / sum_list data * 2 * pi
        \<and> sec_mid (ss ! i) = (sec_start (ss ! i) + sec_end (ss ! i)) / 2)"
  using pie_loop_sectors [OF assms [unfolded create_pie_chart_def Let_def]] by (simp add: zip3_nth)

text \<open>C37: the sectors are an ordered, gap-free partition starting at 12 o'clock: the first
  starts at \<open>-\<pi>/2\<close> and each one starts where the previous one ends.\<close>

theorem create_pie_chart_contiguous:
  assumes "create_pie_chart data labels colors cx cy radius = Inr ss"
  shows "(ss \<noteq> [] \<longrightarrow> sec_start (hd ss) = - pi / 2)
    \<and> (\<forall>i. Suc i < length ss \<longrightarrow> sec_end (ss ! i) = sec_start (ss ! Suc i))"
  using pie_loop_contiguous [OF assms [unfolded create_pie_chart_def Let_def]] by simp

text \<open>C38: with a non-zero total and three lists of equal length, the partition returns,
  the last sector ends exactly one full turn after the start, and the percentages sum to
  100.\<close>

theorem create_pie_chart_full_turn:
  assumes "sum_list data \<noteq> 0" "data \<noteq> []" "length labels = length data" "length colors = length data"
  shows "\<exists>ss. create_pie_chart data labels colors cx cy radius = Inr ss
    \<and> sec_end (last ss) = - pi / 2 + 2 * pi \<and> sum_list (map sec_percentage ss) = 100"
proof -
  let ?xs = "zip data (zip labels colors)"
  have fst_xs: "map fst ?xs = data" using assms(3,4) by simp
  obtain ss where r: "pie_loop (sum_list data) (- pi / 2) ?xs = Inr ss" and len: "length ss = length ?xs"
    using pie_loop_ok [OF assms(1)] by blast
  have "ss \<noteq> []" using len assms(2-4) by (cases data) auto
  then have "sec_end (last ss) = - pi / 2 + 2 * pi"
    using pie_loop_contiguous [OF r] assms(1) fst_xs by simp
  moreover have "sum_list (map sec_percentage ss) = 100"
    using pie_loop_percentages [OF r] assms(1) fst_xs by simp
  ultimately show ?thesis using r by (auto simp: create_pie_chart_def)
qed

text \<open>C39: a negative total is not rejected: the partition returns, and every sector of a
  positive value gets a negative span, so the angles run backwards.\<close>

theorem create_pie_chart_negative_total:
  assumes "sum_list data < 0"
  shows "\<exists>ss. create_pie_chart data labels colors cx cy radius = Inr ss
    \<and> (\<forall>i < length ss. 0 < data ! i \<longrightarrow> sec_end (ss ! i) < sec_start (ss ! i))"
proof -
  obtain ss where r: "pie_loop (sum_list data) (- pi / 2) (zip data (zip labels colors)) = Inr ss"
    using pie_loop_ok [of "sum_list data"] assms by fastforce
  have "sec_end (ss ! i) < sec_start (ss ! i)" if "i < length ss" "0 < data ! i" for i
  proof -
    have span: "sec_end (ss ! i) - sec_start (ss ! i) = data ! i / sum_list data * 2 * pi"
      using pie_loop_sectors [OF r] that(1) by (simp add: zip3_nth)
    have "data ! i / sum_list data < 0" using that(2) assms by (simp add: divide_pos_neg)
    then have "data ! i / sum_list data * (2 * pi) < 0" by (rule mult_neg_pos) simp
    then have "data ! i / sum_list data * 2 * pi < 0" by (simp only: mult.assoc)
    with span show ?thesis by linarith
  qed
  then show ?thesis using r by (auto simp: create_pie_chart_def)
qed

text \<open>C40: the calls \<open>draw_filled_circle_sector\<close> issues, executed in a GL context outside
  \<open>glBegin\<close>/\<open>glEnd\<close>, raise no GL error and append exactly one triangle fan in the
  sector's colour: the centre, then the arc from the point at the start angle to the point
  at exactly the end angle, at least four vertices whatever the span (\<open>sector_segments\<close>
  is at least 2).\<close>

theorem draw_filled_circle_sector_fan:
  assumes "gl_open st = None"
  shows "let st' = gl_run st (draw_filled_circle_sector cx cy radius s e color segments);
             p = last (gl_prims st'); vs = map vx_pos (prim_vertices p)
         in gl_errors st' = gl_errors st \<and> butlast (gl_prims st') = gl_prims st
            \<and> prim_mode p = GL_TRIANGLE_FAN \<and> set (map vx_color (prim_vertices p)) \<subseteq> {color}
            \<and> hd vs = (cx, cy) \<and> vs ! 1 = arc_point cx cy radius s
            \<and> last vs = arc_point cx cy radius e \<and> 4 \<le> length vs"
proof -
  let ?ps = "(cx, cy) # map (arc_point cx cy radius) (sector_arc_angles s e segments)"
  have run: "gl_run st (draw_filled_circle_sector cx cy radius s e color segments) =
    st\<lparr>gl_color := color, gl_prims := gl_prims st @ [gl_prim_of (st\<lparr>gl_color := color\<rparr>) GL_TRIANGLE_FAN ?ps]\<rparr>"
    using assms by (simp add: draw_filled_circle_sector_def gl_color3_def gl_prim_of_def)
  have "map vx_pos (prim_vertices (gl_prim_of (st\<lparr>gl_color := color\<rparr>) GL_TRIANGLE_FAN ?ps)) = ?ps"
    by (simp add: gl_prim_of_def comp_def)
  moreover have "hd ?ps = (cx, cy) \<and> ?ps ! 1 = arc_point cx cy radius s
      \<and> last ?ps = arc_point cx cy radius e \<and> 4 \<le> length ?ps"
    using sector_arc_angles_ends [of s e segments]
    by (auto simp: last_map hd_conv_nth nth_Cons' simp del: nth_Cons_Suc)
  moreover have "set (map vx_color (prim_vertices (gl_prim_of (st\<lparr>gl_color := color\<rparr>) GL_TRIANGLE_FAN ?ps))) \<subseteq> {color}"
    by (auto simp: gl_prim_of_def)
  ultimately show ?thesis
    by (simp add: run Let_def) (simp add: gl_prim_of_def)
qed

subsection \<open>The drawing calls and the runs of \<open>main()\<close>\<close>

lemma pie_draw_calls:
  "gl_wf False (draw_filled_circle_sector cx cy radius s e color segments)"
  "gl_wf False (draw_sector_outline cx cy radius s e color segments)"
  "gl_wf False (draw_circle_outline cx cy radius color segments)"
  "gl_no_transform (draw_filled_circle_sector cx cy radius s e color segments)"
  "gl_no_transform (draw_sector_outline cx cy radius s e color segments)"
  "gl_clear_free (draw_filled_circle_sector cx cy radius s e color segments)"
  "gl_clear_free (draw_sector_outline cx cy radius s e color segments)"
  by (simp_all add: draw_filled_circle_sector_def draw_sector_outline_def draw_circle_outline_def gl_color3_def)

lemma pie_chart_calls:
  "gl_wf False (draw_pie_chart sectors cx cy radius)"
  "gl_wf False (draw_legend sectors x y box_size spacing)"
  "gl_wf False (draw_labels_on_chart sectors cx cy radius)"
  "gl_no_transform (draw_pie_chart sectors cx cy radius)"
  "gl_no_transform (draw_legend sectors x y box_size spacing)"
  "gl_no_transform (draw_labels_on_chart sectors cx cy radius)"
  "gl_clear_free (draw_pie_chart sectors cx cy radius)"
  "gl_clear_free (draw_legend sectors x y box_size spacing)"
  "gl_clear_free (draw_labels_on_chart sectors cx cy radius)"
  by (auto simp: draw_pie_chart_def draw_legend_def draw_labels_on_chart_def pie_draw_calls gl_color3_def
      Let_def list_all_iff intro!: gl_wf_concat gl_wf_append)

lemma pie_frame_calls:
  "gl_wf False (pie_frame width sectors cx cy radius) \<and> gl_no_transform (pie_frame width sectors cx cy radius)
   \<and> gl_clear_free (drop 2 (pie_frame width sectors cx cy radius))"
  by (auto simp: pie_frame_def pie_chart_calls intro!: gl_wf_append)

abbreviation pie_setup :: "gl_cmd list" where
  "pie_setup \<equiv> ortho_setup 1000 700 @ [glEnable GL_LINE_SMOOTH, glEnable GL_BLEND,
     glBlendFunc GL_SRC_ALPHA GL_ONE_MINUS_SRC_ALPHA, glHint GL_LINE_SMOOTH_HINT GL_NICEST]"

lemma pie_main_body:
  "\<exists>sectors. pie_main env = glfw_app env 1000 700 ''Pie Chart - OpenGL Implementation''
       (Some (Inr (map GL pie_setup @ pie_prints sectors (sum_list pie_data), pie_frame 1000 sectors 400 350 200)))"
proof -
  have "sum_list pie_data \<noteq> 0" by (simp add: pie_data_def)
  from pie_loop_ok [OF this, of "- pi / 2" "zip pie_data (zip pie_labels pie_colors)"]
  obtain sectors where "create_pie_chart pie_data pie_labels pie_colors 400 350 200 = Inr sectors"
    by (auto simp: create_pie_chart_def)
  then show ?thesis by (auto simp: pie_main_def Let_def)
qed

lemma pie_setup_facts:
  "gl_wf False (app_gl (map GL pie_setup @ pie_prints sectors tot))"
  "gl_clear_free (app_gl (map GL pie_setup @ pie_prints sectors tot))"
  by (simp_all add: ortho_setup_def pie_prints_def gl_clear_free_def)

lemma pie_setup_quiet: "app_display (gl_initial 1000 700) (map GL pie_setup @ pie_prints sectors tot) = []"
  by (simp only: app_display_append app_display_map_GL) (simp add: pie_prints_def)

lemma pie_main_no_gl_error:
  assumes "pie_main env = Some r"
  shows "gl_errors (gl_run (gl_initial 1000 700) (app_gl (app_events r))) = []"
proof -
  obtain sectors where "pie_main env = glfw_app env 1000 700 ''Pie Chart - OpenGL Implementation''
       (Some (Inr (map GL pie_setup @ pie_prints sectors (sum_list pie_data), pie_frame 1000 sectors 400 350 200)))"
    using pie_main_body by blast
  with assms have "glfw_app env 1000 700 ''Pie Chart - OpenGL Implementation''
       (Some (Inr (map GL pie_setup @ pie_prints sectors (sum_list pie_data), pie_frame 1000 sectors 400 350 200))) = Some r"
    by simp
  from glfw_app_no_gl_error [OF this pie_setup_facts(1)] pie_frame_calls show ?thesis by blast
qed

lemma pie_main_returns:
  "pie_main env \<noteq> None \<longleftrightarrow> \<not> init_ok env \<or> \<not> window_ok env \<or> (\<exists>k. should_close env k)"
proof -
  obtain sectors where "pie_main env = glfw_app env 1000 700 ''Pie Chart - OpenGL Implementation''
       (Some (Inr (map GL pie_setup @ pie_prints sectors (sum_list pie_data), pie_frame 1000 sectors 400 350 200)))"
    using pie_main_body by blast
  then show ?thesis by (simp only: glfw_app_terminates_iff)
qed

lemma pie_main_backgrounds:
  assumes "pie_main env = Some r"
  shows "let scrs = app_display (gl_initial 1000 700) (app_events r)
         in map fst scrs = take (length scrs) ((0, 0, 0, 0) # replicate (length scrs) (0.1, 0.1, 0.15, 1))"
proof -
  obtain sectors where b: "pie_main env = glfw_app env 1000 700 ''Pie Chart - OpenGL Implementation''
       (Some (Inr (map GL pie_setup @ pie_prints sectors (sum_list pie_data), pie_frame 1000 sectors 400 350 200)))"
    using pie_main_body by blast
  define rest where "rest = drop 2 (pie_frame 1000 sectors 400 350 200)"
  have f: "pie_frame 1000 sectors 400 350 200 = glClear GL_COLOR_BUFFER_BIT # glClearColor 0.1 0.1 0.15 1 # rest"
    by (simp add: pie_frame_def rest_def)
  have wf: "gl_wf False (glClear GL_COLOR_BUFFER_BIT # glClearColor 0.1 0.1 0.15 1 # rest)"
    and cf: "gl_clear_free rest"
    using pie_frame_calls [of 1000 sectors 400 350 200] unfolding f rest_def [symmetric] by simp_all
  from glfw_app_backgrounds [OF assms [unfolded b, unfolded f] pie_setup_quiet pie_setup_facts(1,2) wf cf]
  show ?thesis by (simp add: gl_clamp_def)
qed

subsection \<open>The console output of \<open>main()\<close>\<close>

lemma pie_prints_fields:
  assumes "map (\<lambda>s. (sec_label s, sec_value s, sec_percentage s, sec_color s)) ss
         = map (\<lambda>s. (sec_label s, sec_value s, sec_percentage s, sec_color s)) ss'"
  shows "pie_prints ss tot = pie_prints ss' tot"
proof -
  have "map (\<lambda>s. py_ljust 12 (sec_label s) @ '': '' @ py_fmt_f1 6 (sec_value s)
                       @ '' ('' @ py_fmt_f1 5 (sec_percentage s) @ ''%)'') ss
      = map (\<lambda>s. py_ljust 12 (sec_label s) @ '': '' @ py_fmt_f1 6 (sec_value s)
                       @ '' ('' @ py_fmt_f1 5 (sec_percentage s) @ ''%)'') ss'"
    by (rule map_factor [OF assms, where h = "\<lambda>(l, v, p, c). py_ljust 12 l @ '': '' @ py_fmt_f1 6 v
                       @ '' ('' @ py_fmt_f1 5 p @ ''%)''"]) simp
  moreover have "map (\<lambda>s. py_ljust 12 (sec_label s) @ '': RGB'' @ py_repr_triple (sec_color s)) ss
      = map (\<lambda>s. py_ljust 12 (sec_label s) @ '': RGB'' @ py_repr_triple (sec_color s)) ss'"
    by (rule map_factor [OF assms, where h = "\<lambda>(l, v, p, c). py_ljust 12 l @ '': RGB'' @ py_repr_triple c"]) simp
  ultimately show ?thesis by (simp add: pie_prints_def)
qed

lemma pie_main_sectors:
  "\<exists>sectors. pie_main env = glfw_app env 1000 700 ''Pie Chart - OpenGL Implementation''
       (Some (Inr (map GL pie_setup @ pie_prints sectors (sum_list pie_data), pie_frame 1000 sectors 400 350 200)))
     \<and> map (\<lambda>s. (sec_label s, sec_value s, sec_percentage s, sec_color s)) sectors
       = map (\<lambda>(v, l, c). (l, v, v / 175 * 100, c)) (zip pie_data (zip pie_labels pie_colors))"
proof -
  have "sum_list pie_data \<noteq> 0" by (simp add: pie_data_def)
  from pie_loop_ok [OF this, of "- pi / 2" "zip pie_data (zip pie_labels pie_colors)"]
  obtain sectors where c: "create_pie_chart pie_data pie_labels pie_colors 400 350 200 = Inr sectors"
    by (auto simp: create_pie_chart_def)
  then have "pie_loop 175 (- pi / 2) (zip pie_data (zip pie_labels pie_colors)) = Inr sectors"
    by (simp add: create_pie_chart_def pie_data_def)
  from pie_loop_sectors [OF this]
  have "map (\<lambda>s. (sec_label s, sec_value s, sec_percentage s, sec_color s)) sectors
       = map (\<lambda>(v, l, c). (l, v, v / 175 * 100, c)) (zip pie_data (zip pie_labels pie_colors))"
    by (intro nth_equalityI) (auto simp: split_def)
  with c show ?thesis by (auto simp: pie_main_def Let_def)
qed

lemma pie_prints_eval:
  "app_prints (pie_prints (map (\<lambda>(v, l, c). \<lparr>sec_value = v, sec_percentage = v / 175 * 100, sec_label = l,
      sec_color = c, sec_start = 0, sec_end = 0, sec_mid = 0\<rparr>) [(30, ''Product A'', (1, 0.2, 0.2)), (45, ''Product B'', (0.2, 0.8, 0.2)),
        (15, ''Product C'', (0.2, 0.4, 1)), (60, ''Product D'', (1, 0.8, 0.2)), (25, ''Product E'', (1, 0.4, 0.8))]) 175) =
    [''Pie Chart Data:'', ''------------------------------------------------------------'',
     ''Product A   :   30.0 ( 17.1%)'', ''Product B   :   45.0 ( 25.7%)'', ''Product C   :   15.0 (  8.6%)'',
     ''Product D   :   60.0 ( 34.3%)'', ''Product E   :   25.0 ( 14.3%)'',
     ''------------------------------------------------------------'', ''Total       :  175.0 (100.0%)'',
     char_of (10::nat) # ''Colors:'',
     ''Product A   : RGB(1.0, 0.2, 0.2)'', ''Product B   : RGB(0.2, 0.8, 0.2)'', ''Product C   : RGB(0.2, 0.4, 1.0)'',
     ''Product D   : RGB(1.0, 0.8, 0.2)'', ''Product E   : RGB(1.0, 0.4, 0.8)'']"
  apply (simp add: pie_prints_def)
  apply (simp add: py_format)
  done

text \<open>C5: the console output.  Once the window is open, \<open>main()\<close> prints exactly the table of
  the five products with their values and percentages to one decimal, the total, and the
  colour of each sector as the repr of its tuple.\<close>

theorem pie_main_console:
  assumes "pie_main env = Some r" "init_ok env" "window_ok env"
  shows "app_prints (app_events r) =
    [''Pie Chart Data:'', ''------------------------------------------------------------'',
     ''Product A   :   30.0 ( 17.1%)'', ''Product B   :   45.0 ( 25.7%)'', ''Product C   :   15.0 (  8.6%)'',
     ''Product D   :   60.0 ( 34.3%)'', ''Product E   :   25.0 ( 14.3%)'',
     ''------------------------------------------------------------'', ''Total       :  175.0 (100.0%)'',
     char_of (10::nat) # ''Colors:'',
     ''Product A   : RGB(1.0, 0.2, 0.2)'', ''Product B   : RGB(0.2, 0.8, 0.2)'', ''Product C   : RGB(0.2, 0.4, 1.0)'',
     ''Product D   : RGB(1.0, 0.8, 0.2)'', ''Product E   : RGB(1.0, 0.4, 0.8)'']"
proof -
  obtain sectors where b: "pie_main env = glfw_app env 1000 700 ''Pie Chart - OpenGL Implementation''
       (Some (Inr (map GL pie_setup @ pie_prints sectors (sum_list pie_data), pie_frame 1000 sectors 400 350 200)))"
    and f: "map (\<lambda>s. (sec_label s, sec_value s, sec_percentage s, sec_color s)) sectors
       = map (\<lambda>(v, l, c). (l, v, v / 175 * 100, c)) (zip pie_data (zip pie_labels pie_colors))"
    using pie_main_sectors by blast
  define ss :: "sector list" where "ss = map (\<lambda>(v, l, c). \<lparr>sec_value = v, sec_percentage = v / 175 * 100, sec_label = l,
      sec_color = c, sec_start = 0, sec_end = 0, sec_mid = 0\<rparr>) [(30, ''Product A'', (1, 0.2, 0.2)), (45, ''Product B'', (0.2, 0.8, 0.2)),
        (15, ''Product C'', (0.2, 0.4, 1)), (60, ''Product D'', (1, 0.8, 0.2)), (25, ''Product E'', (1, 0.4, 0.8))]"
  have z: "zip pie_data (zip pie_labels pie_colors) = [(30, ''Product A'', (1, 0.2, 0.2)), (45, ''Product B'', (0.2, 0.8, 0.2)),
        (15, ''Product C'', (0.2, 0.4, 1)), (60, ''Product D'', (1, 0.8, 0.2)), (25, ''Product E'', (1, 0.4, 0.8))]"
    by (simp only: pie_data_def pie_labels_def pie_colors_def zip_Cons_Cons zip_Nil)
  have "map (\<lambda>s. (sec_label s, sec_value s, sec_percentage s, sec_color s)) sectors
      = map (\<lambda>s. (sec_label s, sec_value s, sec_percentage s, sec_color s)) ss"
    unfolding f z ss_def by simp
  then have p: "pie_prints sectors 175 = pie_prints ss 175" by (rule pie_prints_fields)
  have "app_prints (app_events r) = app_prints (map GL pie_setup @ pie_prints sectors (sum_list pie_data))"
    using glfw_app_prints [OF assms(1) [unfolded b] assms(2,3)] .
  also have "\<dots> = app_prints (pie_prints ss 175)" by (simp add: p pie_data_def)
  finally show ?thesis unfolding ss_def by (simp only: pie_prints_eval)
qed

subsection \<open>Everything drawn lies in the window\<close>

lemma arc_point_bounds:
  assumes "0 \<le> r"
  shows "l \<le> cx - r \<Longrightarrow> l \<le> fst (arc_point cx cy r a)" "cx + r \<le> u \<Longrightarrow> fst (arc_point cx cy r a) \<le> u"
    "l \<le> cy - r \<Longrightarrow> l \<le> snd (arc_point cx cy r a)" "cy + r \<le> u \<Longrightarrow> snd (arc_point cx cy r a) \<le> u"
proof -
  have "\<bar>r * cos a\<bar> \<le> r" "\<bar>r * sin a\<bar> \<le> r"
    using assms by (simp_all add: abs_mult mult_left_le)
  then show "l \<le> cx - r \<Longrightarrow> l \<le> fst (arc_point cx cy r a)" "cx + r \<le> u \<Longrightarrow> fst (arc_point cx cy r a) \<le> u"
    "l \<le> cy - r \<Longrightarrow> l \<le> snd (arc_point cx cy r a)" "cy + r \<le> u \<Longrightarrow> snd (arc_point cx cy r a) \<le> u"
    by (auto simp: arc_point_def abs_le_iff)
qed

lemma pie_frame_in_window:
  assumes "length sectors = 5"
  shows "list_all (\<lambda>p. 0 \<le> fst p \<and> fst p \<le> 1000 \<and> 0 \<le> snd p \<and> snd p \<le> 700)
     (gl_vertex_args (tl (pie_frame 1000 sectors 400 350 200)))"
  using assms
  by (auto simp: pie_frame_def draw_pie_chart_def draw_labels_on_chart_def draw_legend_def Let_def
      draw_filled_circle_sector_def draw_sector_outline_def gl_color3_def list_all_iff arc_point_bounds)

lemma pie_setup_state:
  "ortho_ready (gl_run (gl_initial 1000 700) (app_gl (map GL pie_setup @ pie_prints sectors tot))) 1000 700"
  "gl_open (gl_run (gl_initial 1000 700) (app_gl (map GL pie_setup @ pie_prints sectors tot))) = None"
  by (simp_all add: ortho_setup_run gl_initial_def ortho_ready_def pie_prints_def)

lemma pie_main_visible:
  assumes "pie_main env = Some r"
  shows "drawn_in_window 1000 700 (app_display (gl_initial 1000 700) (app_events r))"
proof -
  obtain sectors where b: "pie_main env = glfw_app env 1000 700 ''Pie Chart - OpenGL Implementation''
       (Some (Inr (map GL pie_setup @ pie_prints sectors (sum_list pie_data), pie_frame 1000 sectors 400 350 200)))"
    and f: "map (\<lambda>s. (sec_label s, sec_value s, sec_percentage s, sec_color s)) sectors
       = map (\<lambda>(v, l, c). (l, v, v / 175 * 100, c)) (zip pie_data (zip pie_labels pie_colors))"
    using pie_main_sectors by blast
  have l: "length sectors = 5"
    using arg_cong [OF f, of length] by (simp add: pie_data_def pie_labels_def pie_colors_def)
  define rest where "rest = tl (pie_frame 1000 sectors 400 350 200)"
  have fr: "pie_frame 1000 sectors 400 350 200 = glClear GL_COLOR_BUFFER_BIT # rest"
    by (simp add: rest_def pie_frame_def)
  have calls: "gl_wf False (glClear GL_COLOR_BUFFER_BIT # rest)" "gl_no_transform (glClear GL_COLOR_BUFFER_BIT # rest)"
    using pie_frame_calls [of 1000 sectors 400 350 200] unfolding fr by simp_all
  from pie_frame_in_window [OF l]
  have "list_all (\<lambda>p. 0 \<le> fst p \<and> fst p \<le> of_int 1000 \<and> 0 \<le> snd p \<and> snd p \<le> of_int 700) (gl_vertex_args rest)"
    by (simp add: rest_def)
  with glfw_app_visible [OF assms [unfolded b fr] pie_setup_quiet calls pie_setup_state(2,1)]
  show ?thesis by simp
qed

subsection \<open>Witnesses\<close>

theorem create_pie_chart_sectors_witness:
  "\<exists>ss. create_pie_chart [1, 1] [''A'', ''B''] [(1, 0, 0), (0, 1, 0)] 0 0 1 = Inr ss
     \<and> length ss = 2 \<and> sec_percentage (ss ! 0) = 50"
proof -
  obtain ss where r: "create_pie_chart [1, 1] [''A'', ''B''] [(1, 0, 0), (0, 1, 0)] 0 0 1 = Inr ss"
    using create_pie_chart_full_turn [of "[1, 1]" "[''A'', ''B'']" "[(1, 0, 0), (0, 1, 0)]" 0 0 1] by auto
  with create_pie_chart_sectors [OF r] show ?thesis by simp
qed

theorem create_pie_chart_contiguous_witness:
  "\<exists>ss. create_pie_chart [1, 1] [''A'', ''B''] [(1, 0, 0), (0, 1, 0)] 0 0 1 = Inr ss
     \<and> sec_start (hd ss) = - pi / 2 \<and> sec_end (ss ! 0) = sec_start (ss ! 1)"
proof -
  obtain ss where r: "create_pie_chart [1, 1] [''A'', ''B''] [(1, 0, 0), (0, 1, 0)] 0 0 1 = Inr ss"
    and "length ss = 2"
    using pie_loop_ok [of "sum_list [1, 1]" "- pi / 2" "zip [1, 1] (zip [''A'', ''B''] [(1, 0, 0), (0, 1, 0)])"]
    by (auto simp: create_pie_chart_def)
  with create_pie_chart_contiguous [OF r] show ?thesis by auto
qed

theorem create_pie_chart_full_turn_witness:
  "sum_list [30, 45, 15, 60, 25 :: real] \<noteq> 0
   \<and> (\<exists>ss. create_pie_chart [30, 45, 15, 60, 25] [''Product A'', ''Product B'', ''Product C'', ''Product D'', ''Product E'']
            [(1, 0.2, 0.2), (0.2, 0.8, 0.2), (0.2, 0.4, 1), (1, 0.8, 0.2), (1, 0.4, 0.8)] 400 350 200 = Inr ss
          \<and> sec_end (last ss) = - pi / 2 + 2 * pi \<and> sum_list (map sec_percentage ss) = 100)"
  using create_pie_chart_full_turn [of "[30, 45, 15, 60, 25]"
      "[''Product A'', ''Product B'', ''Product C'', ''Product D'', ''Product E'']"
      "[(1, 0.2, 0.2), (0.2, 0.8, 0.2), (0.2, 0.4, 1), (1, 0.8, 0.2), (1, 0.4, 0.8)]" 400 350 200]
  by simp

theorem create_pie_chart_negative_total_witness:
  "sum_list [1, - 2 :: real] < 0
   \<and> (\<exists>ss. create_pie_chart [1, - 2] [''A'', ''B''] [(1, 0, 0), (0, 1, 0)] 0 0 1 = Inr ss
          \<and> sec_end (ss ! 0) < sec_start (ss ! 0))"
proof -
  obtain ss where r: "create_pie_chart [1, - 2] [''A'', ''B''] [(1, 0, 0), (0, 1, 0)] 0 0 1 = Inr ss"
    and "\<forall>i < length ss. 0 < [1, - 2 :: real] ! i \<longrightarrow> sec_end (ss ! i) < sec_start (ss ! i)"
    using create_pie_chart_negative_total [of "[1, - 2]" "[''A'', ''B'']" "[(1, 0, 0), (0, 1, 0)]" 0 0 1] by auto
  moreover have "length ss = 2"
    using r pie_loop_ok [of "sum_list [1, - 2 :: real]" "- pi / 2" "zip [1, - 2] (zip [''A'', ''B''] [(1, 0, 0), (0, 1, 0 :: real)])"]
    by (auto simp: create_pie_chart_def)
  ultimately show ?thesis by auto
qed

theorem draw_filled_circle_sector_fan_witness:
  "gl_open (gl_initial 1000 700) = None \<and>
   (let st' = gl_run (gl_initial 1000 700) (draw_filled_circle_sector 400 350 200 0 pi (1, 0.2, 0.2) 100);
        p = last (gl_prims st'); vs = map vx_pos (prim_vertices p)
    in gl_errors st' = [] \<and> butlast (gl_prims st') = []
       \<and> prim_mode p = GL_TRIANGLE_FAN \<and> set (map vx_color (prim_vertices p)) \<subseteq> {(1, 0.2, 0.2)}
       \<and> hd vs = (400, 350) \<and> vs ! 1 = arc_point 400 350 200 0
       \<and> last vs = arc_point 400 350 200 pi \<and> 4 \<le> length vs)"
  using draw_filled_circle_sector_fan [of "gl_initial 1000 700" 400 350 200 0 pi "(1, 0.2, 0.2)" 100]
  by (simp add: gl_initial_def)

end
