(* ===== verification/LineDemos.thy ===== *)
theory LineDemos
  imports Glfw Bresenham DDA
begin

text \<open>
  The demonstration programs of the two line rasterisers: the drawing routines
  \<open>draw_line_points\<close> of \<open>src/DDA.py\<close> (\<open>dda_draw_line_points\<close>, no colour argument) and
  of \<open>src/bresenham.py\<close> (\<open>bres_draw_line_points\<close>), and both \<open>main()\<close> functions:
  the line table each one rasterises before the loop, the console report the Bresenham
  program prints per line (\<open>bres_line_report\<close>, with its slope classification
  \<open>bres_slope_type\<close>), the calls of one frame, and the whole run (\<open>dda_main\<close>,
  \<open>bresenham_main\<close>) through the skeleton \<open>glfw_app\<close>.  Pixel coordinates are sent as
  floats (\<open>gl_pixel\<close>).
\<close>

definition dda_draw_line_points :: "point list \<Rightarrow> gl_cmd list" where
  "dda_draw_line_points points = [glBegin GL_POINTS] @ gl_vertices (map gl_pixel points) @ [glEnd]"

definition dda_demo_lines :: "(int \<times> int \<times> int \<times> int) list" where
  "dda_demo_lines =
     [(100, 100, 700, 500), (400, 50, 400, 550), (50, 300, 750, 300), (200, 150, 600, 450), (150, 500, 650, 100)]"

definition dda_all_points :: "(int \<times> int \<times> int \<times> int) list \<Rightarrow> point list" where
  "dda_all_points lines = concat (map (\<lambda>(x1, y1, x2, y2). dda_line x1 y1 x2 y2) lines)"

definition dda_frame :: "point list \<Rightarrow> gl_cmd list" where
  "dda_frame all_points =
     [glClear GL_COLOR_BUFFER_BIT, glClearColor 0 0 0 1, glColor3f 1 1 1] @ dda_draw_line_points all_points"

definition dda_main :: "glfw_env \<Rightarrow> app_result option" where
  "dda_main env =
     glfw_app env 800 600 ''DDA Line Drawing Algorithm''
       (Some (Inr (map GL (ortho_setup 800 600 @ [glPointSize 2]), dda_frame (dda_all_points dda_demo_lines))))"

definition bres_draw_line_points :: "point list \<Rightarrow> rgb \<Rightarrow> gl_cmd list" where
  "bres_draw_line_points points color =
     [gl_color3 color, glBegin GL_POINTS] @ gl_vertices (map gl_pixel points) @ [glEnd]"

definition bres_demo_lines :: "((int \<times> int \<times> int \<times> int) \<times> rgb) list" where
  "bres_demo_lines =
     [((100, 300, 400, 350), (1, 0, 0)), ((100, 200, 400, 150), (1, 0, 0)), ((450, 300, 750, 300), (1, 0, 0)),
      ((200, 100, 250, 500), (0, 1, 0)), ((350, 500, 400, 100), (0, 1, 0)), ((600, 100, 600, 500), (0, 1, 0)),
      ((100, 100, 300, 300), (0, 0, 1)), ((500, 100, 700, 300), (0, 0, 1)),
      ((50, 450, 350, 100), (1, 1, 0)), ((450, 450, 750, 150), (1, 1, 0))]"

definition bres_slope_type :: "int \<Rightarrow> int \<Rightarrow> string" where
  "bres_slope_type dx dy = (if dx > dy then ''|m| < 1'' else if dx < dy then ''|m| >= 1'' else ''|m| = 1'')"

definition bres_line_report :: "int \<Rightarrow> int \<Rightarrow> int \<Rightarrow> int \<Rightarrow> nat \<Rightarrow> string" where
  "bres_line_report x1 y1 x2 y2 n =
     (let dx = \<bar>x2 - x1\<bar>; dy = \<bar>y2 - y1\<bar>
      in ''Line ('' @ py_str x1 @ '','' @ py_str y1 @ '') to ('' @ py_str x2 @ '','' @ py_str y2
         @ ''): dx='' @ py_str dx @ '', dy='' @ py_str dy @ '', '' @ bres_slope_type dx dy
         @ '', points='' @ py_str (int n))"

definition bres_line_data :: "((int \<times> int \<times> int \<times> int) \<times> rgb) list \<Rightarrow> (point list \<times> rgb) list" where
  "bres_line_data lines = map (\<lambda>((x1, y1, x2, y2), color). (bresenham_line x1 y1 x2 y2, color)) lines"

definition bres_reports :: "((int \<times> int \<times> int \<times> int) \<times> rgb) list \<Rightarrow> app_event list" where
  "bres_reports lines =
     map Print (map (\<lambda>((x1, y1, x2, y2), color). bres_line_report x1 y1 x2 y2 (length (bresenham_line x1 y1 x2 y2))) lines)"

definition bres_frame :: "(point list \<times> rgb) list \<Rightarrow> gl_cmd list" where
  "bres_frame all_line_data =
     [glClear GL_COLOR_BUFFER_BIT, glClearColor 0.1 0.1 0.1 1]
     @ concat (map (\<lambda>(points, color). bres_draw_line_points points color) all_line_data)"

definition bresenham_main :: "glfw_env \<Rightarrow> app_result option" where
  "bresenham_main env =
     glfw_app env 800 600 ''Bresenham Line Drawing Algorithm''
       (Some (Inr (map GL (ortho_setup 800 600 @ [glPointSize 3]) @ bres_reports bres_demo_lines,
                   bres_frame (bres_line_data bres_demo_lines))))"

subsection \<open>The calls the programs issue\<close>

lemma dda_frame_calls:
  "gl_wf False (dda_frame pts) \<and> gl_no_transform (dda_frame pts)
   \<and> gl_clear_free (drop 2 (dda_frame pts))"
  by (simp add: dda_frame_def dda_draw_line_points_def)

lemma bres_frame_calls:
  "gl_wf False (bres_frame data) \<and> gl_no_transform (bres_frame data)
   \<and> gl_clear_free (drop 2 (bres_frame data))"
  by (auto simp: bres_frame_def bres_draw_line_points_def gl_color3_def list_all_iff intro!: gl_wf_concat)

lemma line_demo_setups:
  "gl_wf False (app_gl (map GL (ortho_setup 800 600 @ [glPointSize 2])))"
  "gl_wf False (app_gl (map GL (ortho_setup 800 600 @ [glPointSize 3]) @ bres_reports ls))"
  "gl_clear_free (app_gl (map GL (ortho_setup 800 600 @ [glPointSize 2])))"
  "gl_clear_free (app_gl (map GL (ortho_setup 800 600 @ [glPointSize 3]) @ bres_reports ls))"
  by (simp_all add: ortho_setup_def bres_reports_def gl_clear_free_def)

lemma line_demo_setups_quiet:
  "app_display s (map GL (ortho_setup 800 600 @ [glPointSize 2])) = []"
  "app_display s (map GL (ortho_setup 800 600 @ [glPointSize 3]) @ bres_reports ls) = []"
  by (simp_all only: app_display_append app_display_map_GL bres_reports_def app_map_Print append_Nil)

lemma dda_frame_block:
  "dda_frame pts = glClear GL_COLOR_BUFFER_BIT # glClearColor 0 0 0 1 # gl_points_block (1, 1, 1) (map gl_pixel pts)"
  by (simp add: dda_frame_def dda_draw_line_points_def gl_points_block_def gl_color3_def)

lemma bres_frame_blocks:
  "bres_frame data = glClear GL_COLOR_BUFFER_BIT # glClearColor 0.1 0.1 0.1 1
     # concat (map (\<lambda>(ps, c). gl_points_block c ps) (map (\<lambda>(pts, c). (map gl_pixel pts, c)) data))"
  by (simp add: bres_frame_def bres_draw_line_points_def gl_points_block_def comp_def split_def)

lemma line_demo_setup_ready:
  "ortho_ready (gl_run (gl_initial 800 600) (app_gl (map GL (ortho_setup 800 600 @ [glPointSize 2])))) 800 600"
  "ortho_ready (gl_run (gl_initial 800 600) (app_gl (map GL (ortho_setup 800 600 @ [glPointSize 3]) @ bres_reports ls))) 800 600"
  "gl_open (gl_run (gl_initial 800 600) (app_gl (map GL (ortho_setup 800 600 @ [glPointSize 2])))) = None"
  "gl_open (gl_run (gl_initial 800 600) (app_gl (map GL (ortho_setup 800 600 @ [glPointSize 3]) @ bres_reports ls))) = None"
  by (simp_all add: ortho_setup_run gl_initial_def ortho_ready_def bres_reports_def)

subsection \<open>Runs of the two programs\<close>

lemma dda_main_no_gl_error:
  assumes "dda_main env = Some r"
  shows "gl_errors (gl_run (gl_initial 800 600) (app_gl (app_events r))) = []"
  using glfw_app_no_gl_error [OF assms [unfolded dda_main_def]] line_demo_setups dda_frame_calls by blast

lemma bresenham_main_no_gl_error:
  assumes "bresenham_main env = Some r"
  shows "gl_errors (gl_run (gl_initial 800 600) (app_gl (app_events r))) = []"
  using glfw_app_no_gl_error [OF assms [unfolded bresenham_main_def]] line_demo_setups bres_frame_calls by blast

lemma dda_main_returns: "dda_main env \<noteq> None \<longleftrightarrow> \<not> init_ok env \<or> \<not> window_ok env \<or> (\<exists>k. should_close env k)"
  unfolding dda_main_def by (rule glfw_app_terminates_iff)

lemma bresenham_main_returns:
  "bresenham_main env \<noteq> None \<longleftrightarrow> \<not> init_ok env \<or> \<not> window_ok env \<or> (\<exists>k. should_close env k)"
  unfolding bresenham_main_def by (rule glfw_app_terminates_iff)

lemma dda_main_backgrounds:
  assumes "dda_main env = Some r"
  shows "let scrs = app_display (gl_initial 800 600) (app_events r)
         in map fst scrs = take (length scrs) ((0, 0, 0, 0) # replicate (length scrs) (0, 0, 0, 1))"
  using glfw_app_backgrounds [OF assms [unfolded dda_main_def dda_frame_block]]
    line_demo_setups line_demo_setups_quiet
  by (simp add: gl_clamp_def)

lemma bresenham_main_backgrounds:
  assumes "bresenham_main env = Some r"
  shows "let scrs = app_display (gl_initial 800 600) (app_events r)
         in map fst scrs = take (length scrs) ((0, 0, 0, 0) # replicate (length scrs) (0.1, 0.1, 0.1, 1))"
proof -
  let ?bl = "concat (map (\<lambda>(ps, c). gl_points_block c ps) (map (\<lambda>(pts, c). (map gl_pixel pts, c)) (bres_line_data bres_demo_lines)))"
  have wf: "gl_wf False ?bl" by (rule gl_wf_concat) auto
  have cf: "gl_clear_free ?bl" by (auto simp: list_all_iff)
  show ?thesis
    using glfw_app_backgrounds [OF assms [unfolded bresenham_main_def bres_frame_blocks]
        line_demo_setups_quiet(2) line_demo_setups(2) line_demo_setups(4) _ cf] wf
    by (simp add: gl_clamp_def)
qed

text \<open>What each screen of the two programs shows: one primitive per line table (one for the
  DDA program, which collects all points, one per line for the Bresenham program), whose
  vertices land on the pixels of the rasterised lines, flipped to OpenGL's upward y.\<close>

lemma dda_main_screens:
  assumes "dda_main env = Some r"
  shows "list_all (\<lambda>scr. map (map vx_window \<circ> prim_vertices) (snd scr) =
           [map (window_of_pixel 600) (dda_all_points dda_demo_lines)])
         (app_display (gl_initial 800 600) (app_events r))"
proof (rule glfw_app_screens_all [OF assms [unfolded dda_main_def] line_demo_setups_quiet(1)])
  show "gl_wf False (dda_frame (dda_all_points dda_demo_lines))" "gl_no_transform (dda_frame (dda_all_points dda_demo_lines))"
    using dda_frame_calls by blast+
  show "gl_open (gl_run (gl_initial 800 600) (app_gl (map GL (ortho_setup 800 600 @ [glPointSize 2])))) = None"
    by (rule line_demo_setup_ready(3))
next
  fix t :: gl_state
  assume t: "gl_open t = None"
    "gl_viewport t = gl_viewport (gl_run (gl_initial 800 600) (app_gl (map GL (ortho_setup 800 600 @ [glPointSize 2]))))"
    "gl_projection t = gl_projection (gl_run (gl_initial 800 600) (app_gl (map GL (ortho_setup 800 600 @ [glPointSize 2]))))"
    "gl_modelview t = gl_modelview (gl_run (gl_initial 800 600) (app_gl (map GL (ortho_setup 800 600 @ [glPointSize 2]))))"
  have ready: "ortho_ready t 800 600" by (rule ortho_ready_fields [OF line_demo_setup_ready(1) t(2-4)])
  show "map (map vx_window \<circ> prim_vertices) (snd (screen_of (gl_run t (dda_frame (dda_all_points dda_demo_lines))))) =
        [map (window_of_pixel 600) (dda_all_points dda_demo_lines)]"
  proof -
    let ?t' = "t\<lparr>gl_background := gl_clear_color t, gl_prims := [],
      gl_clear_color := (gl_clamp 0, gl_clamp 0, gl_clamp 0, gl_clamp 1), gl_color := (1, 1, 1)\<rparr>"
    have "ortho_ready ?t' 800 600" using ready by (simp add: ortho_ready_def)
    with t(1) show ?thesis by (simp add: dda_frame_block screen_of_def prim_of_windows)
  qed
qed

lemma bresenham_main_screens:
  assumes "bresenham_main env = Some r"
  shows "list_all (\<lambda>scr. map (map vx_window \<circ> prim_vertices) (snd scr) =
           map (\<lambda>(pts, c). map (window_of_pixel 600) pts) (bres_line_data bres_demo_lines))
         (app_display (gl_initial 800 600) (app_events r))"
proof (rule glfw_app_screens_all [OF assms [unfolded bresenham_main_def] line_demo_setups_quiet(2)])
  show "gl_wf False (bres_frame (bres_line_data bres_demo_lines))" "gl_no_transform (bres_frame (bres_line_data bres_demo_lines))"
    using bres_frame_calls by blast+
  show "gl_open (gl_run (gl_initial 800 600) (app_gl (map GL (ortho_setup 800 600 @ [glPointSize 3]) @ bres_reports bres_demo_lines))) = None"
    by (rule line_demo_setup_ready(4))
next
  fix t :: gl_state
  let ?s = "gl_run (gl_initial 800 600) (app_gl (map GL (ortho_setup 800 600 @ [glPointSize 3]) @ bres_reports bres_demo_lines))"
  assume t: "gl_open t = None" "gl_viewport t = gl_viewport ?s" "gl_projection t = gl_projection ?s" "gl_modelview t = gl_modelview ?s"
  have ready: "ortho_ready t 800 600" by (rule ortho_ready_fields [OF line_demo_setup_ready(2) t(2-4)])
  let ?t' = "t\<lparr>gl_background := gl_clear_color t, gl_prims := [],
      gl_clear_color := (gl_clamp 0.1, gl_clamp 0.1, gl_clamp 0.1, gl_clamp 1)\<rparr>"
  have "gl_open ?t' = None" "ortho_ready ?t' 800 600" using t(1) ready by (simp_all add: ortho_ready_def)
  from points_blocks_windows [OF this, of "bres_line_data bres_demo_lines"] t(1)
  show "map (map vx_window \<circ> prim_vertices) (snd (screen_of (gl_run t (bres_frame (bres_line_data bres_demo_lines))))) =
        map (\<lambda>(pts, c). map (window_of_pixel 600) pts) (bres_line_data bres_demo_lines)"
    by (simp add: bres_frame_blocks screen_of_def)
qed

subsection \<open>Console output\<close>

text \<open>The Bresenham program prints one report per line of its table, whose point count is
  \<open>max(dx, dy) + 1\<close> by \<open>bresenham_length\<close>; the DDA program prints nothing.\<close>

lemma bres_reports_eval:
  "app_prints (bres_reports bres_demo_lines) =
     [''Line (100,300) to (400,350): dx=300, dy=50, |m| < 1, points=301'',
      ''Line (100,200) to (400,150): dx=300, dy=50, |m| < 1, points=301'',
      ''Line (450,300) to (750,300): dx=300, dy=0, |m| < 1, points=301'',
      ''Line (200,100) to (250,500): dx=50, dy=400, |m| >= 1, points=401'',
      ''Line (350,500) to (400,100): dx=50, dy=400, |m| >= 1, points=401'',
      ''Line (600,100) to (600,500): dx=0, dy=400, |m| >= 1, points=401'',
      ''Line (100,100) to (300,300): dx=200, dy=200, |m| = 1, points=201'',
      ''Line (500,100) to (700,300): dx=200, dy=200, |m| = 1, points=201'',
      ''Line (50,450) to (350,100): dx=300, dy=350, |m| >= 1, points=351'',
      ''Line (450,450) to (750,150): dx=300, dy=300, |m| = 1, points=301'']"
  apply (simp add: bres_reports_def bres_demo_lines_def bresenham_length)
  apply (simp add: bres_line_report_def bres_slope_type_def py_format)
  done

lemma bresenham_main_prints:
  assumes "bresenham_main env = Some r" "init_ok env" "window_ok env"
  shows "app_prints (app_events r) = app_prints (bres_reports bres_demo_lines)"
  using glfw_app_prints [OF assms(1) [unfolded bresenham_main_def] assms(2,3)] by simp

lemma dda_main_prints:
  assumes "dda_main env = Some r" "init_ok env" "window_ok env"
  shows "app_prints (app_events r) = []"
  using glfw_app_prints [OF assms(1) [unfolded dda_main_def] assms(2,3)] by simp

end
