(* ===== verification/CurveDemos.thy ===== *)
theory CurveDemos
  imports Glfw MidpointCircle MidpointEllipse
begin

text \<open>
  The demonstration programs of the two curve rasterisers.  For \<open>src/mid_point_circle.py\<close>:
  \<open>draw_points\<close> (\<open>circle_draw_points\<close>), the circle table, the report printed per
  circle, one frame and \<open>main()\<close> (\<open>circle_main\<close>).  For \<open>src/mid_point_ellipse.py\<close>:
  \<open>draw_points\<close>, \<open>draw_axes\<close>, \<open>draw_grid\<close> and \<open>draw_bounding_box\<close>
  (\<open>ellipse_draw_*\<close>), the ellipse table, the dictionaries \<open>main()\<close> builds per ellipse
  (the record \<open>ellipse_entry\<close>), one frame and \<open>main()\<close> (\<open>ellipse_main\<close>).  The ellipse
  points are computed by \<open>midpoint_ellipse\<close>, whose first loop is a partial function:
  \<open>ellipse_entries\<close> returns \<open>None\<close> if one of them did not return, and \<open>main()\<close> then
  never reaches its event loop.
\<close>

definition circle_draw_points :: "point list \<Rightarrow> rgb \<Rightarrow> gl_cmd list" where
  "circle_draw_points points color =
     [gl_color3 color, glBegin GL_POINTS] @ gl_vertices (map gl_pixel points) @ [glEnd]"

definition circle_demo_circles :: "(int \<times> int \<times> int \<times> rgb) list" where
  "circle_demo_circles =
     [(200, 150, 80, (1, 0, 0)), (400, 300, 120, (0, 1, 0)), (600, 150, 60, (0, 0, 1)),
      (200, 450, 100, (1, 1, 0)), (600, 450, 90, (1, 0, 1)), (400, 150, 40, (0, 1, 1))]"

definition circle_data :: "(int \<times> int \<times> int \<times> rgb) list \<Rightarrow> (point list \<times> rgb) list" where
  "circle_data circles = map (\<lambda>(xc, yc, r, color). (midpoint_circle xc yc r, color)) circles"

definition circle_reports :: "(int \<times> int \<times> int \<times> rgb) list \<Rightarrow> app_event list" where
  "circle_reports circles =
     map Print (map (\<lambda>(xc, yc, r, color). ''Circle at ('' @ py_str xc @ '','' @ py_str yc @ '') with radius ''
            @ py_str r @ '': '' @ py_str (int (length (midpoint_circle xc yc r))) @ '' points generated'') circles)"

definition circle_frame :: "(point list \<times> rgb) list \<Rightarrow> gl_cmd list" where
  "circle_frame all_circle_data =
     [glClear GL_COLOR_BUFFER_BIT, glClearColor 0.05 0.05 0.05 1]
     @ concat (map (\<lambda>(points, color). circle_draw_points points color) all_circle_data)"

definition circle_main :: "glfw_env \<Rightarrow> app_result option" where
  "circle_main env =
     glfw_app env 800 600 ''Mid-Point Circle Drawing Algorithm''
       (Some (Inr (map GL (ortho_setup 800 600
                            @ [glEnable GL_BLEND, glBlendFunc GL_SRC_ALPHA GL_ONE_MINUS_SRC_ALPHA, glPointSize 2])
                   @ circle_reports circle_demo_circles,
                   circle_frame (circle_data circle_demo_circles))))"

definition ellipse_draw_points :: "point list \<Rightarrow> rgb \<Rightarrow> gl_cmd list" where
  "ellipse_draw_points points color =
     [gl_color3 color, glBegin GL_POINTS] @ gl_vertices (map gl_pixel points) @ [glEnd]"

definition ellipse_draw_axes :: "int \<Rightarrow> int \<Rightarrow> int \<Rightarrow> int \<Rightarrow> gl_cmd list" where
  "ellipse_draw_axes xc yc rx ry =
     [glColor3f 0.4 0.4 0.4, glLineWidth 1, glBegin GL_LINES,
      glVertex2f (of_int (xc - rx - 20)) (of_int yc), glVertex2f (of_int (xc + rx + 20)) (of_int yc),
      glVertex2f (of_int xc) (of_int (yc - ry - 20)), glVertex2f (of_int xc) (of_int (yc + ry + 20)), glEnd,
      glColor3f 1 1 0, glPointSize 6, glBegin GL_POINTS, glVertex2f (of_int xc) (of_int yc), glEnd]"

definition ellipse_draw_grid :: "int \<Rightarrow> int \<Rightarrow> int \<Rightarrow> gl_cmd list" where
  "ellipse_draw_grid width height spacing =
     [glColor3f 0.15 0.15 0.15, glLineWidth 1, glBegin GL_LINES]
     @ concat (map (\<lambda>x. [glVertex2f (of_int x) 0, glVertex2f (of_int x) (of_int height)]) (py_range_step 0 width spacing))
     @ concat (map (\<lambda>y. [glVertex2f 0 (of_int y), glVertex2f (of_int width) (of_int y)]) (py_range_step 0 height spacing))
     @ [glEnd]"

definition ellipse_draw_bounding_box :: "int \<Rightarrow> int \<Rightarrow> int \<Rightarrow> int \<Rightarrow> gl_cmd list" where
  "ellipse_draw_bounding_box xc yc rx ry =
     [glColor3f 0.3 0.3 0.5, glLineWidth 1, glBegin GL_LINE_LOOP,
      glVertex2f (of_int (xc - rx)) (of_int (yc - ry)), glVertex2f (of_int (xc + rx)) (of_int (yc - ry)),
      glVertex2f (of_int (xc + rx)) (of_int (yc + ry)), glVertex2f (of_int (xc - rx)) (of_int (yc + ry)), glEnd]"

definition ellipse_demo :: "(int \<times> int \<times> int \<times> int \<times> rgb \<times> string) list" where
  "ellipse_demo =
     [(250, 200, 150, 100, (1, 0.3, 0.3), ''Horizontal Ellipse''),
      (650, 200, 100, 150, (0.3, 1, 0.3), ''Vertical Ellipse''),
      (250, 550, 180, 120, (0.3, 0.5, 1), ''Wide Ellipse''),
      (650, 550, 120, 80, (1, 0.8, 0.2), ''Narrow Ellipse''),
      (500, 400, 100, 100, (1, 0.4, 0.8), ''Circle (rx=ry)'')]"

record ellipse_entry =
  ent_points :: "point list"
  ent_center :: "int \<times> int"
  ent_radii :: "int \<times> int"
  ent_color :: rgb
  ent_name :: string

fun ellipse_entries :: "(int \<times> int \<times> int \<times> int \<times> rgb \<times> string) list \<Rightarrow> ellipse_entry list option" where
  "ellipse_entries [] = Some []"
| "ellipse_entries ((xc, yc, rx, ry, color, name) # rest) =
     Option.bind (midpoint_ellipse xc yc rx ry) (\<lambda>points.
       Option.bind (ellipse_entries rest) (\<lambda>entries.
         Some (\<lparr>ent_points = points, ent_center = (xc, yc), ent_radii = (rx, ry),
                ent_color = color, ent_name = name\<rparr> # entries)))"

definition ellipse_frame :: "ellipse_entry list \<Rightarrow> gl_cmd list" where
  "ellipse_frame all_ellipse_data =
     [glClear GL_COLOR_BUFFER_BIT, glClearColor 0.05 0.05 0.1 1]
     @ ellipse_draw_grid 1000 800 50
     @ concat (map (\<lambda>e. case ent_center e of (xc, yc) \<Rightarrow> case ent_radii e of (rx, ry) \<Rightarrow>
                      ellipse_draw_bounding_box xc yc rx ry @ ellipse_draw_axes xc yc rx ry
                      @ ellipse_draw_points (ent_points e) (ent_color e)) all_ellipse_data)"

definition ellipse_main :: "glfw_env \<Rightarrow> app_result option" where
  "ellipse_main env =
     glfw_app env 1000 800 ''Mid-Point Ellipse Drawing Algorithm''
       (map_option (\<lambda>all_ellipse_data.
          Inr (map GL (ortho_setup 1000 800
                 @ [glEnable GL_LINE_SMOOTH, glEnable GL_POINT_SMOOTH, glEnable GL_BLEND,
                    glBlendFunc GL_SRC_ALPHA GL_ONE_MINUS_SRC_ALPHA,
                    glHint GL_LINE_SMOOTH_HINT GL_NICEST, glHint GL_POINT_SMOOTH_HINT GL_NICEST, glPointSize 2]),
               ellipse_frame all_ellipse_data))
        (ellipse_entries ellipse_demo))"

subsection \<open>The calls the circle program issues\<close>

lemma circle_frame_blocks:
  "circle_frame data = glClear GL_COLOR_BUFFER_BIT # glClearColor 0.05 0.05 0.05 1
     # concat (map (\<lambda>(ps, c). gl_points_block c ps) (map (\<lambda>(pts, c). (map gl_pixel pts, c)) data))"
  by (simp add: circle_frame_def circle_draw_points_def gl_points_block_def comp_def split_def)

lemma circle_frame_calls:
  "gl_wf False (circle_frame data) \<and> gl_no_transform (circle_frame data)"
  using points_blocks_calls [of "map (\<lambda>(pts, c). (map gl_pixel pts, c)) data"]
  by (simp only: circle_frame_blocks) simp

abbreviation circle_setup :: "app_event list" where
  "circle_setup \<equiv> map GL (ortho_setup 800 600 @ [glEnable GL_BLEND, glBlendFunc GL_SRC_ALPHA GL_ONE_MINUS_SRC_ALPHA,
     glPointSize 2]) @ circle_reports circle_demo_circles"

lemma circle_setup_facts:
  "gl_wf False (app_gl circle_setup)" "gl_clear_free (app_gl circle_setup)"
  "app_display (gl_initial 800 600) circle_setup = []"
  by (simp_all only: app_display_append app_display_map_GL circle_reports_def app_map_Print append_Nil)
     (simp_all add: ortho_setup_def circle_reports_def gl_clear_free_def)

lemma circle_setup_state:
  "ortho_ready (gl_run (gl_initial 800 600) (app_gl circle_setup)) 800 600"
  "gl_open (gl_run (gl_initial 800 600) (app_gl circle_setup)) = None"
  "gl_point_size (gl_run (gl_initial 800 600) (app_gl circle_setup)) = 2"
  by (simp_all add: ortho_setup_run gl_initial_def ortho_ready_def circle_reports_def)

lemma circle_main_no_gl_error:
  assumes "circle_main env = Some r"
  shows "gl_errors (gl_run (gl_initial 800 600) (app_gl (app_events r))) = []"
  using glfw_app_no_gl_error [OF assms [unfolded circle_main_def]] circle_setup_facts circle_frame_calls by blast

lemma circle_main_returns:
  "circle_main env \<noteq> None \<longleftrightarrow> \<not> init_ok env \<or> \<not> window_ok env \<or> (\<exists>k. should_close env k)"
  unfolding circle_main_def by (rule glfw_app_terminates_iff)

lemma circle_main_backgrounds:
  assumes "circle_main env = Some r"
  shows "let scrs = app_display (gl_initial 800 600) (app_events r)
         in map fst scrs = take (length scrs) ((0, 0, 0, 0) # replicate (length scrs) (0.05, 0.05, 0.05, 1))"
proof -
  let ?bl = "concat (map (\<lambda>(ps, c). gl_points_block c ps) (map (\<lambda>(pts, c). (map gl_pixel pts, c)) (circle_data circle_demo_circles)))"
  have "gl_wf False (glClear GL_COLOR_BUFFER_BIT # glClearColor 0.05 0.05 0.05 1 # ?bl)"
    using points_blocks_calls(1) [of "map (\<lambda>(pts, c). (map gl_pixel pts, c)) (circle_data circle_demo_circles)"] by simp
  from glfw_app_backgrounds [OF assms [unfolded circle_main_def circle_frame_blocks]
      circle_setup_facts(3,1,2) this points_blocks_calls(3)]
  show ?thesis by (simp add: gl_clamp_def)
qed

subsection \<open>The calls the ellipse program issues\<close>

lemma ellipse_entries_some: "\<exists>es. ellipse_entries xs = Some es \<and> length es = length xs"
proof (induction xs)
  case (Cons x xs)
  obtain xc yc rx ry c n where x: "x = (xc, yc, rx, ry, c, n)" by (cases x) auto
  from Cons.IH obtain es where "ellipse_entries xs = Some es" "length es = length xs" by blast
  then show ?case by (simp add: x midpoint_ellipse_walk_eq)
qed simp

lemma ellipse_entry_calls:
  "gl_wf False (ellipse_draw_bounding_box xc yc rx ry @ ellipse_draw_axes xc yc rx ry @ ellipse_draw_points pts c)"
  "gl_no_transform (ellipse_draw_bounding_box xc yc rx ry)" "gl_no_transform (ellipse_draw_axes xc yc rx ry)"
  "gl_no_transform (ellipse_draw_points pts c)"
  "gl_clear_free (ellipse_draw_bounding_box xc yc rx ry)" "gl_clear_free (ellipse_draw_axes xc yc rx ry)"
  "gl_clear_free (ellipse_draw_points pts c)"
  by (simp_all add: ellipse_draw_bounding_box_def ellipse_draw_axes_def ellipse_draw_points_def gl_color3_def)

lemma ellipse_grid_calls:
  "gl_wf False (ellipse_draw_grid width height spacing)" "gl_no_transform (ellipse_draw_grid width height spacing)"
  "gl_clear_free (ellipse_draw_grid width height spacing)"
  by (simp_all add: ellipse_draw_grid_def list_all_iff)

lemma ellipse_frame_calls:
  "gl_wf False (ellipse_frame es) \<and> gl_no_transform (ellipse_frame es) \<and> gl_clear_free (drop 2 (ellipse_frame es))"
proof -
  have "gl_wf False (concat (map (\<lambda>e. case ent_center e of (xc, yc) \<Rightarrow> case ent_radii e of (rx, ry) \<Rightarrow>
          ellipse_draw_bounding_box xc yc rx ry @ ellipse_draw_axes xc yc rx ry
          @ ellipse_draw_points (ent_points e) (ent_color e)) es))"
    by (rule gl_wf_concat) (auto simp: ellipse_entry_calls split: prod.splits)
  then show ?thesis
    by (auto simp: ellipse_frame_def ellipse_grid_calls list_all_iff ellipse_entry_calls
        intro!: gl_wf_append split: prod.splits)
qed

text \<open>Each ellipse draws two point primitives, its centre marker and its pixels, and
  \<open>draw_axes\<close> has just set the point size to 6 for the marker: both are drawn at size 6.\<close>

lemma ellipse_entry_run:
  assumes "gl_open t = None"
  shows "gl_open (gl_run t (ellipse_draw_bounding_box xc yc rx ry @ ellipse_draw_axes xc yc rx ry @ ellipse_draw_points pts c)) = None
    \<and> gl_point_size (gl_run t (ellipse_draw_bounding_box xc yc rx ry @ ellipse_draw_axes xc yc rx ry @ ellipse_draw_points pts c)) = 6
    \<and> gl_points_sizes (gl_prims (gl_run t (ellipse_draw_bounding_box xc yc rx ry @ ellipse_draw_axes xc yc rx ry
         @ ellipse_draw_points pts c))) = gl_points_sizes (gl_prims t) @ [6, 6]"
  using assms
  by (simp add: ellipse_draw_bounding_box_def ellipse_draw_axes_def ellipse_draw_points_def gl_color3_def
      gl_state_cmd.simps gl_prim_of_def)

lemma ellipse_entries_run:
  assumes "gl_open t = None"
  shows "gl_open (gl_run t (concat (map (\<lambda>e. case ent_center e of (xc, yc) \<Rightarrow> case ent_radii e of (rx, ry) \<Rightarrow>
            ellipse_draw_bounding_box xc yc rx ry @ ellipse_draw_axes xc yc rx ry
            @ ellipse_draw_points (ent_points e) (ent_color e)) es))) = None
    \<and> gl_points_sizes (gl_prims (gl_run t (concat (map (\<lambda>e. case ent_center e of (xc, yc) \<Rightarrow> case ent_radii e of (rx, ry) \<Rightarrow>
            ellipse_draw_bounding_box xc yc rx ry @ ellipse_draw_axes xc yc rx ry
            @ ellipse_draw_points (ent_points e) (ent_color e)) es))))
      = gl_points_sizes (gl_prims t) @ replicate (2 * length es) 6"
  using assms
proof (induction es arbitrary: t)
  case Nil
  then show ?case by simp
next
  case (Cons e es)
  obtain xc yc rx ry where c: "ent_center e = (xc, yc)" and r: "ent_radii e = (rx, ry)" by (cases "ent_center e", cases "ent_radii e") auto
  let ?t = "gl_run t (ellipse_draw_bounding_box xc yc rx ry @ ellipse_draw_axes xc yc rx ry @ ellipse_draw_points (ent_points e) (ent_color e))"
  have e: "gl_open ?t = None" "gl_points_sizes (gl_prims ?t) = gl_points_sizes (gl_prims t) @ [6, 6]"
    using ellipse_entry_run [OF Cons.prems] by blast+
  from Cons.IH [OF e(1)] e(2) show ?case
    by (simp add: c r del: gl_run_append) (simp add: gl_run_append [symmetric] del: gl_run_append)
qed

lemma ellipse_grid_run:
  "gl_open t = None \<Longrightarrow> gl_open (gl_run t (ellipse_draw_grid width height spacing)) = None
   \<and> gl_points_sizes (gl_prims (gl_run t (ellipse_draw_grid width height spacing))) = gl_points_sizes (gl_prims t)"
  by (simp add: ellipse_draw_grid_def)

lemma ellipse_frame_run:
  assumes "gl_open t = None"
  shows "gl_points_sizes (gl_prims (gl_run t (ellipse_frame es))) = replicate (2 * length es) 6"
proof -
  let ?t = "t\<lparr>gl_background := gl_clear_color t, gl_prims := [],
      gl_clear_color := (gl_clamp 0.05, gl_clamp 0.05, gl_clamp 0.1, gl_clamp 1)\<rparr>"
  have "gl_open ?t = None" "gl_points_sizes (gl_prims ?t) = []" using assms by simp_all
  with ellipse_grid_run [of ?t 1000 800 50] have g: "gl_open (gl_run ?t (ellipse_draw_grid 1000 800 50)) = None"
    "gl_points_sizes (gl_prims (gl_run ?t (ellipse_draw_grid 1000 800 50))) = []" by simp_all
  from ellipse_entries_run [OF g(1), of es] g(2) assms show ?thesis
    by (simp add: ellipse_frame_def del: gl_run_append) (simp add: gl_run_append [symmetric] del: gl_run_append)
qed

abbreviation ellipse_setup :: "app_event list" where
  "ellipse_setup \<equiv> map GL (ortho_setup 1000 800
     @ [glEnable GL_LINE_SMOOTH, glEnable GL_POINT_SMOOTH, glEnable GL_BLEND,
        glBlendFunc GL_SRC_ALPHA GL_ONE_MINUS_SRC_ALPHA,
        glHint GL_LINE_SMOOTH_HINT GL_NICEST, glHint GL_POINT_SMOOTH_HINT GL_NICEST, glPointSize 2])"

lemma ellipse_setup_facts:
  "gl_wf False (app_gl ellipse_setup)" "gl_clear_free (app_gl ellipse_setup)"
  "app_display (gl_initial 1000 800) ellipse_setup = []"
  by (simp_all only: app_display_map_GL app_gl_map_GL) (simp_all add: ortho_setup_def gl_clear_free_def)

lemma ellipse_setup_open: "gl_open (gl_run (gl_initial 1000 800) (app_gl ellipse_setup)) = None"
  by (simp add: ortho_setup_run gl_initial_def)

lemma ellipse_main_body:
  "\<exists>es. ellipse_main env = glfw_app env 1000 800 ''Mid-Point Ellipse Drawing Algorithm''
          (Some (Inr (ellipse_setup, ellipse_frame es))) \<and> length es = 5"
  using ellipse_entries_some [of ellipse_demo] by (auto simp: ellipse_main_def ellipse_demo_def)

lemma ellipse_main_no_gl_error:
  assumes "ellipse_main env = Some r"
  shows "gl_errors (gl_run (gl_initial 1000 800) (app_gl (app_events r))) = []"
proof -
  obtain es where "ellipse_main env = glfw_app env 1000 800 ''Mid-Point Ellipse Drawing Algorithm''
      (Some (Inr (ellipse_setup, ellipse_frame es)))" using ellipse_main_body by blast
  with assms have "glfw_app env 1000 800 ''Mid-Point Ellipse Drawing Algorithm''
      (Some (Inr (ellipse_setup, ellipse_frame es))) = Some r" by simp
  from glfw_app_no_gl_error [OF this ellipse_setup_facts(1)] ellipse_frame_calls show ?thesis by blast
qed

lemma ellipse_main_returns:
  "ellipse_main env \<noteq> None \<longleftrightarrow> \<not> init_ok env \<or> \<not> window_ok env \<or> (\<exists>k. should_close env k)"
proof -
  obtain es where "ellipse_main env = glfw_app env 1000 800 ''Mid-Point Ellipse Drawing Algorithm''
      (Some (Inr (ellipse_setup, ellipse_frame es)))" using ellipse_main_body by blast
  then show ?thesis by (simp only: glfw_app_terminates_iff)
qed

lemma ellipse_main_backgrounds:
  assumes "ellipse_main env = Some r"
  shows "let scrs = app_display (gl_initial 1000 800) (app_events r)
         in map fst scrs = take (length scrs) ((0, 0, 0, 0) # replicate (length scrs) (0.05, 0.05, 0.1, 1))"
proof -
  obtain es where b: "ellipse_main env = glfw_app env 1000 800 ''Mid-Point Ellipse Drawing Algorithm''
      (Some (Inr (ellipse_setup, ellipse_frame es)))" using ellipse_main_body by blast
  define rest where "rest = drop 2 (ellipse_frame es)"
  have f: "ellipse_frame es = glClear GL_COLOR_BUFFER_BIT # glClearColor 0.05 0.05 0.1 1 # rest"
    by (simp add: ellipse_frame_def rest_def)
  have wf: "gl_wf False (glClear GL_COLOR_BUFFER_BIT # glClearColor 0.05 0.05 0.1 1 # rest)"
    and cf: "gl_clear_free rest"
    using ellipse_frame_calls [of es] unfolding f rest_def [symmetric] by simp_all
  from glfw_app_backgrounds [OF assms [unfolded b, unfolded f] ellipse_setup_facts(3,1,2) wf cf]
  show ?thesis by (simp add: gl_clamp_def)
qed

text \<open>C30: in every frame the program shows, all ten point primitives (per ellipse its centre
  marker and its pixels) are drawn at point size 6: \<open>draw_axes\<close> sets \<open>glPointSize(6)\<close>
  for the marker just before \<open>draw_points\<close>, and nothing sets the size 2 of the set-up
  again.\<close>

lemma ellipse_main_point_sizes:
  assumes "ellipse_main env = Some r"
  shows "list_all (\<lambda>scr. gl_points_sizes (snd scr) = replicate 10 6)
           (app_display (gl_initial 1000 800) (app_events r))"
proof -
  obtain es where b: "ellipse_main env = glfw_app env 1000 800 ''Mid-Point Ellipse Drawing Algorithm''
      (Some (Inr (ellipse_setup, ellipse_frame es)))" and l: "length es = 5" using ellipse_main_body by blast
  show ?thesis
  proof (rule glfw_app_screens_all [OF assms [unfolded b] ellipse_setup_facts(3)])
    show "gl_wf False (ellipse_frame es)" "gl_no_transform (ellipse_frame es)"
      using ellipse_frame_calls by blast+
    show "gl_open (gl_run (gl_initial 1000 800) (app_gl ellipse_setup)) = None" by (rule ellipse_setup_open)
  next
    fix t :: gl_state
    assume "gl_open t = None"
    with ellipse_frame_run [of t es] l
    show "gl_points_sizes (snd (screen_of (gl_run t (ellipse_frame es)))) = replicate 10 6"
      by (simp add: screen_of_def)
  qed
qed

subsection \<open>Console output\<close>

lemma circle_reports_eval:
  "app_prints (circle_reports circle_demo_circles) =
     [''Circle at (200,150) with radius 80: 464 points generated'',
      ''Circle at (400,300) with radius 120: 688 points generated'',
      ''Circle at (600,150) with radius 60: 352 points generated'',
      ''Circle at (200,450) with radius 100: 576 points generated'',
      ''Circle at (600,450) with radius 90: 520 points generated'',
      ''Circle at (400,150) with radius 40: 240 points generated'']"
proof -
  have "length (midpoint_circle 200 150 80) = 464" "length (midpoint_circle 400 300 120) = 688"
    "length (midpoint_circle 600 150 60) = 352" "length (midpoint_circle 200 450 100) = 576"
    "length (midpoint_circle 600 450 90) = 520" "length (midpoint_circle 400 150 40) = 240"
    by code_simp+
  then show ?thesis
    by (simp add: circle_reports_def circle_demo_circles_def) (simp add: py_format)
qed

lemma circle_main_prints:
  assumes "circle_main env = Some r" "init_ok env" "window_ok env"
  shows "app_prints (app_events r) = app_prints (circle_reports circle_demo_circles)"
  using glfw_app_prints [OF assms(1) [unfolded circle_main_def] assms(2,3)] by simp

lemma ellipse_main_prints:
  assumes "ellipse_main env = Some r" "init_ok env" "window_ok env"
  shows "app_prints (app_events r) = []"
proof -
  obtain es where "ellipse_main env = glfw_app env 1000 800 ''Mid-Point Ellipse Drawing Algorithm''
      (Some (Inr (ellipse_setup, ellipse_frame es)))" using ellipse_main_body by blast
  from glfw_app_prints [OF assms(1) [unfolded this] assms(2,3)] show ?thesis by simp
qed

subsection \<open>Everything drawn lies in the window\<close>

lemma circle_demo_in_window:
  "list_all (\<lambda>p. 0 \<le> fst p \<and> fst p \<le> 800 \<and> 0 \<le> snd p \<and> snd p \<le> 600)
     (concat (map (\<lambda>(xc, yc, r, c). midpoint_circle xc yc r) circle_demo_circles))"
  by (simp add: circle_demo_circles_def) code_simp

lemma circle_main_visible:
  assumes "circle_main env = Some r"
  shows "drawn_in_window 800 600 (app_display (gl_initial 800 600) (app_events r))"
proof (rule glfw_app_visible [OF assms [unfolded circle_main_def circle_frame_blocks] circle_setup_facts(3) _ _
      circle_setup_state(2,1)])
  show "gl_wf False (glClear GL_COLOR_BUFFER_BIT # glClearColor 0.05 0.05 0.05 1
     # concat (map (\<lambda>(ps, c). gl_points_block c ps) (map (\<lambda>(pts, c). (map gl_pixel pts, c)) (circle_data circle_demo_circles))))"
    "gl_no_transform (glClear GL_COLOR_BUFFER_BIT # glClearColor 0.05 0.05 0.05 1
     # concat (map (\<lambda>(ps, c). gl_points_block c ps) (map (\<lambda>(pts, c). (map gl_pixel pts, c)) (circle_data circle_demo_circles))))"
    using circle_frame_calls [of "circle_data circle_demo_circles"] by (simp_all only: circle_frame_blocks)
  show "list_all (\<lambda>p. 0 \<le> fst p \<and> fst p \<le> of_int 800 \<and> 0 \<le> snd p \<and> snd p \<le> of_int 600)
     (gl_vertex_args (glClearColor 0.05 0.05 0.05 1
       # concat (map (\<lambda>(ps, c). gl_points_block c ps) (map (\<lambda>(pts, c). (map gl_pixel pts, c)) (circle_data circle_demo_circles)))))"
    using circle_demo_in_window
    by (simp add: circle_data_def list_all_iff gl_pixel_def split_def)
qed simp_all

lemma ellipse_entries_walk:
  "ellipse_entries xs = Some (map (\<lambda>(xc, yc, rx, ry, color, name). \<lparr>ent_points = ell_plot_all xc yc (ell_walk rx ry 0 ry),
     ent_center = (xc, yc), ent_radii = (rx, ry), ent_color = color, ent_name = name\<rparr>) xs)"
  by (induction xs rule: ellipse_entries.induct) (simp_all add: midpoint_ellipse_walk_eq)

lemma ellipse_grid_in_window:
  "list_all (\<lambda>p. 0 \<le> fst p \<and> fst p \<le> 1000 \<and> 0 \<le> snd p \<and> snd p \<le> 800) (gl_vertex_args (ellipse_draw_grid 1000 800 50))"
  by code_simp

lemma ellipse_demo_in_window:
  "list_all (\<lambda>p. 0 \<le> fst p \<and> fst p \<le> 1000 \<and> 0 \<le> snd p \<and> snd p \<le> 800)
     (concat (map (\<lambda>(xc, yc, rx, ry, color, name). ell_plot_all xc yc (ell_walk rx ry 0 ry)) ellipse_demo))"
  by (simp add: ellipse_demo_def) code_simp

lemma ellipse_setup_ready: "ortho_ready (gl_run (gl_initial 1000 800) (app_gl ellipse_setup)) 1000 800"
  by (simp add: ortho_setup_run gl_initial_def ortho_ready_def)

lemma ellipse_main_visible:
  assumes "ellipse_main env = Some r"
  shows "drawn_in_window 1000 800 (app_display (gl_initial 1000 800) (app_events r))"
proof -
  define es where "es = map (\<lambda>(xc, yc, rx, ry, color, name). \<lparr>ent_points = ell_plot_all xc yc (ell_walk rx ry 0 ry),
     ent_center = (xc, yc), ent_radii = (rx, ry), ent_color = color, ent_name = name\<rparr>) ellipse_demo"
  define rest where "rest = tl (ellipse_frame es)"
  have f: "ellipse_frame es = glClear GL_COLOR_BUFFER_BIT # rest" by (simp add: rest_def ellipse_frame_def)
  have run: "glfw_app env 1000 800 ''Mid-Point Ellipse Drawing Algorithm''
      (Some (Inr (ellipse_setup, glClear GL_COLOR_BUFFER_BIT # rest))) = Some r"
    using assms unfolding ellipse_main_def ellipse_entries_walk es_def [symmetric] by (simp add: f)
  have calls: "gl_wf False (glClear GL_COLOR_BUFFER_BIT # rest)" "gl_no_transform (glClear GL_COLOR_BUFFER_BIT # rest)"
    using ellipse_frame_calls [of es] unfolding f by simp_all
  have "list_all (\<lambda>p. 0 \<le> fst p \<and> fst p \<le> 1000 \<and> 0 \<le> snd p \<and> snd p \<le> 800) (gl_vertex_args rest)"
    using ellipse_grid_in_window gl_pixels_box [OF ellipse_demo_in_window]
    by (simp add: rest_def ellipse_frame_def es_def ellipse_draw_bounding_box_def ellipse_draw_axes_def
        ellipse_draw_points_def gl_color3_def list_all_iff gl_pixel_def split_def ellipse_demo_def)
       blast
  then show ?thesis
    by (intro glfw_app_visible [OF run ellipse_setup_facts(3) calls ellipse_setup_open ellipse_setup_ready]) simp_all
qed

end
