(* ===== verification/Spec2Isabelle.thy ===== *)
theory Spec2Isabelle
  imports Bresenham DDA MidpointCircle MidpointEllipse LineGraph PieChart LineDemos CurveDemos
begin

text \<open>
  \<^bold>\<open>A verification library for the COMP342 rasterisation programs.\<close>

  The repository holds six independent Python scripts under \<open>src/\<close>, each a small
  OpenGL demo around one scan-conversion routine: \<open>DDA.py\<close> and \<open>bresenham.py\<close>
  (line rasterisers), \<open>mid_point_circle.py\<close> and \<open>mid_point_ellipse.py\<close> (curve
  rasterisers), \<open>line_graph.py\<close> (a chart that normalises a dataset to pixels and
  joins the points with one of the two line rasterisers, of which it keeps its own
  copies) and \<open>pie_chart.py\<close> (a partition of the circle into sectors and the
  vertex streams that draw them).  The routines interact only inside
  \<open>line_graph.py\<close>: \<open>main\<close> calls \<open>normalize_data\<close>, whose pixels
  \<open>generate_graph_lines\<close> feeds pairwise to a rasteriser chosen by a string.  Every
  script's \<open>main()\<close> has the same shape: it opens a GLFW window, sets up an
  orthographic projection, computes its pixels once, prints a report, and then draws
  them with OpenGL calls in a loop until the window is closed.

  \<^bold>\<open>Modelling conventions\<close> (theory \<open>Prelude\<close>).  Python ints are \<^typ>\<open>int\<close>
  (unbounded, as in Python, so no wrap-around arises); Python floats are
  \<^typ>\<open>real\<close>, i.e. the floating-point accumulation of the DDA and the pie chart is
  read as exact arithmetic, an abstraction that every statement about those two
  inherits (the spec itself states their properties "within floating-point
  tolerance").  The built-ins whose rounding matters are modelled exactly:
  \<open>round\<close> is \<open>py_round\<close> (half to even) and \<open>int()\<close> is \<open>py_int\<close> (truncation).
  A pixel is a pair of ints, and 8-connectivity of a pixel sequence is
  \<open>connected\<close>.  Raised exceptions are values of \<open>py_error\<close> on the left of a sum
  type; loops are recursive functions whose arguments are the loop variables.  The
  printing built-ins are modelled on the values the programs print: \<open>str\<close> of an
  int, the format specifiers \<open>:.1f\<close>, \<open>ljust\<close>/\<open>rjust\<close>, and the float
  \<open>repr\<close> (\<open>py_float_repr\<close>: the shortest digits, at most 17 significant, in fixed
  notation for decimal exponents from -4 to 15 and in exponent notation otherwise);
  the bundle \<open>py_format\<close> evaluates them by \<open>simp\<close>.

  \<^bold>\<open>Components, theories and definitions.\<close>
  \<^item> \<open>Bresenham\<close>: \<open>bresenham_line\<close> (\<open>src/bresenham.py\<close>) with its two \<open>for\<close> loops
    \<open>bres_x_loop\<close>/\<open>bres_y_loop\<close>, counted by \<open>range(d + 1)\<close>.  Specification
    \<open>bresenham_ref\<close>: the k-th pixel is k steps along the driving axis and rounds the
    ideal minor offset half up.  Lemmas: the loops compute the specification
    (C1), endpoints, length, unit steps, connectivity and the half-pixel error bound.
  \<^item> \<open>DDA\<close>: \<open>dda_line\<close> (\<open>src/DDA.py\<close>) with its accumulating loop \<open>dda_loop\<close>.
    Specification \<open>dda_ref\<close>, the rounded closed form; the same family of lemmas,
    and the half-to-even tie behaviour that makes the DDA depend on the parity of
    the coordinates.
  \<^item> \<open>MidpointCircle\<close>: \<open>plot_circle_points\<close>, \<open>midpoint_circle\<close> with its
    \<open>while x < y\<close> loop \<open>circle_loop\<close> (a \<^theory_text>\<open>function\<close> terminating by
    the measure \<open>y - x\<close>) and the vertex stream of \<open>draw_filled_circle\<close>.
    Specification \<open>circle_octant\<close> on the midpoint test \<open>circle_mid\<close>; lemmas:
    refinement, the distance band \<open>(r - 1, r + 1)\<close>, 8-way symmetry, length, and
    the overshoot past the diagonal that duplicates a pixel.
  \<^item> \<open>MidpointEllipse\<close>: \<open>midpoint_ellipse\<close> with its locals as the record
    \<open>ellipse_state\<close>, the set-up \<open>ellipse_init\<close>, the loop bodies
    \<open>ellipse_step1\<close>/\<open>ellipse_step2\<close> and the loops \<open>ellipse_region1\<close> (a
    \<^theory_text>\<open>partial_function (option)\<close>: \<open>while dx < dy\<close> has no syntactic measure)
    and \<open>ellipse_region2\<close> (measure \<open>y + 1\<close>).  Specification: the walks
    \<open>ell_ref1\<close>/\<open>ell_ref2\<close> on the implicit function \<open>ell_F\<close>.  The loop invariants
    \<open>ellipse_inv1\<close>/\<open>ellipse_inv2\<close> (slope terms track the point, decision
    parameter equals \<open>ell_F\<close> at the tested midpoint) are preserved by every step;
    they give the refinement (C20), the termination of region 1 for all radii
    (C21), the best-pixel property of region 1 (C22), symmetry and end points.
  \<^item> \<open>LineGraph\<close>: \<open>lg_bresenham_line\<close>/\<open>lg_dda_line\<close> (the copies, proved equal
    to the models above), \<open>normalize_data\<close> with its per-point body
    \<open>normalize_point\<close> and the zero-range clamp \<open>data_range\<close>, its two return
    shapes as \<open>normalize_result\<close>, \<open>generate_graph_lines\<close> and \<open>line_graph_main\<close>
    (the normalise-then-draw lines of \<open>main\<close>, where unpacking \<open>[]\<close> raises
    \<open>ValueError\<close>).  Lemmas: error path, bounds of the normalised pixels, the
    single-point clamp, extremes and monotonicity, and the polyline structure of the
    chart line, proved once for any rasteriser with the endpoint and connectivity
    properties (\<open>graph_segments_shape\<close>) and discharged by Bresenham and DDA.
  \<^item> \<open>PieChart\<close>: \<open>create_pie_chart\<close> with the record \<open>sector\<close> and its loop
    \<open>pie_loop\<close>, the arc sampling \<open>sector_segments\<close>/\<open>sector_arc_angles\<close> and the
    OpenGL call sequences of \<open>draw_filled_circle_sector\<close>, \<open>draw_sector_outline\<close>,
    \<open>draw_circle_outline\<close>, \<open>draw_pie_chart\<close>, \<open>draw_legend\<close>,
    \<open>draw_labels_on_chart\<close>, and the whole console output of \<open>main\<close>
    (\<open>pie_prints\<close>, the sector table and the \<open>Colors:\<close> block).  Lemmas: error path,
    per-sector contents, contiguity, the full turn and the 100\<open>%\<close> sum, the
    unchecked negative total, the shape of a sector's fan, the exact fifteen lines
    \<open>main\<close> prints (C5) and that the chart, its labels and its legend fit the window.
  \<^item> \<open>GL\<close>: the OpenGL library the programs call, modelled from the OpenGL
    specification (it is not code of the repository): the calls they make as the
    datatype \<open>gl_cmd\<close>, the context as the record \<open>gl_state\<close> (matrices, viewport,
    current colour, point size and line width, clear colour, the open primitive, the
    primitives drawn since the last \<open>glClear\<close>, the error flags) and the state machine
    \<open>gl_exec\<close>/\<open>gl_run\<close>, with \<open>GL_INVALID_OPERATION\<close> inside \<open>glBegin\<close>/\<open>glEnd\<close>
    and \<open>GL_INVALID_VALUE\<close> for non-positive sizes.  The static check \<open>gl_wf\<close>
    (balanced \<open>glBegin\<close>/\<open>glEnd\<close>, only vertex and colour calls inside) is sound:
    a well-formed sequence records no error (\<open>gl_wf_run\<close>).  \<open>gl_vertex_args\<close>
    lists the \<open>glVertex2f\<close> arguments of a sequence and \<open>gl_drawn_in\<close> says that
    every recorded vertex satisfies a predicate; a sequence that does not change the
    matrices and whose vertices satisfy it keeps that invariant (\<open>gl_drawn_in_run\<close>).
  \<^item> \<open>Glfw\<close>: GLFW as an environment \<open>glfw_env\<close> (does \<open>glfw.init()\<close> succeed, is
    a window created, what \<open>window_should_close\<close> answers at its n-th test); a run of
    a program is its list of calls \<open>app_event\<close>.  \<open>glfw_app\<close> is the shape every
    \<open>main()\<close> shares (early returns, context, set-up, loop, \<open>glfw.terminate()\<close>),
    \<open>event_loop\<close> its \<open>while\<close> loop, \<open>ortho_setup\<close> the projection set-up, and
    \<open>app_display\<close> the screens shown at each \<open>glfw.swap_buffers\<close>.  Lemmas: the
    loop returns exactly when the window is eventually closed and then runs one frame
    per negative test; the GL calls of a run are the set-up followed by copies of the
    frame; the screens of a run; pixel-to-window positions under the projection;
    the lines a run prints are those of its set-up; \<open>drawn_in_window\<close> says every
    vertex of every screen lands inside the window, and \<open>glfw_app_visible\<close> reduces
    it to the box bounds of the frame's vertex arguments.
  \<^item> \<open>LineDemos\<close>, \<open>CurveDemos\<close>: the \<open>draw_*\<close> routines and the \<open>main()\<close> functions
    of \<open>DDA.py\<close>, \<open>bresenham.py\<close>, \<open>mid_point_circle.py\<close> and
    \<open>mid_point_ellipse.py\<close> (\<open>dda_main\<close>, \<open>bresenham_main\<close>, \<open>circle_main\<close>,
    \<open>ellipse_main\<close>): their tables, console reports, frames and runs.  The
    \<open>main()\<close> of \<open>line_graph.py\<close> (\<open>lg_main\<close>, with \<open>lg_draw_*\<close>) is in
    \<open>LineGraph\<close>, that of \<open>pie_chart.py\<close> (\<open>pie_main\<close>) in \<open>PieChart\<close>.  Lemmas
    per program: no GL error, returns iff the window is closed, the background of each
    screen, the exact console output, that every vertex lies in the window, and the
    point sizes actually used by the line graph and the ellipse demo.

  \<^bold>\<open>Loops, bounds and fuel.\<close>  No fuel is used.  The \<open>for\<close> loops are structural
  recursions on their iteration count; the circle's \<open>while\<close> loop and the ellipse's
  region 2 are \<^theory_text>\<open>function\<close>s with measures; the ellipse's region 1 is a
  \<^theory_text>\<open>partial_function (option)\<close> and its return is a theorem
  (\<open>ellipse_region1_terminates\<close>), not an assumption.  The render loop
  \<open>event_loop\<close> is a \<^theory_text>\<open>partial_function (option)\<close> too, since it really may run
  for ever; when it returns is a theorem (C11).  Concrete witnesses are evaluated by
  \<open>simp\<close> or \<open>code_simp\<close>; the runs of the programs are witnessed in \<open>demo_env\<close>,
  where the user closes the window after two frames, enough to show the first frame
  and a later one.

  \<^bold>\<open>Cross-component properties\<close> (this theory): when the driving length of a
  segment is odd no minor offset falls on a tie and the two line rasterisers return
  the same pixels (\<open>dda_bresenham_agree\<close>), while on a tie they differ
  (\<open>dda_bresenham_tie\<close>); every pixel either rasteriser emits lies in the bounding
  box of its endpoints, so every pixel of the chart line of \<open>line_graph_main\<close> lies
  in the drawing area (\<open>line_graph_in_window\<close>).  Over all six programs: every
  vertex drawn in every screen lies inside the window (C31), each prints exactly its
  report (C8, C5), no run makes a GL call
  that fails (C6), each returns exactly when the window is closed (C11), every
  drawing routine is well formed (C25), the point routines' primitives decode back to
  their pixels (C17), and because every frame calls \<open>glClear\<close> before
  \<open>glClearColor\<close> the first frame shows the default background (C32).

  \<^bold>\<open>Not modelled.\<close>  What OpenGL does below the primitive level: rasterising
  primitives to framebuffer pixels, blending, smoothing hints (\<open>glEnable\<close> and
  \<open>glBlendFunc\<close> are recorded in the state and \<open>glHint\<close> is a no-op, but nothing
  reads them).
  GLFW's window-system behaviour beyond the environment \<open>glfw_env\<close>.  The float
  \<open>repr\<close> is that of the exact real rounded to 17 significant digits, which agrees
  with Python on the short decimal literals the programs print, not on every double.
  \<open>glColor4f\<close> of \<open>draw_filled_circle\<close> (never called by \<open>main\<close>), whose vertex
  stream is modelled.  \<open>cos\<close>/\<open>sin\<close> in
  the pie chart are HOL's, so its vertex streams are exact; floating-point rounding
  error is not modelled (see above).
\<close>

text \<open>The bounding box of a segment, for the pixels a line rasteriser may emit.\<close>

definition in_seg_box :: "int \<Rightarrow> int \<Rightarrow> int \<Rightarrow> int \<Rightarrow> point \<Rightarrow> bool" where
  "in_seg_box x1 y1 x2 y2 p \<longleftrightarrow>
     min x1 x2 \<le> fst p \<and> fst p \<le> max x1 x2 \<and> min y1 y2 \<le> snd p \<and> snd p \<le> max y1 y2"

text \<open>A GLFW environment for the witnesses: initialisation and the window succeed, and the
  user closes the window after the second frame.\<close>

definition demo_env :: glfw_env where
  "demo_env = \<lparr>init_ok = True, window_ok = True, should_close = (\<lambda>n. 2 \<le> n)\<rparr>"

text \<open>An environment in which the user never closes the window.\<close>

definition never_close_env :: glfw_env where
  "never_close_env = \<lparr>init_ok = True, window_ok = True, should_close = (\<lambda>n. False)\<rparr>"

subsection \<open>Bresenham and the DDA agree away from ties\<close>

text \<open>
  Both rasterisers step the driving axis by one unit; on the minor axis Bresenham
  rounds the ideal offset half up (\<open>bres_minor\<close>) and the DDA rounds it half to even
  (\<open>py_round\<close>).  When the driving length is odd no ideal offset is a half-integer,
  so the two lines are equal; on a tie they differ.
\<close>

lemma round_minor_nontie:
  assumes "0 < D" "odd D" "\<bar>d\<bar> \<le> D"
  shows "py_round (of_int c + of_nat k * of_int d / of_int D) = c + sgn d * bres_minor D \<bar>d\<bar> k"
proof -
  let ?m = "bres_minor D \<bar>d\<bar> k"
  have b: "2 * D * ?m \<le> 2 * int k * \<bar>d\<bar> + D" "2 * int k * \<bar>d\<bar> + D < 2 * D * ?m + 2 * D"
    using bres_minor_bounds [OF assms(1)] by simp_all
  have "2 * D * ?m \<noteq> 2 * int k * \<bar>d\<bar> + D"
  proof
    assume "2 * D * ?m = 2 * int k * \<bar>d\<bar> + D"
    then have "even (2 * int k * \<bar>d\<bar> + D)" by (metis dvd_triv_left mult.assoc)
    with assms(2) show False by simp
  qed
  with b have lo: "2 * D * ?m < 2 * int k * \<bar>d\<bar> + D" by simp
  define q where "q = of_nat k * of_int \<bar>d\<bar> / (of_int D :: real)"
  have D: "(0::real) < of_int D" using assms(1) by simp
  have "of_int (2 * D * ?m) < (of_int (2 * int k * \<bar>d\<bar> + D) :: real)"
    "(of_int (2 * int k * \<bar>d\<bar> + D) :: real) < of_int (2 * D * ?m + 2 * D)"
    using lo b(2) by (simp only: of_int_less_iff)+
  then have "2 * of_int D * of_int ?m < 2 * (of_nat k * of_int \<bar>d\<bar>) + (of_int D :: real)"
    "2 * (of_nat k * of_int \<bar>d\<bar>) + of_int D < 2 * of_int D * of_int ?m + 2 * (of_int D :: real)"
    by simp_all
  then have "of_int ?m - 1/2 < q" "q < of_int ?m + 1/2"
    using D unfolding q_def by (simp_all add: field_simps)
  then have close: "\<bar>q - of_int ?m\<bar> < 1/2" unfolding abs_less_iff by linarith
  have "of_nat k * of_int d / of_int D = of_int (sgn d) * q"
    unfolding q_def by (cases "d < 0") (simp_all add: sgn_if abs_if)
  then have "\<bar>of_int c + of_nat k * of_int d / of_int D - of_int (c + sgn d * ?m)\<bar>
             = \<bar>of_int (sgn d)\<bar> * \<bar>q - of_int ?m\<bar>"
    by (simp add: algebra_simps abs_mult [symmetric])
  also have "\<dots> \<le> \<bar>q - of_int ?m\<bar>" by (simp add: sgn_if)
  finally show ?thesis using close by (intro py_round_unique) simp
qed

lemma dda_bresenham_agree:
  assumes "odd (max \<bar>x2 - x1\<bar> \<bar>y2 - y1\<bar>)"
  shows "dda_line x1 y1 x2 y2 = bresenham_line x1 y1 x2 y2"
proof (cases "\<bar>y2 - y1\<bar> < \<bar>x2 - x1\<bar>")
  case True
  then have s: "max \<bar>x2 - x1\<bar> \<bar>y2 - y1\<bar> = \<bar>x2 - x1\<bar>" and D: "0 < \<bar>x2 - x1\<bar>" by auto
  have "(py_round (of_int x1 + of_nat k * of_int (x2 - x1) / of_int \<bar>x2 - x1\<bar>),
         py_round (of_int y1 + of_nat k * of_int (y2 - y1) / of_int \<bar>x2 - x1\<bar>))
      = (x1 + sgn (x2 - x1) * int k, y1 + sgn (y2 - y1) * bres_minor \<bar>x2 - x1\<bar> \<bar>y2 - y1\<bar> k)" for k
  proof -
    have "py_round (of_int x1 + of_nat k * of_int (x2 - x1) / of_int \<bar>x2 - x1\<bar>) = x1 + int k * sgn (x2 - x1)"
      by (simp only: dda_int_point [OF refl D] py_round_of_int)
    then show ?thesis
      using round_minor_nontie [OF D _ less_imp_le [OF True], of y1 k] assms s by (simp add: mult.commute)
  qed
  then show ?thesis using True s
    by (simp add: dda_line_eq_ref dda_ref_def bresenham_line_eq_ref bresenham_ref_def Let_def del: upt_Suc)
next
  case False
  then have s: "max \<bar>x2 - x1\<bar> \<bar>y2 - y1\<bar> = \<bar>y2 - y1\<bar>" by auto
  with assms have D: "0 < \<bar>y2 - y1\<bar>" by (cases "y2 = y1") auto
  have "(py_round (of_int x1 + of_nat k * of_int (x2 - x1) / of_int \<bar>y2 - y1\<bar>),
         py_round (of_int y1 + of_nat k * of_int (y2 - y1) / of_int \<bar>y2 - y1\<bar>))
      = (x1 + sgn (x2 - x1) * bres_minor \<bar>y2 - y1\<bar> \<bar>x2 - x1\<bar> k, y1 + sgn (y2 - y1) * int k)" for k
  proof -
    have "py_round (of_int y1 + of_nat k * of_int (y2 - y1) / of_int \<bar>y2 - y1\<bar>) = y1 + int k * sgn (y2 - y1)"
      by (simp only: dda_int_point [OF refl D] py_round_of_int)
    then show ?thesis
      using round_minor_nontie [OF D _ , of "x2 - x1" x1 k] assms s False by (simp add: mult.commute)
  qed
  then show ?thesis using False s
    by (simp add: dda_line_eq_ref dda_ref_def bresenham_line_eq_ref bresenham_ref_def Let_def del: upt_Suc)
qed

lemma dda_bresenham_tie: "dda_line 0 0 4 2 \<noteq> bresenham_line 0 0 4 2"
  by code_simp


subsection \<open>The chart stays in its drawing area\<close>

text \<open>
  Every pixel either rasteriser emits lies in the bounding box of its two endpoints;
  the normalised data points lie in the drawing area; hence every pixel of the chart
  line built by \<open>line_graph_main\<close> lies in the drawing area.
\<close>

lemma py_round_between:
  assumes "of_int a \<le> x" "x \<le> of_int b"
  shows "a \<le> py_round x \<and> py_round x \<le> b"
proof -
  have "x - 1/2 \<le> of_int (py_round x)" "of_int (py_round x) \<le> x + 1/2" using py_round_bounds [of x] by simp_all
  with assms have "of_int a - (1::real) < of_int (py_round x)" by linarith
  moreover from assms have "of_int (py_round x) < of_int b + (1::real)"
    using \<open>of_int (py_round x) \<le> x + 1/2\<close> by linarith
  ultimately have "a - 1 < py_round x" "py_round x < b + 1" by linarith+
  then show ?thesis by linarith
qed

lemma sgn_step_between:
  fixes c d t :: int
  assumes "0 \<le> t" "t \<le> \<bar>d\<bar>"
  shows "min c (c + d) \<le> c + sgn d * t \<and> c + sgn d * t \<le> max c (c + d)"
  using assms by (cases "0 < d"; cases "d = 0") (auto simp: sgn_if)

lemma bres_minor_range:
  assumes "0 < D" "0 \<le> dmin" "int k \<le> D"
  shows "0 \<le> bres_minor D dmin k \<and> bres_minor D dmin k \<le> dmin"
proof -
  have b: "2 * D * bres_minor D dmin k \<le> 2 * int k * dmin + D" "2 * int k * dmin + D < 2 * D * bres_minor D dmin k + 2 * D"
    using bres_minor_bounds [OF assms(1)] by simp_all
  have e: "2 * int k * dmin \<le> 2 * D * dmin" using assms(2,3) by (simp add: mult_right_mono)
  have "2 * D * (dmin + 1) = 2 * D * dmin + 2 * D" by (simp add: algebra_simps)
  then have "2 * D * bres_minor D dmin k < 2 * D * (dmin + 1)" using b(1) e assms(1) by linarith
  then have "bres_minor D dmin k < dmin + 1" using assms(1) by (simp add: mult_less_cancel_left_pos)
  moreover have "0 \<le> 2 * int k * dmin" using assms(2) by simp
  then have "- (2 * D) < 2 * D * bres_minor D dmin k" using b(2) assms(1) by linarith
  then have "2 * D * (- 1) < 2 * D * bres_minor D dmin k" by simp
  then have "- 1 < bres_minor D dmin k"
  proof (rule contrapos_pp)
    assume "\<not> - 1 < bres_minor D dmin k"
    then have "2 * D * bres_minor D dmin k \<le> 2 * D * (- 1)" using assms(1) by (intro mult_left_mono) simp_all
    then show "\<not> 2 * D * (- 1) < 2 * D * bres_minor D dmin k" by simp
  qed
  ultimately show ?thesis by simp
qed

lemma real_between:
  fixes t :: real and a b :: int
  assumes "0 \<le> t" "t \<le> 1"
  shows "of_int (min a b) \<le> of_int a + t * of_int (b - a) \<and> of_int a + t * of_int (b - a) \<le> of_int (max a b)"
proof (cases "a \<le> b")
  case True
  have "0 \<le> t * of_int (b - a)" "t * of_int (b - a) \<le> of_int (b - a)"
    using assms True by (simp_all add: mult_left_le_one_le)
  with True show ?thesis by simp
next
  case False
  define X where "X = t * of_int (a - b)"
  have "0 \<le> X" "X \<le> of_int a - of_int b"
    using assms False mult_left_le_one_le [of "of_int (a - b)" t] by (simp_all add: X_def)
  moreover have "of_int a + t * of_int (b - a) = of_int a - X" by (simp add: X_def algebra_simps)
  moreover have "min a b = b" "max a b = a" using False by simp_all
  ultimately show ?thesis by simp
qed

lemma bresenham_in_seg_box:
  assumes "p \<in> set (bresenham_line x1 y1 x2 y2)"
  shows "in_seg_box x1 y1 x2 y2 p"
proof (cases "\<bar>y2 - y1\<bar> < \<bar>x2 - x1\<bar>")
  case True
  then have "p \<in> (\<lambda>k. (x1 + sgn (x2 - x1) * int k, y1 + sgn (y2 - y1) * bres_minor \<bar>x2 - x1\<bar> \<bar>y2 - y1\<bar> k))
               ` set [0..<nat \<bar>x2 - x1\<bar> + 1]"
    using assms by (simp add: bresenham_line_eq_ref bresenham_ref_def Let_def del: upt_Suc)
  then obtain k where "k \<in> set [0..<nat \<bar>x2 - x1\<bar> + 1]"
    and p: "p = (x1 + sgn (x2 - x1) * int k, y1 + sgn (y2 - y1) * bres_minor \<bar>x2 - x1\<bar> \<bar>y2 - y1\<bar> k)"
    by blast
  then have k: "k \<le> nat \<bar>x2 - x1\<bar>" by (auto simp del: upt_Suc)
  have "0 \<le> bres_minor \<bar>x2 - x1\<bar> \<bar>y2 - y1\<bar> k \<and> bres_minor \<bar>x2 - x1\<bar> \<bar>y2 - y1\<bar> k \<le> \<bar>y2 - y1\<bar>"
    using True k by (intro bres_minor_range) auto
  then show ?thesis
    using sgn_step_between [of "int k" "x2 - x1" x1] sgn_step_between [of _ "y2 - y1" y1] k
    unfolding p in_seg_box_def by auto
next
  case False
  then have "p \<in> (\<lambda>k. (x1 + sgn (x2 - x1) * bres_minor \<bar>y2 - y1\<bar> \<bar>x2 - x1\<bar> k, y1 + sgn (y2 - y1) * int k))
               ` set [0..<nat \<bar>y2 - y1\<bar> + 1]"
    using assms by (simp add: bresenham_line_eq_ref bresenham_ref_def Let_def del: upt_Suc)
  then obtain k where "k \<in> set [0..<nat \<bar>y2 - y1\<bar> + 1]"
    and p: "p = (x1 + sgn (x2 - x1) * bres_minor \<bar>y2 - y1\<bar> \<bar>x2 - x1\<bar> k, y1 + sgn (y2 - y1) * int k)"
    by blast
  then have k: "k \<le> nat \<bar>y2 - y1\<bar>" by (auto simp del: upt_Suc)
  show ?thesis
  proof (cases "y2 = y1")
    case True
    with False k p show ?thesis by (simp add: in_seg_box_def)
  next
    case ne: False
    have "0 \<le> bres_minor \<bar>y2 - y1\<bar> \<bar>x2 - x1\<bar> k \<and> bres_minor \<bar>y2 - y1\<bar> \<bar>x2 - x1\<bar> k \<le> \<bar>x2 - x1\<bar>"
      using ne k by (intro bres_minor_range) auto
    then show ?thesis
      using sgn_step_between [of "int k" "y2 - y1" y1] sgn_step_between [of _ "x2 - x1" x1] k False
      unfolding p in_seg_box_def by auto
  qed
qed

lemma dda_in_seg_box:
  assumes "p \<in> set (dda_line x1 y1 x2 y2)"
  shows "in_seg_box x1 y1 x2 y2 p"
proof -
  define s where "s = max \<bar>x2 - x1\<bar> \<bar>y2 - y1\<bar>"
  have "p \<in> (\<lambda>k. (py_round (of_int x1 + of_nat k * of_int (x2 - x1) / of_int s),
                 py_round (of_int y1 + of_nat k * of_int (y2 - y1) / of_int s))) ` set [0..<nat s + 1]"
    using assms by (simp add: dda_line_eq_ref dda_ref_def Let_def s_def del: upt_Suc)
  then obtain k where "k \<in> set [0..<nat s + 1]"
    and p: "p = (py_round (of_int x1 + of_nat k * of_int (x2 - x1) / of_int s),
                 py_round (of_int y1 + of_nat k * of_int (y2 - y1) / of_int s))"
    by blast
  then have k: "k \<le> nat s" by (auto simp del: upt_Suc)
  define t where "t = (of_nat k / of_int s :: real)"
  have t: "0 \<le> t" "t \<le> 1"
  proof -
    show "0 \<le> t" unfolding t_def by (simp add: s_def)
    show "t \<le> 1"
    proof (cases "s = 0")
      case False
      then have "0 < s" by (simp add: s_def)
      moreover have "of_nat k \<le> (of_int s :: real)" using k \<open>0 < s\<close> by linarith
      ultimately show ?thesis unfolding t_def by simp
    qed (simp add: t_def)
  qed
  have e: "of_nat k * of_int d / of_int s = t * of_int d" for d by (simp add: t_def)
  show ?thesis
    using real_between [OF t, of x1 x2] real_between [OF t, of y1 y2]
    unfolding p in_seg_box_def e fst_conv snd_conv
    by (meson py_round_between)
qed

lemma graph_segments_box:
  assumes f: "\<And>a b c d p. p \<in> set (f a b c d) \<Longrightarrow> in_seg_box a b c d p"
  shows "\<forall>q \<in> set pts. lx \<le> fst q \<and> fst q \<le> hx \<and> ly \<le> snd q \<and> snd q \<le> hy \<Longrightarrow>
    \<forall>p \<in> set (graph_segments f pts). lx \<le> fst p \<and> fst p \<le> hx \<and> ly \<le> snd p \<and> snd p \<le> hy"
proof (induction pts rule: induct_list012)
  case (3 p q rest)
  have "lx \<le> fst r \<and> fst r \<le> hx \<and> ly \<le> snd r \<and> snd r \<le> hy" if "r \<in> set (f (fst p) (snd p) (fst q) (snd q))" for r
    using f [OF that] "3.prems" unfolding in_seg_box_def by auto
  with "3.IH"(2) "3.prems" show ?case by auto
qed simp_all

lemma line_graph_main_box:
  assumes "2 * margin \<le> width" "2 * margin \<le> height"
    and "line_graph_main data width height margin algorithm = Inr (pts, bnds, g)"
  shows "list_all (\<lambda>p. margin \<le> fst p \<and> fst p \<le> width - margin \<and> margin \<le> snd p \<and> snd p \<le> height - margin) pts
    \<and> list_all (\<lambda>p. margin \<le> fst p \<and> fst p \<le> width - margin \<and> margin \<le> snd p \<and> snd p \<le> height - margin) g"
proof -
  obtain nb where n: "normalize_data data width height margin = Normalized pts nb"
    and g: "g = generate_graph_lines pts algorithm"
    using assms(3) by (auto simp: line_graph_main_def split: normalize_result.splits)
  have p: "\<forall>q \<in> set pts. margin \<le> fst q \<and> fst q \<le> width - margin \<and> margin \<le> snd q \<and> snd q \<le> height - margin"
    using normalize_data_box [OF assms(1,2) n] by auto
  moreover have "\<And>a b c d p. p \<in> set ((if algorithm = ''bresenham'' then bresenham_line else dda_line) a b c d)
                   \<Longrightarrow> in_seg_box a b c d p"
    using bresenham_in_seg_box dda_in_seg_box by (cases "algorithm = ''bresenham''") simp_all
  ultimately have "\<forall>p \<in> set g. margin \<le> fst p \<and> fst p \<le> width - margin \<and> margin \<le> snd p \<and> snd p \<le> height - margin"
    unfolding g generate_graph_lines_segments by (rule graph_segments_box [rotated])
  with p show ?thesis by (simp add: list_all_iff)
qed

text \<open>C28: composition of normaliser and rasterisers.  When the margins fit in the
  window, every pixel of the chart line that \<open>main\<close> builds (normalise the data, then
  join consecutive points with the selected rasteriser) lies in the drawing area
  \<open>[margin, width - margin] \<times> [margin, height - margin]\<close>, for either algorithm.\<close>

theorem line_graph_in_window:
  assumes "2 * margin \<le> width" "2 * margin \<le> height"
    and "line_graph_main data width height margin algorithm = Inr (pts, bnds, g)"
  shows "\<forall>(u, v) \<in> set g. margin \<le> u \<and> u \<le> width - margin \<and> margin \<le> v \<and> v \<le> height - margin"
  using line_graph_main_box [OF assms] by (auto simp: list_all_iff)

theorem line_graph_in_window_witness:
  "2 * 5 \<le> (20::int)
   \<and> line_graph_main [(0, 0), (1, 2), (2, 1)] 20 20 5 ''bresenham'' =
       Inr ([(5, 15), (10, 5), (15, 10)], (0, 2, 0, 2), generate_graph_lines [(5, 15), (10, 5), (15, 10)] ''bresenham'')
   \<and> (12, 7) \<in> set (generate_graph_lines [(5, 15), (10, 5), (15, 10)] ''bresenham'')
   \<and> (5::int) \<le> 12 \<and> (12::int) \<le> 20 - 5 \<and> (5::int) \<le> 7 \<and> (7::int) \<le> 20 - 5"
proof -
  have r: "line_graph_main [(0, 0), (1, 2), (2, 1)] 20 20 5 ''bresenham'' =
     Inr ([(5, 15), (10, 5), (15, 10)], (0, 2, 0, 2), generate_graph_lines [(5, 15), (10, 5), (15, 10)] ''bresenham'')"
    by code_simp
  have m: "(12, 7) \<in> set (generate_graph_lines [(5, 15), (10, 5), (15, 10)] ''bresenham'')"
    by code_simp
  have "(5::int) \<le> 12 \<and> (12::int) \<le> 20 - 5 \<and> (5::int) \<le> 7 \<and> (7::int) \<le> 20 - 5"
    using line_graph_in_window [OF _ _ r] m by fastforce
  with r m show ?thesis by simp
qed


subsection \<open>The drawing routines and the programs\<close>




lemma dda_demo_in_window:
  "p \<in> set (dda_all_points dda_demo_lines) \<Longrightarrow> 0 \<le> fst p \<and> fst p \<le> 800 \<and> 0 \<le> snd p \<and> snd p \<le> 600"
  unfolding dda_all_points_def dda_demo_lines_def
  by (auto dest!: dda_in_seg_box simp: in_seg_box_def)

lemma bres_demo_in_window:
  "(ps, c) \<in> set (bres_line_data bres_demo_lines) \<Longrightarrow> p \<in> set ps \<Longrightarrow>
   0 \<le> fst p \<and> fst p \<le> 800 \<and> 0 \<le> snd p \<and> snd p \<le> 600"
  unfolding bres_line_data_def bres_demo_lines_def
  by (auto dest!: bresenham_in_seg_box simp: in_seg_box_def)

lemma lg_main_visible:
  assumes "lg_main env = Some r"
  shows "drawn_in_window 1000 700 (app_display (gl_initial 1000 700) (app_events r))"
proof -
  obtain grid gpts pts b where m: "lg_main env = glfw_app env 1000 700 ''Line Graph - DDA/Bresenham Algorithm''
       (Some (Inr (lg_setup, lg_frame 1000 700 80 grid gpts pts (1, 0.5, 0.2))))"
    and g: "lg_draw_grid 1000 700 80 10 = Inr grid"
    and l: "line_graph_main (map (\<lambda>(x, y). (of_int x, of_int y)) (ds_data (lg_datasets ! 1))) 1000 700 80 ''dda''
         = Inr (pts, b, gpts)"
    using lg_main_body by blast
  define rest where "rest = tl (lg_frame 1000 700 80 grid gpts pts (1, 0.5, 0.2))"
  have fr: "lg_frame 1000 700 80 grid gpts pts (1, 0.5, 0.2) = glClear GL_COLOR_BUFFER_BIT # rest"
    by (simp add: rest_def lg_frame_def)
  have calls: "gl_wf False (glClear GL_COLOR_BUFFER_BIT # rest)" "gl_no_transform (glClear GL_COLOR_BUFFER_BIT # rest)"
    using lg_frame_calls [OF g, of gpts pts "(1, 0.5, 0.2)"] unfolding fr by simp_all
  have ready: "ortho_ready (gl_run (gl_initial 1000 700) (app_gl lg_setup)) 1000 700"
    by (simp add: ortho_setup_run gl_initial_def ortho_ready_def lg_reports_def)
  have box: "list_all (\<lambda>p. 0 \<le> fst p \<and> fst p \<le> 1000 \<and> 0 \<le> snd p \<and> snd p \<le> 700) qs"
    if "list_all (\<lambda>p. 80 \<le> fst p \<and> fst p \<le> 1000 - 80 \<and> 80 \<le> snd p \<and> snd p \<le> 700 - 80) qs" for qs :: "point list"
    using that by (auto simp: list_all_iff)
  from line_graph_main_box [OF _ _ l] have "list_all (\<lambda>p. 0 \<le> fst p \<and> fst p \<le> 1000 \<and> 0 \<le> snd p \<and> snd p \<le> 700) pts"
    "list_all (\<lambda>p. 0 \<le> fst p \<and> fst p \<le> 1000 \<and> 0 \<le> snd p \<and> snd p \<le> 700) gpts"
    using box by simp_all
  then have pix: "list_all (\<lambda>p. 0 \<le> fst p \<and> fst p \<le> of_int 1000 \<and> 0 \<le> snd p \<and> snd p \<le> of_int 700) (map gl_pixel pts)"
    "list_all (\<lambda>p. 0 \<le> fst p \<and> fst p \<le> of_int 1000 \<and> 0 \<le> snd p \<and> snd p \<le> of_int 700) (map gl_pixel gpts)"
    by (simp_all only: gl_pixels_box)
  have "list_all (\<lambda>p. 0 \<le> fst p \<and> fst p \<le> of_int 1000 \<and> 0 \<le> snd p \<and> snd p \<le> of_int 700) (gl_vertex_args grid)"
    using g by (auto simp: lg_draw_grid_def Let_def list_all_iff)
  with pix have "list_all (\<lambda>p. 0 \<le> fst p \<and> fst p \<le> of_int 1000 \<and> 0 \<le> snd p \<and> snd p \<le> of_int 700) (gl_vertex_args rest)"
    by (simp add: rest_def lg_frame_def lg_draw_axes_def lg_draw_points_def lg_draw_data_points_markers_def gl_color3_def)
  with glfw_app_visible [OF assms [unfolded m fr] lg_setup_facts(3) calls lg_setup_state(1) ready]
  show ?thesis by simp
qed

lemma dda_main_visible:
  assumes "dda_main env = Some r"
  shows "drawn_in_window 800 600 (app_display (gl_initial 800 600) (app_events r))"
proof -
  define rest where "rest = tl (dda_frame (dda_all_points dda_demo_lines))"
  have fr: "dda_frame (dda_all_points dda_demo_lines) = glClear GL_COLOR_BUFFER_BIT # rest"
    by (simp add: rest_def dda_frame_def)
  have calls: "gl_wf False (glClear GL_COLOR_BUFFER_BIT # rest)" "gl_no_transform (glClear GL_COLOR_BUFFER_BIT # rest)"
    using dda_frame_calls [of "dda_all_points dda_demo_lines"] unfolding fr by simp_all
  have "list_all (\<lambda>p. 0 \<le> fst p \<and> fst p \<le> 800 \<and> 0 \<le> snd p \<and> snd p \<le> 600) (dda_all_points dda_demo_lines)"
    using dda_demo_in_window by (auto simp: list_all_iff)
  from gl_pixels_box [OF this]
  have "list_all (\<lambda>p. 0 \<le> fst p \<and> fst p \<le> of_int 800 \<and> 0 \<le> snd p \<and> snd p \<le> of_int 600) (gl_vertex_args rest)"
    by (simp only: rest_def dda_frame_def dda_draw_line_points_def list.sel gl_vertex_args.simps gl_vertex_args_append
        gl_vertex_args_vertices append_Cons append_Nil append_Nil2)
  with glfw_app_visible [OF assms [unfolded dda_main_def fr] line_demo_setups_quiet(1) calls line_demo_setup_ready(3,1)]
  show ?thesis by simp
qed

lemma bresenham_main_visible:
  assumes "bresenham_main env = Some r"
  shows "drawn_in_window 800 600 (app_display (gl_initial 800 600) (app_events r))"
proof -
  define rest where "rest = tl (bres_frame (bres_line_data bres_demo_lines))"
  have fr: "bres_frame (bres_line_data bres_demo_lines) = glClear GL_COLOR_BUFFER_BIT # rest"
    by (simp add: rest_def bres_frame_def)
  have calls: "gl_wf False (glClear GL_COLOR_BUFFER_BIT # rest)" "gl_no_transform (glClear GL_COLOR_BUFFER_BIT # rest)"
    using bres_frame_calls [of "bres_line_data bres_demo_lines"] unfolding fr by simp_all
  have "list_all (\<lambda>p. 0 \<le> fst p \<and> fst p \<le> 800 \<and> 0 \<le> snd p \<and> snd p \<le> 600)
      (concat (map fst (bres_line_data bres_demo_lines)))"
    using bres_demo_in_window by (fastforce simp: list_all_iff)
  from gl_pixels_box [OF this]
  have "list_all (\<lambda>p. 0 \<le> fst p \<and> fst p \<le> of_int 800 \<and> 0 \<le> snd p \<and> snd p \<le> of_int 600) (gl_vertex_args rest)"
    by (simp add: rest_def bres_frame_blocks map_concat comp_def split_def)
  with glfw_app_visible [OF assms [unfolded bresenham_main_def fr] line_demo_setups_quiet(2) calls line_demo_setup_ready(4,2)]
  show ?thesis by simp
qed

lemma demo_env_returns:
  "\<exists>r1 r2 r3 r4 r5 r6. dda_main demo_env = Some r1 \<and> bresenham_main demo_env = Some r2
     \<and> circle_main demo_env = Some r3 \<and> ellipse_main demo_env = Some r4
     \<and> lg_main demo_env = Some r5 \<and> pie_main demo_env = Some r6"
proof -
  have c: "\<exists>k. should_close demo_env k" by (auto simp: demo_env_def)
  show ?thesis
    using dda_main_returns [of demo_env] bresenham_main_returns [of demo_env] circle_main_returns [of demo_env]
      ellipse_main_returns [of demo_env] lg_main_returns [of demo_env] pie_main_returns [of demo_env] c
    by blast
qed

text \<open>C6: safety of the OpenGL calls.  In every environment, every run of each of the six
  programs that returns issues only calls OpenGL accepts: executed from the context's initial
  state they record no \<open>GL_INVALID_OPERATION\<close> or \<open>GL_INVALID_VALUE\<close> error.\<close>

theorem programs_no_gl_error:
  "(dda_main env = Some r1 \<longrightarrow> gl_errors (gl_run (gl_initial 800 600) (app_gl (app_events r1))) = [])
   \<and> (bresenham_main env = Some r2 \<longrightarrow> gl_errors (gl_run (gl_initial 800 600) (app_gl (app_events r2))) = [])
   \<and> (circle_main env = Some r3 \<longrightarrow> gl_errors (gl_run (gl_initial 800 600) (app_gl (app_events r3))) = [])
   \<and> (ellipse_main env = Some r4 \<longrightarrow> gl_errors (gl_run (gl_initial 1000 800) (app_gl (app_events r4))) = [])
   \<and> (lg_main env = Some r5 \<longrightarrow> gl_errors (gl_run (gl_initial 1000 700) (app_gl (app_events r5))) = [])
   \<and> (pie_main env = Some r6 \<longrightarrow> gl_errors (gl_run (gl_initial 1000 700) (app_gl (app_events r6))) = [])"
  using dda_main_no_gl_error [of env r1] bresenham_main_no_gl_error [of env r2] circle_main_no_gl_error [of env r3]
    ellipse_main_no_gl_error [of env r4] lg_main_no_gl_error [of env r5] pie_main_no_gl_error [of env r6]
  by (intro conjI impI) assumption+

theorem programs_no_gl_error_witness:
  "\<exists>r1 r2 r3 r4 r5 r6. dda_main demo_env = Some r1 \<and> bresenham_main demo_env = Some r2
     \<and> circle_main demo_env = Some r3 \<and> ellipse_main demo_env = Some r4
     \<and> lg_main demo_env = Some r5 \<and> pie_main demo_env = Some r6
     \<and> gl_errors (gl_run (gl_initial 800 600) (app_gl (app_events r1))) = []
     \<and> gl_errors (gl_run (gl_initial 1000 700) (app_gl (app_events r6))) = []"
proof -
  obtain r1 r2 r3 r4 r5 r6 where r: "dda_main demo_env = Some r1" "bresenham_main demo_env = Some r2"
    "circle_main demo_env = Some r3" "ellipse_main demo_env = Some r4" "lg_main demo_env = Some r5"
    "pie_main demo_env = Some r6"
    using demo_env_returns by blast
  show ?thesis
    using programs_no_gl_error [of demo_env r1 r2 r3 r4 r5 r6] r by blast
qed

text \<open>C11: liveness.  Each program's \<open>main()\<close> returns exactly when \<open>glfw.init()\<close> fails,
  the window cannot be created, or the user eventually closes the window; otherwise it runs
  its event loop for ever.\<close>

theorem programs_return_iff_closed:
  "(dda_main env \<noteq> None \<longleftrightarrow> \<not> init_ok env \<or> \<not> window_ok env \<or> (\<exists>k. should_close env k))
   \<and> (bresenham_main env \<noteq> None \<longleftrightarrow> \<not> init_ok env \<or> \<not> window_ok env \<or> (\<exists>k. should_close env k))
   \<and> (circle_main env \<noteq> None \<longleftrightarrow> \<not> init_ok env \<or> \<not> window_ok env \<or> (\<exists>k. should_close env k))
   \<and> (ellipse_main env \<noteq> None \<longleftrightarrow> \<not> init_ok env \<or> \<not> window_ok env \<or> (\<exists>k. should_close env k))
   \<and> (lg_main env \<noteq> None \<longleftrightarrow> \<not> init_ok env \<or> \<not> window_ok env \<or> (\<exists>k. should_close env k))
   \<and> (pie_main env \<noteq> None \<longleftrightarrow> \<not> init_ok env \<or> \<not> window_ok env \<or> (\<exists>k. should_close env k))"
  unfolding dda_main_returns bresenham_main_returns circle_main_returns ellipse_main_returns
    lg_main_returns pie_main_returns by simp

theorem programs_return_iff_closed_witness:
  "dda_main demo_env \<noteq> None \<and> pie_main demo_env \<noteq> None
   \<and> dda_main never_close_env = None \<and> pie_main never_close_env = None"
  using programs_return_iff_closed [of demo_env] programs_return_iff_closed [of never_close_env]
  by (auto simp: demo_env_def never_close_env_def)




text \<open>C31: bounds.  Every vertex that any of the six programs draws, in every frame it
  shows, lies inside its window: the line tables, circles, ellipses, grids, axes, the
  normalised chart and the pie, its labels and its legend all fit, so nothing is clipped.\<close>

theorem programs_visible:
  "(dda_main env = Some r1 \<longrightarrow> drawn_in_window 800 600 (app_display (gl_initial 800 600) (app_events r1)))
   \<and> (bresenham_main env = Some r2 \<longrightarrow> drawn_in_window 800 600 (app_display (gl_initial 800 600) (app_events r2)))
   \<and> (circle_main env = Some r3 \<longrightarrow> drawn_in_window 800 600 (app_display (gl_initial 800 600) (app_events r3)))
   \<and> (ellipse_main env = Some r4 \<longrightarrow> drawn_in_window 1000 800 (app_display (gl_initial 1000 800) (app_events r4)))
   \<and> (lg_main env = Some r5 \<longrightarrow> drawn_in_window 1000 700 (app_display (gl_initial 1000 700) (app_events r5)))
   \<and> (pie_main env = Some r6 \<longrightarrow> drawn_in_window 1000 700 (app_display (gl_initial 1000 700) (app_events r6)))"
  using dda_main_visible [of env r1] bresenham_main_visible [of env r2] circle_main_visible [of env r3]
    ellipse_main_visible [of env r4] lg_main_visible [of env r5] pie_main_visible [of env r6]
  by (intro conjI impI) assumption+

theorem programs_visible_witness:
  "\<exists>r1 r6. dda_main demo_env = Some r1 \<and> pie_main demo_env = Some r6
     \<and> drawn_in_window 800 600 (app_display (gl_initial 800 600) (app_events r1))
     \<and> drawn_in_window 1000 700 (app_display (gl_initial 1000 700) (app_events r6))"
proof -
  obtain r1 r2 r3 r4 r5 r6 where r: "dda_main demo_env = Some r1" "bresenham_main demo_env = Some r2"
    "circle_main demo_env = Some r3" "ellipse_main demo_env = Some r4" "lg_main demo_env = Some r5"
    "pie_main demo_env = Some r6"
    using demo_env_returns by blast
  show ?thesis
    using programs_visible [of demo_env r1 r2 r3 r4 r5 r6] r by blast
qed

text \<open>C32: ordering of the clear calls.  Every program calls \<open>glClear\<close> before
  \<open>glClearColor\<close> in its frame, so the first frame it shows has OpenGL's default
  background (0, 0, 0, 0) and only the later frames have the colour the program sets.\<close>

theorem programs_first_screen_default_background:
  "(dda_main env = Some r1 \<longrightarrow> (let scrs = app_display (gl_initial 800 600) (app_events r1)
       in map fst scrs = take (length scrs) ((0, 0, 0, 0) # replicate (length scrs) (0, 0, 0, 1))))
   \<and> (bresenham_main env = Some r2 \<longrightarrow> (let scrs = app_display (gl_initial 800 600) (app_events r2)
       in map fst scrs = take (length scrs) ((0, 0, 0, 0) # replicate (length scrs) (0.1, 0.1, 0.1, 1))))
   \<and> (circle_main env = Some r3 \<longrightarrow> (let scrs = app_display (gl_initial 800 600) (app_events r3)
       in map fst scrs = take (length scrs) ((0, 0, 0, 0) # replicate (length scrs) (0.05, 0.05, 0.05, 1))))
   \<and> (ellipse_main env = Some r4 \<longrightarrow> (let scrs = app_display (gl_initial 1000 800) (app_events r4)
       in map fst scrs = take (length scrs) ((0, 0, 0, 0) # replicate (length scrs) (0.05, 0.05, 0.1, 1))))
   \<and> (lg_main env = Some r5 \<longrightarrow> (let scrs = app_display (gl_initial 1000 700) (app_events r5)
       in map fst scrs = take (length scrs) ((0, 0, 0, 0) # replicate (length scrs) (0.05, 0.05, 0.1, 1))))
   \<and> (pie_main env = Some r6 \<longrightarrow> (let scrs = app_display (gl_initial 1000 700) (app_events r6)
       in map fst scrs = take (length scrs) ((0, 0, 0, 0) # replicate (length scrs) (0.1, 0.1, 0.15, 1))))"
  using dda_main_backgrounds [of env r1] bresenham_main_backgrounds [of env r2] circle_main_backgrounds [of env r3]
    ellipse_main_backgrounds [of env r4] lg_main_backgrounds [of env r5] pie_main_backgrounds [of env r6]
  by (intro conjI impI) assumption+


theorem programs_first_screen_default_background_witness:
  "\<exists>r1 r6. dda_main demo_env = Some r1 \<and> pie_main demo_env = Some r6
     \<and> (let scrs = app_display (gl_initial 800 600) (app_events r1)
        in map fst scrs = take (length scrs) ((0, 0, 0, 0) # replicate (length scrs) (0, 0, 0, 1)))
     \<and> (let scrs = app_display (gl_initial 1000 700) (app_events r6)
        in map fst scrs = take (length scrs) ((0, 0, 0, 0) # replicate (length scrs) (0.1, 0.1, 0.15, 1)))"
proof -
  obtain r1 r2 r3 r4 r5 r6 where r: "dda_main demo_env = Some r1" "bresenham_main demo_env = Some r2"
    "circle_main demo_env = Some r3" "ellipse_main demo_env = Some r4" "lg_main demo_env = Some r5"
    "pie_main demo_env = Some r6"
    using demo_env_returns by blast
  show ?thesis
    using programs_first_screen_default_background [of demo_env r1 r2 r3 r4 r5 r6] r by blast
qed


theorem lg_main_point_sizes_witness:
  "\<exists>r. lg_main demo_env = Some r
     \<and> (let scrs = app_display (gl_initial 1000 700) (app_events r)
        in map (\<lambda>scr. gl_points_sizes (snd scr)) scrs = take (length scrs) ([2, 8] # replicate (length scrs) [8, 8]))"
proof -
  obtain r where r: "lg_main demo_env = Some r"
    using demo_env_returns by blast
  show ?thesis using LineGraph.lg_main_point_sizes [OF r] r by blast
qed

theorem ellipse_main_point_sizes_witness:
  "\<exists>r. ellipse_main demo_env = Some r
     \<and> list_all (\<lambda>scr. gl_points_sizes (snd scr) = replicate 10 6) (app_display (gl_initial 1000 800) (app_events r))"
proof -
  obtain r where r: "ellipse_main demo_env = Some r"
    using demo_env_returns by blast
  show ?thesis using CurveDemos.ellipse_main_point_sizes [OF r] r by blast
qed


theorem pie_main_console_witness:
  "\<exists>r. pie_main demo_env = Some r
     \<and> app_prints (app_events r) ! 4 = ''Product C   :   15.0 (  8.6%)''
     \<and> app_prints (app_events r) ! 12 = ''Product C   : RGB(0.2, 0.4, 1.0)''"
proof -
  obtain r where r: "pie_main demo_env = Some r"
    using demo_env_returns by blast
  have "init_ok demo_env" "window_ok demo_env" by (simp_all add: demo_env_def)
  from PieChart.pie_main_console [OF r this] r show ?thesis by simp
qed


text \<open>C8: the console output.  Once the window is open, the Bresenham program prints one
  report per line of its table (end points, \<open>dx\<close>, \<open>dy\<close>, the slope class and the
  number of pixels), the circle program one line per circle with the number of pixels
  \<open>midpoint_circle\<close> returned, the line graph the points of the dataset it draws, and
  the DDA and ellipse programs nothing.\<close>

theorem programs_console_output:
  assumes "init_ok env" "window_ok env"
  shows "(dda_main env = Some r1 \<longrightarrow> app_prints (app_events r1) = [])
   \<and> (bresenham_main env = Some r2 \<longrightarrow> app_prints (app_events r2) =
       [''Line (100,300) to (400,350): dx=300, dy=50, |m| < 1, points=301'',
        ''Line (100,200) to (400,150): dx=300, dy=50, |m| < 1, points=301'',
        ''Line (450,300) to (750,300): dx=300, dy=0, |m| < 1, points=301'',
        ''Line (200,100) to (250,500): dx=50, dy=400, |m| >= 1, points=401'',
        ''Line (350,500) to (400,100): dx=50, dy=400, |m| >= 1, points=401'',
        ''Line (600,100) to (600,500): dx=0, dy=400, |m| >= 1, points=401'',
        ''Line (100,100) to (300,300): dx=200, dy=200, |m| = 1, points=201'',
        ''Line (500,100) to (700,300): dx=200, dy=200, |m| = 1, points=201'',
        ''Line (50,450) to (350,100): dx=300, dy=350, |m| >= 1, points=351'',
        ''Line (450,450) to (750,150): dx=300, dy=300, |m| = 1, points=301''])
   \<and> (circle_main env = Some r3 \<longrightarrow> app_prints (app_events r3) =
       [''Circle at (200,150) with radius 80: 464 points generated'',
        ''Circle at (400,300) with radius 120: 688 points generated'',
        ''Circle at (600,150) with radius 60: 352 points generated'',
        ''Circle at (200,450) with radius 100: 576 points generated'',
        ''Circle at (600,450) with radius 90: 520 points generated'',
        ''Circle at (400,150) with radius 40: 240 points generated''])
   \<and> (ellipse_main env = Some r4 \<longrightarrow> app_prints (app_events r4) = [])
   \<and> (lg_main env = Some r5 \<longrightarrow> app_prints (app_events r5) =
       [''  Point 1: (1, 15)'', ''  Point 2: (2, 18)'', ''  Point 3: (3, 22)'', ''  Point 4: (4, 25)'',
        ''  Point 5: (5, 28)'', ''  Point 6: (6, 32)'', ''  Point 7: (7, 30)'', ''  Point 8: (8, 27)'',
        ''  Point 9: (9, 23)'', ''  Point 10: (10, 20)''])"
  using dda_main_prints [OF _ assms, of r1] bresenham_main_prints [OF _ assms, of r2] bres_reports_eval
    circle_main_prints [OF _ assms, of r3] circle_reports_eval ellipse_main_prints [OF _ assms, of r4]
    lg_main_prints [OF _ assms, of r5] lg_reports_eval
  by simp

theorem programs_console_output_witness:
  "\<exists>r2 r5. bresenham_main demo_env = Some r2 \<and> lg_main demo_env = Some r5
     \<and> app_prints (app_events r2) ! 8 = ''Line (50,450) to (350,100): dx=300, dy=350, |m| >= 1, points=351''
     \<and> app_prints (app_events r5) ! 9 = ''  Point 10: (10, 20)''"
proof -
  obtain r1 r2 r3 r4 r5 r6 where r: "dda_main demo_env = Some r1" "bresenham_main demo_env = Some r2"
    "circle_main demo_env = Some r3" "ellipse_main demo_env = Some r4" "lg_main demo_env = Some r5"
    "pie_main demo_env = Some r6"
    using demo_env_returns by blast
  have e: "init_ok demo_env" "window_ok demo_env" by (simp_all add: demo_env_def)
  from programs_console_output [OF e, of r1 r2 r3 r4 r5] r show ?thesis by auto
qed

end
